(* ===== verification/Prelude.thy ===== *)
theory Prelude
  imports Complex_Main "HOL-Library.Word"
begin

text \<open>
  Shared vocabulary of the VoiceKey development: the byte and blob types that the
  recorder, the data-URI encoder and the waveform renderer exchange, the theorem
  collections that the component theories fill, and generic lemmas on lists and
  words that several components use.
\<close>

unbundle bit_operations_syntax

section \<open>Types shared by the components\<close>

text \<open>
  A JavaScript \<open>Blob\<close> or \<open>Uint8Array\<close> is a sequence of bytes; a byte is an
  8-bit word. Base64 works on 6-bit groups (sextets). JavaScript strings of the
  sources are modelled as \<open>string\<close> (HOL's \<open>char list\<close>).
\<close>

type_synonym byte = "8 word"
type_synonym blob = "byte list"
type_synonym sextet = "6 word"

section \<open>Theorem collections\<close>

named_theorems handler_simps "characteristic equations of the event handlers of a component"
named_theorems platform_simps "equations of the modelled browser primitives"

section \<open>Lists\<close>

text \<open>
  The position of the first occurrence of an element, as a lookup table inverse
  (the Base64 decoder maps a character back to its index in the alphabet).
\<close>

fun position :: "'a list \<Rightarrow> 'a \<Rightarrow> nat option" where
  "position [] x = None"
| "position (y # ys) x = (if y = x then Some 0 else map_option Suc (position ys x))"

lemma position_nth:
  assumes "distinct xs" and "i < length xs"
  shows "position xs (xs ! i) = Some i"
  using assms
proof (induction xs arbitrary: i)
  case Nil
  then show ?case by simp
next
  case (Cons y ys)
  show ?case
  proof (cases i)
    case 0
    then show ?thesis by simp
  next
    case (Suc j)
    with Cons.prems have "ys ! j \<noteq> y" and "j < length ys"
      by (auto simp: nth_mem)
    with Cons Suc show ?thesis by simp
  qed
qed

lemma position_notin: "x \<notin> set xs \<Longrightarrow> position xs x = None"
  by (induction xs) auto

text \<open>Splitting a string at the first occurrence of a separator.\<close>

lemma takeWhile_append_sep:
  "\<not> P x \<Longrightarrow> (\<forall>y\<in>set xs. P y) \<Longrightarrow> takeWhile P (xs @ x # ys) = xs"
  by (induction xs) auto

lemma dropWhile_append_sep:
  "\<not> P x \<Longrightarrow> (\<forall>y\<in>set xs. P y) \<Longrightarrow> dropWhile P (xs @ x # ys) = x # ys"
  by (induction xs) auto

section \<open>Words\<close>

text \<open>An index below the width of a byte is one of eight numerals.\<close>

lemma byte_bit_index_cases:
  "n < LENGTH(8) \<Longrightarrow> n = 0 \<or> n = 1 \<or> n = 2 \<or> n = 3 \<or> n = 4 \<or> n = 5 \<or> n = 6 \<or> n = 7"
  by auto

text \<open>
  The rewrite set that decides an equation between bytes bit by bit: the bit
  operations, the normalisation of the index arithmetic back to numerals, and the
  fact that a byte has no bit beyond position 7.
\<close>

lemmas byte_bit_simps = bit_simps numeral_2_eq_2 [symmetric] numeral_3_eq_3 [symmetric]

lemma sextet_unat_less: "unat (s :: sextet) < 64"
  using unsigned_less [of s] by simp

end
