(* ===== verification/DataUri.thy ===== *)
theory DataUri
  imports Prelude
begin

text \<open>
  The encoded recording. The recorder (src/src/components/voice-recorder.tsx,
  \<open>onstop\<close>) gathers its chunks into one \<open>Blob\<close> typed \<open>audio/wav\<close> and reads it
  with \<open>FileReader.readAsDataURL\<close>; the resulting string
  \<open>data:<mime>;base64,<payload>\<close> is the voice print that the login page, the
  auth context and the AI flow pass around. The Blob constructor, Base64 (RFC 4648,
  standard alphabet, \<open>=\<close> padding) and \<open>readAsDataURL\<close> are browser code, not
  code of the repository: they are modelled from the spec and the platform
  standards. The decoder and the data-URI parser state what the payload means:
  they are the inverse functions the round-trip theorems are about.
\<close>

unbundle bit_operations_syntax

section \<open>Base64\<close>

definition b64_alphabet :: string where
  "b64_alphabet = ''ABCDEFGHIJKLMNOPQRSTUVWXYZabcdefghijklmnopqrstuvwxyz0123456789+/''"

definition b64_char :: "sextet \<Rightarrow> char" where
  "b64_char s = b64_alphabet ! unat s"

definition b64_index :: "char \<Rightarrow> sextet option" where
  "b64_index c = map_option of_nat (position b64_alphabet c)"

text \<open>Three bytes become four sextets; a short final group is padded with zero bits.\<close>

definition sx0 :: "byte \<Rightarrow> sextet" where
  "sx0 a = ucast (drop_bit 2 a)"

definition sx1 :: "byte \<Rightarrow> byte \<Rightarrow> sextet" where
  "sx1 a b = ucast (push_bit 4 (a AND 3) OR drop_bit 4 b)"

definition sx2 :: "byte \<Rightarrow> byte \<Rightarrow> sextet" where
  "sx2 b c = ucast (push_bit 2 (b AND 15) OR drop_bit 6 c)"

definition sx3 :: "byte \<Rightarrow> sextet" where
  "sx3 c = ucast (c AND 63)"

definition enc3 :: "byte \<Rightarrow> byte \<Rightarrow> byte \<Rightarrow> sextet list" where
  "enc3 a b c = [sx0 a, sx1 a b, sx2 b c, sx3 c]"

fun base64_encode :: "blob \<Rightarrow> string" where
  "base64_encode (a # b # c # rest) = map b64_char (enc3 a b c) @ base64_encode rest"
| "base64_encode [a, b] = map b64_char (take 3 (enc3 a b 0)) @ ''=''"
| "base64_encode [a] = map b64_char (take 2 (enc3 a 0 0)) @ ''==''"
| "base64_encode [] = []"

text \<open>Four sextets give back the three bytes they were cut from.\<close>

definition dec_a :: "sextet \<Rightarrow> sextet \<Rightarrow> byte" where
  "dec_a s0 s1 = push_bit 2 (ucast s0) OR drop_bit 4 (ucast s1)"

definition dec_b :: "sextet \<Rightarrow> sextet \<Rightarrow> byte" where
  "dec_b s1 s2 = push_bit 4 (ucast s1) OR drop_bit 2 (ucast s2)"

definition dec_c :: "sextet \<Rightarrow> sextet \<Rightarrow> byte" where
  "dec_c s2 s3 = push_bit 6 (ucast s2) OR ucast s3"

fun base64_decode :: "string \<Rightarrow> blob option" where
  "base64_decode (c0 # c1 # c2 # c3 # rest) =
     (case (b64_index c0, b64_index c1) of
        (Some s0, Some s1) \<Rightarrow>
          (if rest = [] \<and> c2 = CHR ''='' \<and> c3 = CHR ''='' then Some [dec_a s0 s1]
           else case b64_index c2 of
             None \<Rightarrow> None
           | Some s2 \<Rightarrow>
               (if rest = [] \<and> c3 = CHR ''='' then Some [dec_a s0 s1, dec_b s1 s2]
                else case (b64_index c3, base64_decode rest) of
                  (Some s3, Some bs) \<Rightarrow> Some (dec_a s0 s1 # dec_b s1 s2 # dec_c s2 s3 # bs)
                | _ \<Rightarrow> None))
      | _ \<Rightarrow> None)"
| "base64_decode [] = Some []"
| "base64_decode _ = None"

section \<open>Blob and FileReader\<close>

text \<open>
  \<open>new Blob(parts, {type})\<close> concatenates the parts in order;
  \<open>readAsDataURL\<close> prefixes the Base64 body with the Blob's type, or with
  \<open>application/octet-stream\<close> when the type is empty.
\<close>

record typed_blob =
  blob_bytes :: blob
  blob_type :: string

definition make_blob :: "blob list \<Rightarrow> string \<Rightarrow> typed_blob" where
  "make_blob parts ty = \<lparr>blob_bytes = concat parts, blob_type = ty\<rparr>"

definition read_as_data_url :: "typed_blob \<Rightarrow> string" where
  "read_as_data_url b =
     ''data:'' @ (if blob_type b = [] then ''application/octet-stream'' else blob_type b)
       @ '';base64,'' @ base64_encode (blob_bytes b)"

text \<open>Reading a data URI back: the MIME type up to the first \<open>;\<close>, then the payload.\<close>

definition parse_data_uri :: "string \<Rightarrow> (string \<times> blob) option" where
  "parse_data_uri s =
     (if take 5 s = ''data:'' then
        (let rest = drop 5 s;
             mime = takeWhile (\<lambda>c. c \<noteq> CHR '';'') rest;
             tl_part = dropWhile (\<lambda>c. c \<noteq> CHR '';'') rest
         in if take 8 tl_part = '';base64,''
            then map_option (Pair mime) (base64_decode (drop 8 tl_part))
            else None)
      else None)"

section \<open>Lemmas on the alphabet and the groups\<close>

lemma b64_alphabet_distinct: "distinct b64_alphabet"
  by (simp add: b64_alphabet_def)

lemma b64_alphabet_length: "length b64_alphabet = 64"
  by (simp add: b64_alphabet_def)

lemma b64_index_char [simp]: "b64_index (b64_char s) = Some s"
proof -
  have "unat s < length b64_alphabet"
    using sextet_unat_less [of s] by (simp add: b64_alphabet_length)
  from position_nth [OF b64_alphabet_distinct this]
  show ?thesis by (simp add: b64_index_def b64_char_def)
qed

lemma b64_index_pad [simp]: "b64_index CHR ''='' = None"
  by (simp add: b64_index_def b64_alphabet_def)

lemma b64_char_not_pad [simp]: "b64_char s \<noteq> CHR ''=''"
  using b64_index_char [of s] by (metis b64_index_pad option.distinct(1))

lemma b64_char_not_sep [simp]: "b64_char s \<noteq> CHR '';''"
proof -
  have "CHR '';'' \<notin> set b64_alphabet" by (simp add: b64_alphabet_def)
  moreover have "b64_char s \<in> set b64_alphabet"
    using sextet_unat_less [of s] by (simp add: b64_char_def b64_alphabet_length)
  ultimately show ?thesis by metis
qed

lemmas sep_not_b64_char [simp] = b64_char_not_sep [THEN not_sym]

lemma dec_a_enc3 [simp]: "dec_a (sx0 a) (sx1 a b) = a"
  unfolding dec_a_def sx0_def sx1_def
  by (rule bit_word_eqI, drule byte_bit_index_cases) (auto simp: byte_bit_simps dest: bit_imp_le_length)

lemma dec_b_enc3 [simp]: "dec_b (sx1 a b) (sx2 b c) = b"
  unfolding dec_b_def sx1_def sx2_def
  by (rule bit_word_eqI, drule byte_bit_index_cases) (auto simp: byte_bit_simps dest: bit_imp_le_length)

lemma dec_c_enc3 [simp]: "dec_c (sx2 b c) (sx3 c) = c"
  unfolding dec_c_def sx2_def sx3_def
  by (rule bit_word_eqI, drule byte_bit_index_cases) (auto simp: byte_bit_simps dest: bit_imp_le_length)

lemma base64_encode_length: "length (base64_encode bs) = 4 * ((length bs + 2) div 3)"
  by (induction bs rule: base64_encode.induct) (simp_all add: enc3_def, presburger)

lemma base64_decode_encode: "base64_decode (base64_encode bs) = Some bs"
  by (induction bs rule: base64_encode.induct) (simp_all add: enc3_def)

lemma base64_encode_no_sep: "CHR '';'' \<notin> set (base64_encode bs)"
  by (induction bs rule: base64_encode.induct) (auto simp: enc3_def)

lemma parse_read_as_data_url:
  assumes "CHR '';'' \<notin> set (blob_type b)" and "blob_type b \<noteq> []"
  shows "parse_data_uri (read_as_data_url b) = Some (blob_type b, blob_bytes b)"
proof -
  let ?P = "\<lambda>c. c \<noteq> CHR '';''"
  have all: "\<forall>y\<in>set (blob_type b). ?P y" using assms(1) by auto
  have "drop 5 (read_as_data_url b) = blob_type b @ CHR '';'' # ''base64,'' @ base64_encode (blob_bytes b)"
    using assms(2) by (simp add: read_as_data_url_def)
  moreover have "takeWhile ?P (blob_type b @ CHR '';'' # ''base64,'' @ base64_encode (blob_bytes b)) = blob_type b"
    using takeWhile_append_sep [of ?P "CHR '';''" "blob_type b"] all by simp
  moreover have "dropWhile ?P (blob_type b @ CHR '';'' # ''base64,'' @ base64_encode (blob_bytes b))
      = CHR '';'' # ''base64,'' @ base64_encode (blob_bytes b)"
    using dropWhile_append_sep [of ?P "CHR '';''" "blob_type b"] all by simp
  ultimately show ?thesis
    by (simp add: parse_data_uri_def read_as_data_url_def Let_def base64_decode_encode)
qed

section \<open>The recorder's data URL\<close>

text \<open>
  The data URL of a Blob typed \<open>audio/wav\<close> parses back to that type and to the
  concatenation of the Blob's parts.
\<close>

lemma audio_wav_data_url_parse:
  "parse_data_uri (read_as_data_url (make_blob chunks ''audio/wav'')) = Some (''audio/wav'', concat chunks)"
proof -
  have "CHR '';'' \<notin> set (blob_type (make_blob chunks ''audio/wav''))"
    "blob_type (make_blob chunks ''audio/wav'') \<noteq> []"
    by (simp_all add: make_blob_def)
  from parse_read_as_data_url [OF this] show ?thesis by (simp add: make_blob_def)
qed

end
