(* ===== verification/Platform.thy ===== *)
theory Platform
  imports Prelude
begin

text \<open>
  The browser resources the recorder and the visualizer hold: microphone streams
  (\<open>MediaStream\<close> and its tracks), Web Audio contexts with their analyser node,
  \<open>MediaRecorder\<close> objects and the animation-frame callback queue. None of this
  is code of the repository; it is modelled from the platform standards, as far as
  the components' behaviour depends on it: an explicit store of objects indexed by
  fresh numbers, the operations the sources call, and the two behaviours that
  matter for the proofs: stopping the tracks of a stream ends a recording on it,
  and \<open>AudioContext.close()\<close> on a closed context returns a rejected promise.
\<close>

section \<open>Objects\<close>

type_synonym stream_id = nat
type_synonym ctx_id = nat
type_synonym rec_id = nat
type_synonym frame_id = nat

text \<open>
  \<open>AudioContext.state\<close>: \<open>suspended\<close> and \<open>running\<close> behave alike here (both are
  "not closed"). The context owns the one analyser node the recorder creates; its
  \<open>fftSize\<close> and its current byte frequency data are kept with the context.
\<close>

datatype ctx_state = CtxRunning | CtxClosed

record audio_ctx =
  ctx_state :: ctx_state
  fft_size :: nat
  ctx_bins :: "byte list"

text \<open>
  \<open>MediaRecorder.state\<close> (\<open>paused\<close> is never used by the sources), the stream it
  records, and whether its final \<open>dataavailable\<close> and \<open>stop\<close> events are queued.
\<close>

datatype mr_state = MrInactive | MrRecording

record media_rec =
  mr_stream :: stream_id
  mr_state :: mr_state
  mr_stop_queued :: bool

record browser =
  live_tracks :: "stream_id set"
  ctxs :: "ctx_id \<Rightarrow> audio_ctx option"
  recs :: "rec_id \<Rightarrow> media_rec option"
  next_obj :: nat
  raf_queue :: "frame_id list"
  next_frame :: frame_id
  rejections :: nat

definition init_browser :: browser where
  "init_browser =
     \<lparr>live_tracks = {}, ctxs = Map.empty, recs = Map.empty, next_obj = 0,
      raf_queue = [], next_frame = 1, rejections = 0\<rparr>"

section \<open>Media streams\<close>

text \<open>
  \<open>getUserMedia\<close> resolves with a fresh stream whose tracks are live.
  \<open>MediaStreamTrack.stop()\<close> is idempotent. When the tracks of a stream end, every
  \<open>MediaRecorder\<close> recording it stops and queues its final events
  (MediaStream Recording, "stop gathering data").
\<close>

definition get_user_media :: "browser \<Rightarrow> stream_id \<times> browser" where
  "get_user_media b =
     (next_obj b, b\<lparr>live_tracks := insert (next_obj b) (live_tracks b), next_obj := Suc (next_obj b)\<rparr>)"

definition end_recording :: "media_rec \<Rightarrow> media_rec" where
  "end_recording m =
     (if mr_state m = MrRecording then m\<lparr>mr_state := MrInactive, mr_stop_queued := True\<rparr> else m)"

definition stop_tracks :: "stream_id \<Rightarrow> browser \<Rightarrow> browser" where
  "stop_tracks s b =
     b\<lparr>live_tracks := live_tracks b - {s},
       recs := (\<lambda>i. map_option (\<lambda>m. if mr_stream m = s then end_recording m else m) (recs b i))\<rparr>"

section \<open>Audio contexts and the analyser\<close>

text \<open>
  \<open>new AudioContext()\<close> with \<open>createAnalyser()\<close>: the analyser starts with the
  default \<open>fftSize\<close> 2048 and silent data. \<open>frequencyBinCount\<close> is half the FFT size.
\<close>

definition default_fft_size :: nat where
  "default_fft_size = 2048"

definition frequency_bin_count :: "audio_ctx \<Rightarrow> nat" where
  "frequency_bin_count c = fft_size c div 2"

definition new_audio_context :: "browser \<Rightarrow> ctx_id \<times> browser" where
  "new_audio_context b =
     (next_obj b,
      b\<lparr>ctxs := (ctxs b)(next_obj b \<mapsto>
            \<lparr>ctx_state = CtxRunning, fft_size = default_fft_size,
             ctx_bins = replicate (default_fft_size div 2) 0\<rparr>),
        next_obj := Suc (next_obj b)\<rparr>)"

definition set_fft_size :: "ctx_id \<Rightarrow> nat \<Rightarrow> browser \<Rightarrow> browser" where
  "set_fft_size c n b =
     b\<lparr>ctxs := (ctxs b)(c := map_option (\<lambda>x. x\<lparr>fft_size := n, ctx_bins := replicate (n div 2) 0\<rparr>) (ctxs b c))\<rparr>"

text \<open>
  \<open>close()\<close> on an open context closes it; on a closed one it returns a promise
  rejected with \<open>InvalidStateError\<close>. The sources never handle that promise, so
  the rejection is counted as unhandled.
\<close>

definition close_ctx :: "ctx_id \<Rightarrow> browser \<Rightarrow> browser" where
  "close_ctx c b =
     (case ctxs b c of
        None \<Rightarrow> b
      | Some x \<Rightarrow>
          if ctx_state x = CtxClosed then b\<lparr>rejections := Suc (rejections b)\<rparr>
          else b\<lparr>ctxs := (ctxs b)(c \<mapsto> x\<lparr>ctx_state := CtxClosed\<rparr>)\<rparr>)"

definition ctx_closed :: "browser \<Rightarrow> ctx_id \<Rightarrow> bool" where
  "ctx_closed b c = (case ctxs b c of None \<Rightarrow> False | Some x \<Rightarrow> ctx_state x = CtxClosed)"

text \<open>
  New microphone input reaches the analyser of every running context; a closed
  context no longer renders, so its analyser keeps its last data.
\<close>

definition audio_input :: "byte list \<Rightarrow> browser \<Rightarrow> browser" where
  "audio_input bins b =
     b\<lparr>ctxs := (\<lambda>c. map_option
         (\<lambda>x. if ctx_state x = CtxRunning \<and> length bins = frequency_bin_count x
              then x\<lparr>ctx_bins := bins\<rparr> else x) (ctxs b c))\<rparr>"

text \<open>
  \<open>getByteFrequencyData(array)\<close> copies the current data into the array; excess
  elements on either side are left alone.
\<close>

definition get_byte_frequency_data :: "ctx_id \<Rightarrow> byte list \<Rightarrow> browser \<Rightarrow> byte list" where
  "get_byte_frequency_data c arr b =
     (case ctxs b c of
        None \<Rightarrow> arr
      | Some x \<Rightarrow> take (length arr) (ctx_bins x) @ drop (length (ctx_bins x)) arr)"

section \<open>MediaRecorder\<close>

definition new_media_recorder :: "stream_id \<Rightarrow> browser \<Rightarrow> rec_id \<times> browser" where
  "new_media_recorder s b =
     (next_obj b,
      b\<lparr>recs := (recs b)(next_obj b \<mapsto> \<lparr>mr_stream = s, mr_state = MrInactive, mr_stop_queued = False\<rparr>),
        next_obj := Suc (next_obj b)\<rparr>)"

definition recorder_start :: "rec_id \<Rightarrow> browser \<Rightarrow> browser" where
  "recorder_start i b =
     b\<lparr>recs := (recs b)(i := map_option (\<lambda>m. m\<lparr>mr_state := MrRecording\<rparr>) (recs b i))\<rparr>"

text \<open>\<open>stop()\<close> on an inactive recorder does nothing.\<close>

definition recorder_stop :: "rec_id \<Rightarrow> browser \<Rightarrow> browser" where
  "recorder_stop i b = b\<lparr>recs := (recs b)(i := map_option end_recording (recs b i))\<rparr>"

text \<open>The \<open>stop\<close> event has been dispatched.\<close>

definition recorder_stop_fired :: "rec_id \<Rightarrow> browser \<Rightarrow> browser" where
  "recorder_stop_fired i b =
     b\<lparr>recs := (recs b)(i := map_option (\<lambda>m. m\<lparr>mr_stop_queued := False\<rparr>) (recs b i))\<rparr>"

definition rec_delivers :: "browser \<Rightarrow> rec_id \<Rightarrow> bool" where
  "rec_delivers b i =
     (case recs b i of None \<Rightarrow> False | Some m \<Rightarrow> mr_state m = MrRecording \<or> mr_stop_queued m)"

definition rec_stop_queued :: "browser \<Rightarrow> rec_id \<Rightarrow> bool" where
  "rec_stop_queued b i = (case recs b i of None \<Rightarrow> False | Some m \<Rightarrow> mr_stop_queued m)"

section \<open>Animation frames\<close>

text \<open>
  \<open>requestAnimationFrame\<close> returns a fresh non-zero handle and queues the callback;
  \<open>cancelAnimationFrame\<close> removes it from the queue.
\<close>

definition request_animation_frame :: "browser \<Rightarrow> frame_id \<times> browser" where
  "request_animation_frame b =
     (next_frame b, b\<lparr>raf_queue := raf_queue b @ [next_frame b], next_frame := Suc (next_frame b)\<rparr>)"

definition cancel_animation_frame :: "frame_id \<Rightarrow> browser \<Rightarrow> browser" where
  "cancel_animation_frame f b = b\<lparr>raf_queue := removeAll f (raf_queue b)\<rparr>"

section \<open>Lemmas\<close>

text \<open>
  Every primitive but \<open>close()\<close> is unfolded by the simplifier in the component
  proofs; \<open>close()\<close> is described by what it does to each part of the store, so
  that the proofs need not split on whether the context was already closed.
\<close>

declare get_user_media_def [platform_simps] stop_tracks_def [platform_simps]
  new_audio_context_def [platform_simps] set_fft_size_def [platform_simps]
  new_media_recorder_def [platform_simps] recorder_start_def [platform_simps]
  recorder_stop_def [platform_simps] recorder_stop_fired_def [platform_simps]
  request_animation_frame_def [platform_simps] cancel_animation_frame_def [platform_simps]
  audio_input_def [platform_simps]

lemma close_ctx_fields [platform_simps]:
  "live_tracks (close_ctx c b) = live_tracks b"
  "recs (close_ctx c b) = recs b"
  "next_obj (close_ctx c b) = next_obj b"
  "raf_queue (close_ctx c b) = raf_queue b"
  "next_frame (close_ctx c b) = next_frame b"
  "ctxs (close_ctx c b) = (ctxs b)(c := map_option (\<lambda>x. x\<lparr>ctx_state := CtxClosed\<rparr>) (ctxs b c))"
  by (auto simp: close_ctx_def fun_eq_iff split: option.splits)

lemma close_ctx_rejections:
  "rejections (close_ctx c b) = (if ctx_closed b c then Suc (rejections b) else rejections b)"
  by (simp add: close_ctx_def ctx_closed_def split: option.splits)

lemma rec_delivers_iff:
  "rec_delivers b i = (\<exists>m. recs b i = Some m \<and> (mr_state m = MrRecording \<or> mr_stop_queued m))"
  by (simp add: rec_delivers_def split: option.splits)

lemma rec_stop_queued_iff: "rec_stop_queued b i = (\<exists>m. recs b i = Some m \<and> mr_stop_queued m)"
  by (simp add: rec_stop_queued_def split: option.splits)

end
