(* ===== verification/Waveform.thy ===== *)
theory Waveform
  imports Platform
begin

text \<open>
  The waveform renderer, src/src/components/waveform-visualizer.tsx. Its
  \<open>draw\<close> closure samples the analyser into a \<open>Uint8Array\<close> of
  \<open>frequencyBinCount\<close> bytes, turns it into an SVG path over a 300 by 96 view box,
  and re-arms itself with \<open>requestAnimationFrame\<close>; the effect's cleanup cancels the
  last armed frame. The path is kept as its list of commands (\<open>M x,y\<close> and
  \<open>L x,y\<close>); coordinates are rationals. For the analyser the recorder creates
  (1024 bins) every coordinate is a multiple of 1/256 of magnitude below 2^12
  (\<open>draw_path_coordinates_exact\<close> below); such numbers, and every partial sum
  of \<open>x\<close>, have at most 20 significant bits, so JavaScript's double arithmetic
  computes them exactly. Doubles themselves are not modelled: that last step is
  the IEEE argument, not a lemma.
\<close>

section \<open>The path of one frame\<close>

definition svg_width :: rat where
  "svg_width = 300"

definition svg_height :: rat where
  "svg_height = 96"

datatype path_cmd = MoveTo rat rat | LineTo rat rat

text \<open>
  The \<open>for\<close> loop of \<open>draw\<close>: sample \<open>i\<close> is normalised to \<open>v = m / 128\<close>,
  scaled to \<open>y = v * H / 2\<close> and drawn at \<open>(x, H/2 - y)\<close>; then \<open>x\<close> grows by
  \<open>sliceWidth\<close>.
\<close>

fun draw_segments :: "rat \<Rightarrow> rat \<Rightarrow> rat \<Rightarrow> byte list \<Rightarrow> path_cmd list" where
  "draw_segments h slice_width x [] = []"
| "draw_segments h slice_width x (m # ms) =
     (let v = of_nat (unat m) / 128;
          y = v * h / 2
      in LineTo x (h / 2 - y) # draw_segments h slice_width (x + slice_width) ms)"

definition draw_path :: "rat \<Rightarrow> rat \<Rightarrow> byte list \<Rightarrow> path_cmd list" where
  "draw_path w h data_array =
     (let buffer_length = length data_array;
          slice_width = w * 1 / of_nat buffer_length
      in MoveTo 0 (h / 2) # draw_segments h slice_width 0 data_array @ [LineTo w (h / 2)])"

section \<open>The component\<close>

text \<open>
  A mounted \<open>WaveformVisualizer\<close>: its \<open>analyserNode\<close> prop, the \<open>dataArray\<close> its
  effect allocated, \<open>animationFrameIdRef.current\<close> and the \<open>pathD\<close> state (the
  empty list stands for the initial empty string).
\<close>

record visualizer =
  viz_analyser :: ctx_id
  viz_data :: "byte list"
  viz_frame :: "frame_id option"
  viz_path :: "path_cmd list"

definition analyser_bin_count :: "browser \<Rightarrow> ctx_id \<Rightarrow> nat" where
  "analyser_bin_count b c = (case ctxs b c of None \<Rightarrow> 0 | Some x \<Rightarrow> frequency_bin_count x)"

text \<open>\<open>draw\<close>: re-arm first, then sample and set the path.\<close>

definition viz_draw :: "visualizer \<Rightarrow> browser \<Rightarrow> visualizer \<times> browser" where
  "viz_draw v b =
     (let (f, b1) = request_animation_frame b;
          data = get_byte_frequency_data (viz_analyser v) (viz_data v) b1
      in (v\<lparr>viz_frame := Some f, viz_data := data,
            viz_path := draw_path svg_width svg_height data\<rparr>, b1))"

text \<open>
  Mounting runs the effect: unless the guard \<open>!isRecording || !analyserNode\<close>
  returns early, it allocates the buffer and calls \<open>draw()\<close> once.
\<close>

definition viz_mount :: "bool \<Rightarrow> ctx_id \<Rightarrow> browser \<Rightarrow> visualizer \<times> browser" where
  "viz_mount is_recording c b =
     (let v0 = \<lparr>viz_analyser = c, viz_data = [], viz_frame = None, viz_path = []\<rparr>
      in if \<not> is_recording then (v0, b)
         else viz_draw (v0\<lparr>viz_data := replicate (analyser_bin_count b c) 0\<rparr>) b)"

text \<open>The effect's cleanup: \<open>if (animationFrameIdRef.current) cancelAnimationFrame(...)\<close>.\<close>

definition viz_cleanup :: "visualizer \<Rightarrow> browser \<Rightarrow> browser" where
  "viz_cleanup v b =
     (case viz_frame v of
        None \<Rightarrow> b
      | Some f \<Rightarrow> if f \<noteq> 0 then cancel_animation_frame f b else b)"

text \<open>
  The browser runs the oldest queued frame callback. If it is the mounted
  instance's armed frame, \<open>draw\<close> runs on it; a callback left behind by an instance
  that is gone still re-arms itself (its state updates go nowhere).
\<close>

definition viz_animation_frame :: "visualizer option \<Rightarrow> browser \<Rightarrow> visualizer option \<times> browser" where
  "viz_animation_frame vo b =
     (case raf_queue b of
        [] \<Rightarrow> (vo, b)
      | f # rest \<Rightarrow>
          (let b1 = b\<lparr>raf_queue := rest\<rparr>
           in case vo of
                Some v \<Rightarrow>
                  if viz_frame v = Some f then (let (v', b2) = viz_draw v b1 in (Some v', b2))
                  else (vo, snd (request_animation_frame b1))
              | None \<Rightarrow> (None, snd (request_animation_frame b1))))"

section \<open>Lemmas on the path\<close>

lemma draw_segments_length [simp]: "length (draw_segments h sw x ms) = length ms"
  by (induction ms arbitrary: x) (simp_all add: Let_def)

text \<open>
  The loop accumulates \<open>x += sliceWidth\<close>; sample \<open>i\<close> lands at \<open>x0 + i * sliceWidth\<close>
  and at height \<open>H/2 - m * H / 256\<close>.
\<close>

lemma draw_segments_nth:
  "i < length ms \<Longrightarrow>
   draw_segments h sw x ms ! i = LineTo (x + of_nat i * sw) (h / 2 - of_nat (unat (ms ! i)) * h / 256)"
proof (induction ms arbitrary: x i)
  case Nil
  then show ?case by simp
next
  case (Cons m ms)
  show ?case
  proof (cases i)
    case 0
    then show ?thesis by (simp add: Let_def)
  next
    case (Suc j)
    with Cons.prems have "j < length ms" by simp
    with Cons.IH [of j "x + sw"] Suc show ?thesis
      by (simp add: Let_def algebra_simps)
  qed
qed

lemma set_draw_segments:
  "c \<in> set (draw_segments h sw x ms) \<longleftrightarrow>
   (\<exists>i < length ms. c = LineTo (x + of_nat i * sw) (h / 2 - of_nat (unat (ms ! i)) * h / 256))"
  by (auto simp: in_set_conv_nth draw_segments_nth)

lemma byte_unat_le: "unat (m :: byte) \<le> 255"
proof -
  have "unat m < 256" using unsigned_less [of m] by simp
  then show ?thesis by simp
qed

lemma draw_path_coordinates_exact:
  assumes "length d = 1024" and "c \<in> set (draw_path 300 96 d)"
  shows "\<exists>kx ky :: int. 0 \<le> kx \<and> kx < 2 ^ 20 \<and> \<bar>ky\<bar> < 2 ^ 20 \<and>
           (c = MoveTo (of_int kx / 256) (of_int ky / 256) \<or> c = LineTo (of_int kx / 256) (of_int ky / 256))"
proof -
  have sw: "(300::rat) * 1 / of_nat (length d) = 75 / 256" using assms(1) by simp
  from assms(2) consider "c = MoveTo 0 48" | "c = LineTo 300 48"
    | i where "i < length d" "c = LineTo (0 + of_nat i * (75 / 256)) (96 / 2 - of_nat (unat (d ! i)) * 96 / 256)"
    unfolding draw_path_def Let_def sw set_append by (auto simp: set_draw_segments)
  then show ?thesis
  proof cases
    case 1
    then show ?thesis by (intro exI [of _ 0] exI [of _ 12288]) simp
  next
    case 2
    then show ?thesis by (intro exI [of _ 76800] exI [of _ 12288]) simp
  next
    case (3 i)
    define k where "k = int (unat (d ! i))"
    have k: "0 \<le> k" "k \<le> 255"
      unfolding k_def using of_nat_mono [OF byte_unat_le [of "d ! i"], where 'a = int] by simp_all
    have b: "75 * int i < 2 ^ 20" "\<bar>12288 - 96 * k\<bar> < 2 ^ 20" using 3(1) assms(1) k by simp_all
    have e: "(of_nat (unat (d ! i)) :: rat) = of_int k" by (simp add: k_def)
    have l: "c = LineTo (of_int (75 * int i) / 256) (of_int (12288 - 96 * k) / 256)"
      using 3(2) e by (simp add: field_simps)
    have "0 \<le> 75 * int i" by simp
    with l b show ?thesis by blast
  qed
qed

section \<open>Properties of the rendered path\<close>

text \<open>C22: the path has one point per sample plus the two anchors.\<close>

theorem draw_path_length: "length (draw_path w h d) = length d + 2"
  by (simp add: draw_path_def Let_def)

text \<open>
  C23: the accumulating loop of \<open>draw\<close> computes the closed form: point \<open>i + 1\<close> of
  the path (after the \<open>M\<close> anchor) is at \<open>(i * W / N, H/2 - m_i * H / 256)\<close>.
\<close>

theorem draw_path_point:
  assumes "i < length d"
  shows "draw_path w h d ! Suc i =
         LineTo (of_nat i * (w / of_nat (length d))) (h / 2 - of_nat (unat (d ! i)) * h / 256)"
  using assms by (simp add: draw_path_def Let_def nth_append draw_segments_nth)

theorem draw_path_point_witness:
  "(1::nat) < length [0, 128, 255 :: byte] \<and>
   draw_path 300 96 [0, 128, 255 :: byte] ! Suc 1 = LineTo 100 0"
proof -
  have "(1::nat) < length [0, 128, 255 :: byte]" by simp
  from draw_path_point [OF this, of 300 96] show ?thesis by simp
qed

text \<open>
  C24: a snapshot in which every magnitude is 128 draws every sample at \<open>y = 0\<close>,
  the top edge of the view box, not at the midline \<open>H/2\<close> the spec names; the
  midline is what a silent (all-zero) snapshot draws.
\<close>

theorem draw_path_all_128:
  assumes "\<forall>m \<in> set d. m = 128" and "c \<in> set (draw_segments h sw 0 d)"
  shows "\<exists>x. c = LineTo x 0"
proof -
  from assms(2) obtain i where i: "i < length d"
    and c: "c = LineTo (of_nat i * sw) (h / 2 - of_nat (unat (d ! i)) * h / 256)"
    by (auto simp: set_draw_segments)
  from i assms(1) have "d ! i = 128" by (simp add: nth_mem)
  with c show ?thesis by simp
qed

theorem draw_path_all_128_witness:
  "set (draw_segments 96 (75 / 256) 0 [128, 128 :: byte]) \<subseteq> {c. \<exists>x. c = LineTo x 0}"
proof -
  have h1: "\<forall>m \<in> set [128, 128 :: byte]. m = 128" by simp
  show ?thesis using draw_path_all_128 [OF h1] by blast
qed

text \<open>
  C25: for a non-negative height every sample point lies between the midline and
  \<open>H/256\<close> below the top edge of the view box's mirror: \<open>H/2 - 255 H/256 \<le> y \<le> H/2\<close>.
  The line never goes below the midline; magnitudes above 128 draw above the view
  box (negative \<open>y\<close>, clipped by the SVG).
\<close>

theorem draw_segments_y_bounds:
  assumes "0 \<le> h" and "LineTo x y \<in> set (draw_segments h sw x0 ms)"
  shows "h / 2 - 255 * h / 256 \<le> y \<and> y \<le> h / 2"
proof -
  from assms(2) obtain i where i: "i < length ms" and y: "y = h / 2 - of_nat (unat (ms ! i)) * h / 256"
    by (auto simp: set_draw_segments)
  have "of_nat (unat (ms ! i)) \<le> (255 :: rat)"
    using byte_unat_le [of "ms ! i"] by (simp add: of_nat_le_iff [symmetric, where 'a = rat])
  then have "of_nat (unat (ms ! i)) * h \<le> 255 * h"
    using assms(1) by (simp add: mult_right_mono)
  moreover have "0 \<le> of_nat (unat (ms ! i)) * h"
    by (rule mult_nonneg_nonneg [OF of_nat_0_le_iff assms(1)])
  ultimately show ?thesis using y by linarith
qed

theorem draw_segments_y_bounds_witness:
  "(0::rat) \<le> 96 \<and> LineTo 0 (48 - 255 * 96 / 256) \<in> set (draw_segments 96 1 0 [255 :: byte]) \<and>
   96 / 2 - 255 * 96 / 256 \<le> (48 - 255 * 96 / 256 :: rat) \<and> (48 - 255 * 96 / 256 :: rat) \<le> 96 / 2"
proof -
  have h1: "(0::rat) \<le> 96" by simp
  have h2: "LineTo 0 (48 - 255 * 96 / 256) \<in> set (draw_segments 96 1 0 [255 :: byte])" by simp
  show ?thesis using draw_segments_y_bounds [OF h1 h2] h1 h2 by simp
qed

end
