(* ===== verification/Recorder.thy ===== *)
theory Recorder
  imports DataUri Waveform
begin

text \<open>
  The recorder state machine, src/src/components/voice-recorder.tsx. The record
  \<open>recorder\<close> holds the component's React state (\<open>status\<close>, \<open>stream\<close>,
  \<open>analyserNode\<close>), its refs (\<open>mediaRecorderRef\<close>, \<open>audioChunksRef\<close>,
  \<open>audioContextRef\<close>), the stream captured by the registered cleanup of its
  \<open>useEffect(..., [stream])\<close>, the mounted \<open>WaveformVisualizer\<close>, the pending
  asynchronous work (the \<open>getUserMedia\<close> promise, the \<open>FileReader\<close>), the
  observable outputs (toasts, the arguments passed to \<open>onRecordingComplete\<close>)
  and the browser store. One definition per handler of the source; a step runs a
  handler and then React's commit (render, effect cleanups, effects), in the React 18
  order: state updates are batched and applied at the end of the handler, and
  passive effects run after it. After unmounting, state setters are no-ops but
  refs, browser calls and callbacks still run.
\<close>

section \<open>State\<close>

datatype recording_status = Idle | Permission | Recording | Processing | Finished

datatype toast = ToastMediaUnsupported | ToastMicDenied

record recorder =
  status :: recording_status
  stream :: "stream_id option"
  analyser_node :: "ctx_id option"
  media_recorder_ref :: "rec_id option"
  audio_chunks_ref :: "blob list"
  audio_context_ref :: "ctx_id option"
  cleanup_stream :: "stream_id option"
  viz :: "visualizer option"
  mounted :: bool
  perm_pending :: bool
  reader :: "typed_blob option"
  toasts :: "toast list"
  completed :: "string list"
  br :: browser
  media_supported :: bool

definition init_recorder :: "bool \<Rightarrow> recorder" where
  "init_recorder supported =
     \<lparr>status = Idle, stream = None, analyser_node = None, media_recorder_ref = None,
      audio_chunks_ref = [], audio_context_ref = None, cleanup_stream = None, viz = None,
      mounted = True, perm_pending = False, reader = None, toasts = [], completed = [],
      br = init_browser, media_supported = supported\<rparr>"

section \<open>State setters\<close>

definition set_status :: "recording_status \<Rightarrow> recorder \<Rightarrow> recorder" where
  "set_status st r = (if mounted r then r\<lparr>status := st\<rparr> else r)"

definition set_stream :: "stream_id option \<Rightarrow> recorder \<Rightarrow> recorder" where
  "set_stream s r = (if mounted r then r\<lparr>stream := s\<rparr> else r)"

definition set_analyser_node :: "ctx_id option \<Rightarrow> recorder \<Rightarrow> recorder" where
  "set_analyser_node c r = (if mounted r then r\<lparr>analyser_node := c\<rparr> else r)"

definition show_toast :: "toast \<Rightarrow> recorder \<Rightarrow> recorder" where
  "show_toast t r = r\<lparr>toasts := toasts r @ [t]\<rparr>"

section \<open>Handlers\<close>

text \<open>\<open>getMicPermission\<close> up to the \<open>await\<close>.\<close>

definition get_mic_permission :: "recorder \<Rightarrow> recorder" where
  "get_mic_permission r =
     (if \<not> media_supported r then show_toast ToastMediaUnsupported r
      else (set_status Permission r)\<lparr>perm_pending := True\<rparr>)"

definition start_recording :: "stream_id \<Rightarrow> recorder \<Rightarrow> recorder" where
  "start_recording s r =
     (let r1 = set_status Recording r;
          (c, b1) = new_audio_context (br r1);
          b2 = set_fft_size c 2048 b1;
          r2 = set_analyser_node (Some c) (r1\<lparr>audio_context_ref := Some c, br := b2\<rparr>);
          (i, b3) = new_media_recorder s (br r2)
      in r2\<lparr>media_recorder_ref := Some i, audio_chunks_ref := [], br := recorder_start i b3\<rparr>)"

text \<open>\<open>getMicPermission\<close> after the \<open>await\<close>: the \<open>try\<close> branch and the \<open>catch\<close> branch.\<close>

definition permission_granted :: "recorder \<Rightarrow> recorder" where
  "permission_granted r =
     (let (s, b1) = get_user_media (br r);
          r1 = set_status Idle (set_stream (Some s) (r\<lparr>perm_pending := False, br := b1\<rparr>))
      in start_recording s r1)"

definition permission_denied :: "recorder \<Rightarrow> recorder" where
  "permission_denied r = set_status Idle (show_toast ToastMicDenied (r\<lparr>perm_pending := False\<rparr>))"

definition on_data_available :: "blob \<Rightarrow> recorder \<Rightarrow> recorder" where
  "on_data_available d r =
     (if 0 < length d then r\<lparr>audio_chunks_ref := audio_chunks_ref r @ [d]\<rparr> else r)"

definition on_stop :: "recorder \<Rightarrow> recorder" where
  "on_stop r =
     (let r1 = set_status Processing r;
          audio_blob = make_blob (audio_chunks_ref r1) ''audio/wav''
      in r1\<lparr>reader := Some audio_blob\<rparr>)"

definition on_load_end :: "recorder \<Rightarrow> recorder" where
  "on_load_end r =
     (case reader r of
        None \<Rightarrow> r
      | Some b \<Rightarrow> set_status Finished (r\<lparr>reader := None, completed := completed r @ [read_as_data_url b]\<rparr>))"

definition stop_recording :: "recorder \<Rightarrow> recorder" where
  "stop_recording r =
     (let b1 = (case media_recorder_ref r of
                  Some i \<Rightarrow> if status r = Recording then recorder_stop i (br r) else br r
                | None \<Rightarrow> br r);
          b2 = (case stream r of Some s \<Rightarrow> stop_tracks s b1 | None \<Rightarrow> b1);
          b3 = (case audio_context_ref r of Some c \<Rightarrow> close_ctx c b2 | None \<Rightarrow> b2)
      in set_analyser_node None (set_stream None (r\<lparr>br := b3\<rparr>)))"

definition handle_button_click :: "recorder \<Rightarrow> recorder" where
  "handle_button_click r =
     (if status r = Idle \<or> status r = Finished then get_mic_permission r
      else if status r = Recording then stop_recording r
      else r)"

text \<open>
  The cleanup function of \<open>useEffect(..., [stream])\<close>: it stops the tracks of the
  stream it captured when it was registered, and reads \<open>audioContextRef\<close> when it
  runs.
\<close>

definition stream_cleanup :: "stream_id option \<Rightarrow> recorder \<Rightarrow> recorder" where
  "stream_cleanup so r =
     (let b1 = (case so of Some s \<Rightarrow> stop_tracks s (br r) | None \<Rightarrow> br r);
          b2 = (case audio_context_ref r of
                  Some c \<Rightarrow> if ctx_closed b1 c then b1 else close_ctx c b1
                | None \<Rightarrow> b1)
      in r\<lparr>br := b2\<rparr>)"

section \<open>Commit\<close>

text \<open>
  The render shows the visualizer iff \<open>status === 'recording' && analyserNode\<close>.
  The commit runs the cleanups first (the \<open>[stream]\<close> effect when \<open>stream\<close>
  changed, the visualizer's when it unmounts), then the visualizer's effect when it
  mounts.
\<close>

definition viz_wanted :: "recorder \<Rightarrow> ctx_id option" where
  "viz_wanted r = (if status r = Recording then analyser_node r else None)"

definition commit_stream_effect :: "recorder \<Rightarrow> recorder" where
  "commit_stream_effect r =
     (if stream r = cleanup_stream r then r
      else (stream_cleanup (cleanup_stream r) r)\<lparr>cleanup_stream := stream r\<rparr>)"

definition commit_viz_cleanup :: "recorder \<Rightarrow> recorder" where
  "commit_viz_cleanup r =
     (case viz r of
        Some v \<Rightarrow> if viz_wanted r = Some (viz_analyser v) then r
                  else r\<lparr>viz := None, br := viz_cleanup v (br r)\<rparr>
      | None \<Rightarrow> r)"

definition commit_viz_mount :: "recorder \<Rightarrow> recorder" where
  "commit_viz_mount r =
     (case (viz r, viz_wanted r) of
        (None, Some c) \<Rightarrow> (let (v, b) = viz_mount (status r = Recording) c (br r) in r\<lparr>viz := Some v, br := b\<rparr>)
      | _ \<Rightarrow> r)"

definition commit :: "recorder \<Rightarrow> recorder" where
  "commit r = (if mounted r then commit_viz_mount (commit_viz_cleanup (commit_stream_effect r)) else r)"

text \<open>Unmounting runs every registered cleanup.\<close>

definition unmount :: "recorder \<Rightarrow> recorder" where
  "unmount r =
     (let r1 = stream_cleanup (cleanup_stream r) r;
          b = (case viz r1 of Some v \<Rightarrow> viz_cleanup v (br r1) | None \<Rightarrow> br r1)
      in r1\<lparr>mounted := False, viz := None, br := b\<rparr>)"

section \<open>Events\<close>

text \<open>
  What can happen next: a click on the enabled button, the settlement of the
  permission promise, a \<open>MediaRecorder\<close> event of the recorder in the ref, the
  \<open>FileReader\<close>'s \<open>loadend\<close>, the oldest animation frame, new microphone input, or
  the host unmounting the component, or a live microphone track ending on its
  own (the device is unplugged or the permission revoked). The component has no
  handler for the last: the browser stops every \<open>MediaRecorder\<close> of the stream,
  whose \<open>stop\<close> event then reaches \<open>onstop\<close>. An event that cannot happen in a
  state is \<open>None\<close>.
\<close>

datatype event =
    Click
  | PermissionGranted
  | PermissionDenied
  | DataAvailable blob
  | RecorderStopped
  | ReaderLoadEnd
  | AnimationFrame
  | AudioInput "byte list"
  | Unmount
  | TrackEnded stream_id

definition button_disabled :: "recorder \<Rightarrow> bool" where
  "button_disabled r = (status r = Permission \<or> status r = Processing)"

fun recorder_step :: "recorder \<Rightarrow> event \<Rightarrow> recorder option" where
  "recorder_step r Click =
     (if mounted r \<and> \<not> button_disabled r then Some (commit (handle_button_click r)) else None)"
| "recorder_step r PermissionGranted =
     (if perm_pending r then Some (commit (permission_granted r)) else None)"
| "recorder_step r PermissionDenied =
     (if perm_pending r then Some (commit (permission_denied r)) else None)"
| "recorder_step r (DataAvailable d) =
     (case media_recorder_ref r of
        Some i \<Rightarrow> if rec_delivers (br r) i then Some (commit (on_data_available d r)) else None
      | None \<Rightarrow> None)"
| "recorder_step r RecorderStopped =
     (case media_recorder_ref r of
        Some i \<Rightarrow> if rec_stop_queued (br r) i
                  then Some (commit (on_stop (r\<lparr>br := recorder_stop_fired i (br r)\<rparr>))) else None
      | None \<Rightarrow> None)"
| "recorder_step r ReaderLoadEnd =
     (if reader r \<noteq> None then Some (commit (on_load_end r)) else None)"
| "recorder_step r AnimationFrame =
     (if raf_queue (br r) \<noteq> []
      then Some (let (vo, b) = viz_animation_frame (viz r) (br r) in r\<lparr>viz := vo, br := b\<rparr>)
      else None)"
| "recorder_step r (AudioInput bins) = Some (r\<lparr>br := audio_input bins (br r)\<rparr>)"
| "recorder_step r Unmount = (if mounted r then Some (unmount r) else None)"
| "recorder_step r (TrackEnded s) =
     (if s \<in> live_tracks (br r) then Some (r\<lparr>br := stop_tracks s (br r)\<rparr>) else None)"

fun recorder_run :: "recorder \<Rightarrow> event list \<Rightarrow> recorder option" where
  "recorder_run r [] = Some r"
| "recorder_run r (e # es) = (case recorder_step r e of None \<Rightarrow> None | Some r' \<Rightarrow> recorder_run r' es)"

inductive reachable :: "recorder \<Rightarrow> bool" where
  init: "reachable (init_recorder supported)"
| step: "reachable r \<Longrightarrow> recorder_step r e = Some r' \<Longrightarrow> reachable r'"

section \<open>The recorded payload\<close>

text \<open>
  C1: when the \<open>MediaRecorder\<close> stops and the \<open>FileReader\<close> finishes, the recorder
  passes to \<open>onRecordingComplete\<close> one more string, a data URL that parses back to
  the type \<open>audio/wav\<close> and to exactly the bytes of the chunks gathered by
  \<open>ondataavailable\<close>, in order: the recording reaches the caller intact.
\<close>

theorem voice_print_roundtrip:
  "\<exists>s. completed (on_load_end (on_stop r)) = completed r @ [s] \<and>
       parse_data_uri s = Some (''audio/wav'', concat (audio_chunks_ref r))"
  by (simp add: on_load_end_def on_stop_def set_status_def audio_wav_data_url_parse Let_def)

end
