(* ===== verification/RecorderInv.thy ===== *)
theory RecorderInv
  imports Recorder
begin

text \<open>
  Invariants of the recorder state machine of Recorder.thy, proved for every state
  \<open>reachable\<close> from the initial one by rule induction: each invariant is shown
  to be preserved by every handler (through the commit phases of React that follow
  it), then by every event of \<open>recorder_step\<close>. This theory holds the
  animation-frame invariant: the queue of the browser holds exactly the frame
  armed by the mounted visualizer, so a visualizer that is unmounted leaves no
  callback behind.
\<close>

section \<open>Invariants\<close>

text \<open>The frames armed by the mounted visualizer: its \<open>animationFrameIdRef.current\<close>.\<close>

definition armed_frames :: "visualizer option \<Rightarrow> frame_id list" where
  "armed_frames vo = (case vo of Some v \<Rightarrow> (case viz_frame v of Some f \<Rightarrow> [f] | None \<Rightarrow> []) | None \<Rightarrow> [])"

definition frames_inv :: "recorder \<Rightarrow> bool" where
  "frames_inv r =
     (raf_queue (br r) = armed_frames (viz r) \<and> 0 < next_frame (br r) \<and>
      (\<forall>v. viz r = Some v \<longrightarrow> (\<exists>f. viz_frame v = Some f \<and> 0 < f)) \<and>
      (\<not> mounted r \<longrightarrow> viz r = None))"

definition keeps_frames :: "(recorder \<Rightarrow> recorder) \<Rightarrow> bool" where
  "keeps_frames h = (\<forall>r. raf_queue (br (h r)) = raf_queue (br r) \<and> next_frame (br (h r)) = next_frame (br r) \<and>
      viz (h r) = viz r \<and> mounted (h r) = mounted r)"

section \<open>Unfolding bundles and runs\<close>

lemmas handler_defs = set_status_def set_stream_def set_analyser_node_def show_toast_def
  get_mic_permission_def start_recording_def permission_granted_def permission_denied_def
  on_data_available_def on_stop_def on_load_end_def stop_recording_def handle_button_click_def stream_cleanup_def


lemmas run_unfold = commit_def handler_defs platform_simps Let_def commit_stream_effect_def
  commit_viz_cleanup_def commit_viz_mount_def viz_wanted_def ctx_closed_def viz_mount_def viz_draw_def
  viz_cleanup_def close_ctx_rejections button_disabled_def analyser_bin_count_def
  init_recorder_def init_browser_def

lemma reachable_run: "reachable r \<Longrightarrow> recorder_run r es = Some r' \<Longrightarrow> reachable r'"
proof (induction es arbitrary: r)
  case Nil
  then show ?case by simp
next
  case (Cons e es)
  then show ?case by (auto split: option.splits intro: reachable.step)
qed

section \<open>The frame invariant is preserved\<close>

lemma keeps_frames_inv: "keeps_frames h \<Longrightarrow> frames_inv r \<Longrightarrow> frames_inv (h r)"
  by (simp add: keeps_frames_def frames_inv_def)

lemma keeps_frames_start: "keeps_frames (start_recording s)"
  by (simp add: keeps_frames_def handler_defs platform_simps Let_def split: prod.splits)

lemma keeps_frames_handlers:
  "keeps_frames permission_granted" "keeps_frames permission_denied" "keeps_frames (on_data_available d)"
  "keeps_frames on_stop" "keeps_frames on_load_end" "keeps_frames handle_button_click"
  "keeps_frames (stream_cleanup so)" "keeps_frames (\<lambda>r. r\<lparr>br := recorder_stop_fired i (br r)\<rparr>)"
  "keeps_frames (\<lambda>r. r\<lparr>br := audio_input bins (br r)\<rparr>)"
  using keeps_frames_start
  by (simp_all add: keeps_frames_def handler_defs platform_simps Let_def split: prod.splits option.splits)

lemma viz_mount_frames:
  assumes "raf_queue b = []" "0 < next_frame b" "viz_mount True c b = (v, b')"
  shows "raf_queue b' = armed_frames (Some v) \<and> 0 < next_frame b' \<and> (\<exists>f. viz_frame v = Some f \<and> 0 < f)"
  using assms by (auto simp: viz_mount_def viz_draw_def armed_frames_def platform_simps Let_def)

lemma viz_cleanup_frames:
  assumes "raf_queue b = armed_frames (Some v)" "\<exists>f. viz_frame v = Some f \<and> 0 < f"
  shows "raf_queue (viz_cleanup v b) = [] \<and> next_frame (viz_cleanup v b) = next_frame b"
  using assms by (auto simp: viz_cleanup_def armed_frames_def platform_simps split: option.splits)

lemma frames_inv_commit_stream: "frames_inv r \<Longrightarrow> frames_inv (commit_stream_effect r)"
  using keeps_frames_handlers(7) by (simp add: commit_stream_effect_def keeps_frames_def frames_inv_def)

lemma frames_inv_commit_viz_cleanup:
  assumes inv: "frames_inv r"
  shows "frames_inv (commit_viz_cleanup r)"
proof (cases "viz r")
  case None
  then show ?thesis using inv by (simp add: commit_viz_cleanup_def)
next
  case (Some v)
  show ?thesis
  proof (cases "viz_wanted r = Some (viz_analyser v)")
    case True
    then show ?thesis using Some inv by (simp add: commit_viz_cleanup_def)
  next
    case False
    have "raf_queue (br r) = armed_frames (Some v)" "\<exists>f. viz_frame v = Some f \<and> 0 < f"
      using inv Some by (simp_all add: frames_inv_def)
    from viz_cleanup_frames [OF this] show ?thesis using False Some inv
      by (simp add: commit_viz_cleanup_def frames_inv_def armed_frames_def)
  qed
qed

lemma frames_inv_commit_viz_mount:
  assumes inv: "frames_inv r" and mnt: "mounted r"
  shows "frames_inv (commit_viz_mount r)"
proof (cases "viz r = None \<and> viz_wanted r \<noteq> None")
  case True
  then obtain c where c: "viz r = None" "viz_wanted r = Some c" by auto
  obtain v b' where m: "viz_mount (status r = Recording) c (br r) = (v, b')" by (cases "viz_mount (status r = Recording) c (br r)")
  have rec: "status r = Recording" using c by (simp add: viz_wanted_def split: if_splits)
  have q: "raf_queue (br r) = []" "0 < next_frame (br r)" using inv c by (simp_all add: frames_inv_def armed_frames_def)
  have eq: "commit_viz_mount r = r\<lparr>viz := Some v, br := b'\<rparr>"
    using c m by (simp add: commit_viz_mount_def)
  show ?thesis using viz_mount_frames [OF q, of c v b'] m rec inv mnt unfolding eq
    by (simp add: frames_inv_def)
next
  case False
  then have "commit_viz_mount r = r" by (auto simp: commit_viz_mount_def split: option.splits)
  then show ?thesis using inv by simp
qed

lemma mounted_commit_phases:
  "mounted (commit_stream_effect r) = mounted r" "mounted (commit_viz_cleanup r) = mounted r"
  by (simp_all add: commit_stream_effect_def stream_cleanup_def Let_def commit_viz_cleanup_def split: option.splits)

lemma frames_inv_commit: "frames_inv r \<Longrightarrow> frames_inv (commit r)"
  by (simp add: commit_def mounted_commit_phases frames_inv_commit_viz_mount frames_inv_commit_viz_cleanup frames_inv_commit_stream)

lemma frames_inv_animation_frame:
  assumes inv: "frames_inv r" and q: "raf_queue (br r) \<noteq> []"
    and eq: "viz_animation_frame (viz r) (br r) = (vo, b)"
  shows "frames_inv (r\<lparr>viz := vo, br := b\<rparr>)"
proof -
  obtain v f where v: "viz r = Some v" "viz_frame v = Some f" "raf_queue (br r) = [f]"
    using inv q by (auto simp: frames_inv_def armed_frames_def split: option.splits)
  then show ?thesis using inv eq
    by (auto simp: frames_inv_def viz_animation_frame_def viz_draw_def armed_frames_def platform_simps Let_def)
qed

lemma frames_inv_unmount: "frames_inv r \<Longrightarrow> frames_inv (unmount r)"
proof -
  assume inv: "frames_inv r"
  have "frames_inv (stream_cleanup (cleanup_stream r) r)" (is "frames_inv ?r1")
    using keeps_frames_handlers(7) inv by (rule keeps_frames_inv)
  then show ?thesis
    using viz_cleanup_frames [of "br ?r1"]
    by (auto simp: unmount_def frames_inv_def armed_frames_def Let_def split: option.splits)
qed

lemma frames_inv_step: "frames_inv r \<Longrightarrow> recorder_step r e = Some r' \<Longrightarrow> frames_inv r'"
proof (cases e)
  case (TrackEnded s)
  assume "frames_inv r" "recorder_step r e = Some r'"
  then show ?thesis using TrackEnded
    by (auto simp: frames_inv_def armed_frames_def stop_tracks_def split: if_splits)
next
  case AnimationFrame
  assume "frames_inv r" "recorder_step r e = Some r'"
  then show ?thesis using AnimationFrame frames_inv_animation_frame
    by (auto split: if_splits prod.splits)
qed (auto intro!: frames_inv_commit frames_inv_unmount keeps_frames_handlers [THEN keeps_frames_inv]
          split: if_splits option.splits)


lemma frames_inv_init: "frames_inv (init_recorder supported)"
  by (simp add: frames_inv_def init_recorder_def init_browser_def armed_frames_def)

lemma frames_inv_reachable: "reachable r \<Longrightarrow> frames_inv r"
  by (induction rule: reachable.induct) (auto intro: frames_inv_init frames_inv_step)

section \<open>No dangling animation frame\<close>

text \<open>
  C3: in every reachable state the animation-frame queue holds exactly the frame
  armed by the mounted visualizer (at most one callback, never a stale one), and
  once the recorder is unmounted the queue is empty: the visualizer's cleanup
  cancels the loop it started.
\<close>

theorem no_dangling_frame:
  assumes "reachable r"
  shows "raf_queue (br r) = armed_frames (viz r) \<and> (\<not> mounted r \<longrightarrow> raf_queue (br r) = [])"
  using frames_inv_reachable [OF assms] by (auto simp: frames_inv_def armed_frames_def)

theorem no_dangling_frame_witness:
  "case recorder_run (init_recorder True) [Click, PermissionGranted] of
     None \<Rightarrow> False | Some r \<Rightarrow> raf_queue (br r) = [1] \<and> armed_frames (viz r) = [1]"
proof -
  obtain r where run: "recorder_run (init_recorder True) [Click, PermissionGranted] = Some r"
    by (simp add: run_unfold)
  have q: "raf_queue (br r) = [1]" using run by (simp add: run_unfold) (auto simp: platform_simps)
  from no_dangling_frame [OF reachable_run [OF reachable.init run]] q run show ?thesis by simp
qed

end
