(* ===== verification/RecorderPhases.thy ===== *)
theory RecorderPhases
  imports RecorderInv
begin

text \<open>
  The phases of the mounted recorder. While the component is mounted, its state
  is determined by \<open>status\<close> up to the data: which stream, analyser, visualizer and
  \<open>MediaRecorder\<close> it holds, which browser resources are live, and which
  asynchronous work is pending (\<open>mounted_inv\<close>). The invariant is proved for every
  reachable mounted state, one lemma per event; the claims about resources, the
  audio context, the unhandled rejection and the refinement of the spec's state
  machine follow from it.
\<close>

section \<open>Definitions\<close>

text \<open>
  The invariant of the mounted recorder, by phase of \<open>status\<close>. The recorder in
  \<open>mediaRecorderRef\<close> is looked up in the browser store; a recorder has finished
  when it will deliver no more events.
\<close>

definition rec_finished :: "recorder \<Rightarrow> bool" where
  "rec_finished r = (\<forall>i. media_recorder_ref r = Some i \<longrightarrow> \<not> rec_delivers (br r) i)"

definition ref_rec :: "recorder \<Rightarrow> media_rec option" where
  "ref_rec r = Option.bind (media_recorder_ref r) (recs (br r))"

definition all_closed :: "browser \<Rightarrow> bool" where
  "all_closed b = (\<forall>c. pred_option (\<lambda>x. ctx_state x = CtxClosed) (ctxs b c))"

definition quiet :: "recorder \<Rightarrow> bool" where
  "quiet r = (viz r = None \<and> live_tracks (br r) = {} \<and> (stream r = None \<longrightarrow> analyser_node r = None))"

definition mounted_inv :: "recorder \<Rightarrow> bool" where
  "mounted_inv r =
     (cleanup_stream r = stream r \<and> all_closed (br r) \<and> pred_option (\<lambda>s. s < next_obj (br r)) (stream r) \<and>
      (case status r of
         Recording \<Rightarrow> \<not> perm_pending r \<and> reader r = None \<and>
           (\<exists>c. audio_context_ref r = Some c \<and> c \<in> dom (ctxs (br r))) \<and>
           (case stream r of
              Some s \<Rightarrow> (\<exists>m. ref_rec r = Some m \<and> mr_stream m = s \<and>
                     (mr_state m = MrRecording \<and> \<not> mr_stop_queued m \<and> live_tracks (br r) = {s} \<or>
                      mr_state m = MrInactive \<and> mr_stop_queued m \<and> live_tracks (br r) = {})) \<and>
                  analyser_node r = audio_context_ref r \<and>
                  map_option viz_analyser (viz r) = analyser_node r
            | None \<Rightarrow> quiet r \<and> (\<exists>m. ref_rec r = Some m \<and> mr_state m = MrInactive \<and> mr_stop_queued m))
       | Processing \<Rightarrow> quiet r \<and> rec_finished r \<and> \<not> perm_pending r \<and> reader r \<noteq> None
       | Permission \<Rightarrow> quiet r \<and> rec_finished r \<and> perm_pending r \<and> reader r = None
       | _ \<Rightarrow> quiet r \<and> rec_finished r \<and> \<not> perm_pending r \<and> reader r = None))"

text \<open>
  The state machine of the design (spec, section 4.4) over the recorder's five
  states, with its events: the user's start, the settlement of the permission
  request (granted, or denied or unsupported), the user's stop, the recorder's
  finalisation, the end of the encoding, and the events that leave the state
  alone (samples, frames, teardown).
\<close>

datatype spec_event =
    SpecStart | SpecUnsupported | SpecGranted | SpecDenied | SpecStop | SpecFinalize | SpecEncoded
  | SpecTick | SpecTeardown

inductive spec_step :: "recording_status \<Rightarrow> spec_event \<Rightarrow> recording_status \<Rightarrow> bool" where
  start: "s = Idle \<or> s = Finished \<Longrightarrow> spec_step s SpecStart Permission"
| unsupported: "s = Idle \<or> s = Finished \<Longrightarrow> spec_step s SpecUnsupported Idle"
| granted: "spec_step Permission SpecGranted Recording"
| denied: "spec_step Permission SpecDenied Idle"
| stop: "spec_step Recording SpecStop Recording"
| finalize: "spec_step Recording SpecFinalize Processing"
| encoded: "spec_step Processing SpecEncoded Finished"
| tick: "spec_step s SpecTick s"
| teardown: "spec_step s SpecTeardown s"

text \<open>The abstract event a step of the recorder performs.\<close>

fun abs_event :: "recorder \<Rightarrow> event \<Rightarrow> spec_event" where
  "abs_event r Click =
     (if status r = Recording then SpecStop else if media_supported r then SpecStart else SpecUnsupported)"
| "abs_event r PermissionGranted = SpecGranted"
| "abs_event r PermissionDenied = SpecDenied"
| "abs_event r RecorderStopped = SpecFinalize"
| "abs_event r ReaderLoadEnd = SpecEncoded"
| "abs_event r Unmount = SpecTeardown"
| "abs_event r (DataAvailable d) = SpecTick"
| "abs_event r AnimationFrame = SpecTick"
| "abs_event r (AudioInput bins) = SpecTick"
| "abs_event r (TrackEnded s) = SpecTick"

text \<open>Without the media API the recorder never leaves \<open>Idle\<close>.\<close>

definition unsupported_inv :: "recorder \<Rightarrow> bool" where
  "unsupported_inv r =
     (\<not> media_supported r \<longrightarrow> status r = Idle \<and> \<not> perm_pending r \<and> reader r = None \<and> media_recorder_ref r = None)"

section \<open>Lemmas on the store\<close>

lemma ref_rec_Some: "ref_rec r = Some m \<longleftrightarrow> (\<exists>i. media_recorder_ref r = Some i \<and> recs (br r) i = Some m)"
  by (cases "media_recorder_ref r") (simp_all add: ref_rec_def)

lemma all_closed_fields [simp]:
  "all_closed (b\<lparr>recs := x\<rparr>) = all_closed b" "all_closed (b\<lparr>live_tracks := y\<rparr>) = all_closed b"
  "all_closed (b\<lparr>next_obj := n\<rparr>) = all_closed b" "all_closed (b\<lparr>raf_queue := q\<rparr>) = all_closed b"
  "all_closed (b\<lparr>next_frame := f\<rparr>) = all_closed b" "all_closed (b\<lparr>rejections := k\<rparr>) = all_closed b"
  by (simp_all add: all_closed_def)

lemma all_closed_close [simp]: "all_closed b \<Longrightarrow> all_closed (close_ctx c b)"
  by (simp add: all_closed_def close_ctx_fields option.pred_map comp_def option.pred_True)

lemma audio_input_closed:
  "pred_option (\<lambda>x. ctx_state x = CtxClosed) (ctxs (audio_input bins b) c) =
   pred_option (\<lambda>x. ctx_state x = CtxClosed) (ctxs b c)"
  by (cases "ctxs b c") (auto simp: audio_input_def)

lemma all_closed_audio_input [simp]: "all_closed (audio_input bins b) = all_closed b"
  by (simp add: all_closed_def audio_input_closed)

lemma audio_input_fields [simp]:
  "live_tracks (audio_input bins b) = live_tracks b" "recs (audio_input bins b) = recs b"
  "raf_queue (audio_input bins b) = raf_queue b" "next_frame (audio_input bins b) = next_frame b"
  "next_obj (audio_input bins b) = next_obj b"
  by (simp_all add: audio_input_def)

text \<open>
  The unfolding of a handler and its commit for the invariant proofs;
  \<open>all_closed\<close> stays folded and is carried by the two lemmas above.
\<close>

lemma viz_cleanup_fields [simp]:
  "live_tracks (viz_cleanup v b) = live_tracks b" "recs (viz_cleanup v b) = recs b"
  "ctxs (viz_cleanup v b) = ctxs b" "next_obj (viz_cleanup v b) = next_obj b"
  "all_closed (viz_cleanup v b) = all_closed b"
  by (simp_all add: viz_cleanup_def cancel_animation_frame_def split: option.splits)

lemma dom_map_option_upd [simp]: "dom (m(c := map_option f (m c))) = dom m"
  by auto

lemma dom_audio_input [simp]: "dom (ctxs (audio_input bins b)) = dom (ctxs b)"
  by (auto simp: audio_input_def)

lemmas recorder_unfold = commit_def handler_defs platform_simps Let_def
       commit_stream_effect_def commit_viz_cleanup_def commit_viz_mount_def viz_wanted_def quiet_def
       ctx_closed_def viz_mount_def viz_draw_def viz_cleanup_def mounted_inv_def ref_rec_Some
       rec_finished_def rec_delivers_iff rec_stop_queued_iff end_recording_def close_ctx_rejections

section \<open>The mounted invariant, event by event\<close>

lemma mounted_inv_view:
  assumes "status r' = status r" "stream r' = stream r" "analyser_node r' = analyser_node r"
    "audio_context_ref r' = audio_context_ref r" "cleanup_stream r' = cleanup_stream r"
    "perm_pending r' = perm_pending r" "reader r' = reader r" "media_recorder_ref r' = media_recorder_ref r"
    "map_option viz_analyser (viz r') = map_option viz_analyser (viz r)"
    "live_tracks (br r') = live_tracks (br r)" "recs (br r') = recs (br r)" "all_closed (br r') = all_closed (br r)"
    "dom (ctxs (br r')) = dom (ctxs (br r))" "next_obj (br r') = next_obj (br r)"
  shows "mounted_inv r' = mounted_inv r"
proof -
  have "viz r' = None \<longleftrightarrow> viz r = None" using assms(9) by (metis option.map_disc_iff)
  then show ?thesis using assms
    by (cases "status r"; cases "stream r")
       (simp_all add: mounted_inv_def quiet_def ref_rec_def rec_finished_def rec_delivers_def)
qed

lemma commit_stable: "mounted r \<Longrightarrow> mounted_inv r \<Longrightarrow> commit r = r"
  by (cases "status r"; cases "stream r"; cases "viz r")
     (auto simp: commit_def commit_stream_effect_def commit_viz_cleanup_def commit_viz_mount_def
                 viz_wanted_def mounted_inv_def quiet_def)

lemma mounted_handle_button_click [simp]: "mounted (handle_button_click r) = mounted r"
  by (simp add: handle_button_click_def get_mic_permission_def stop_recording_def set_status_def show_toast_def
                set_stream_def set_analyser_node_def Let_def)

lemma mi_click_idle:
  assumes "mounted r" "mounted_inv r" "status r = Idle \<or> status r = Finished"
  shows "mounted_inv (commit (handle_button_click r))"
proof -
  have "mounted_inv (handle_button_click r)" using assms
    by (auto simp: handle_button_click_def get_mic_permission_def set_status_def show_toast_def
                   mounted_inv_def quiet_def rec_finished_def ref_rec_def)
  with assms(1) show ?thesis by (simp add: commit_stable)
qed

lemma mi_denied:
  assumes "mounted r" "mounted_inv r" "perm_pending r"
  shows "mounted_inv (commit (permission_denied r))"
proof -
  have "mounted_inv (permission_denied r)" using assms
    by (auto simp: permission_denied_def set_status_def show_toast_def mounted_inv_def quiet_def
                   rec_finished_def ref_rec_def split: recording_status.splits option.splits)
  moreover have "mounted (permission_denied r)" using assms(1)
    by (simp add: permission_denied_def set_status_def show_toast_def)
  ultimately show ?thesis by (simp add: commit_stable)
qed

lemma mi_data:
  assumes "mounted r" "mounted_inv r"
  shows "mounted_inv (commit (on_data_available d r))"
proof -
  have "mounted_inv (on_data_available d r) = mounted_inv r"
    by (rule mounted_inv_view) (simp_all add: on_data_available_def)
  moreover have "mounted (on_data_available d r)" using assms(1) by (simp add: on_data_available_def)
  ultimately show ?thesis using assms(2) by (simp add: commit_stable)
qed

lemma mi_phase_stop_queued:
  assumes "mounted_inv r" "media_recorder_ref r = Some i" "rec_stop_queued (br r) i"
  obtains m where "recs (br r) i = Some m" "mr_state m = MrInactive" "mr_stop_queued m"
    "status r = Recording" "live_tracks (br r) = {}" "cleanup_stream r = stream r" "all_closed (br r)"
    "\<not> perm_pending r" "reader r = None" "pred_option (\<lambda>s. s < next_obj (br r)) (stream r)"
    "stream r = None \<Longrightarrow> quiet r"
    "\<And>s. stream r = Some s \<Longrightarrow> analyser_node r = audio_context_ref r \<and>
            map_option viz_analyser (viz r) = analyser_node r"
  using assms
  by (cases "status r"; cases "stream r")
     (auto simp: mounted_inv_def rec_stop_queued_iff ref_rec_Some rec_finished_def rec_delivers_iff quiet_def)

lemma mi_stopped:
  assumes "mounted r" "mounted_inv r" "media_recorder_ref r = Some i" "rec_stop_queued (br r) i"
  shows "mounted_inv (commit (on_stop (r\<lparr>br := recorder_stop_fired i (br r)\<rparr>)))"
proof -
  obtain m where st: "recs (br r) i = Some m" "mr_state m = MrInactive" "mr_stop_queued m"
    "status r = Recording" "live_tracks (br r) = {}" "cleanup_stream r = stream r" "all_closed (br r)"
    "\<not> perm_pending r" "reader r = None" "pred_option (\<lambda>s. s < next_obj (br r)) (stream r)"
    "stream r = None \<Longrightarrow> quiet r"
    "\<And>s. stream r = Some s \<Longrightarrow> analyser_node r = audio_context_ref r \<and>
            map_option viz_analyser (viz r) = analyser_node r"
    using mi_phase_stop_queued [OF assms(2-4)] by blast
  show ?thesis
  proof (cases "stream r")
    case None
    then have "quiet r" using st(11) by blast
    then have "mounted_inv (on_stop (r\<lparr>br := recorder_stop_fired i (br r)\<rparr>))"
      using st None assms(1,3)
      by (simp add: on_stop_def set_status_def Let_def mounted_inv_def quiet_def rec_finished_def
                    rec_delivers_iff recorder_stop_fired_def)
    moreover have "mounted (on_stop (r\<lparr>br := recorder_stop_fired i (br r)\<rparr>))"
      using assms(1) by (simp add: on_stop_def set_status_def Let_def)
    ultimately show ?thesis by (simp add: commit_stable)
  next
    case (Some s)
    define r1 where "r1 = on_stop (r\<lparr>br := recorder_stop_fired i (br r)\<rparr>)"
    have r1: "status r1 = Processing" "stream r1 = Some s" "cleanup_stream r1 = Some s" "mounted r1"
      "viz r1 = viz r" "br r1 = recorder_stop_fired i (br r)" "perm_pending r1 = perm_pending r"
      "media_recorder_ref r1 = Some i" "reader r1 \<noteq> None"
      using Some st(6) assms(1,3) by (simp_all add: r1_def on_stop_def set_status_def Let_def)
    have c: "commit r1 = (case viz r1 of None \<Rightarrow> r1 | Some v \<Rightarrow> r1\<lparr>viz := None, br := viz_cleanup v (br r1)\<rparr>)"
      using r1(1-4) by (simp add: commit_def commit_stream_effect_def commit_viz_cleanup_def commit_viz_mount_def
                                  viz_wanted_def split: option.splits)
    have "mounted_inv (commit r1)"
      using st Some r1 unfolding c
      by (simp add: mounted_inv_def quiet_def rec_finished_def rec_delivers_iff recorder_stop_fired_def
               split: option.splits)
    then show ?thesis by (simp add: r1_def)
  qed
qed

lemma mi_load_end:
  assumes "mounted r" "mounted_inv r" "reader r \<noteq> None"
  shows "mounted_inv (commit (on_load_end r))"
proof -
  have ph: "status r = Processing" "quiet r" "rec_finished r" "\<not> perm_pending r"
    "cleanup_stream r = stream r" "all_closed (br r)" "pred_option (\<lambda>s. s < next_obj (br r)) (stream r)"
    using assms(2,3) by (cases "status r"; cases "stream r"; simp add: mounted_inv_def)+
  have "mounted_inv (on_load_end r)"
    using ph assms(1,3)
    by (auto simp: on_load_end_def set_status_def mounted_inv_def quiet_def rec_finished_def ref_rec_def)
  moreover have "mounted (on_load_end r)"
    using assms(1) by (auto simp: on_load_end_def set_status_def split: option.splits)
  ultimately show ?thesis by (simp add: commit_stable)
qed

lemma viz_animation_frame_view:
  assumes "viz_animation_frame vo b = (vo', b')"
  shows "map_option viz_analyser vo' = map_option viz_analyser vo" "live_tracks b' = live_tracks b"
    "recs b' = recs b" "ctxs b' = ctxs b" "next_obj b' = next_obj b"
  using assms
  by (auto simp: viz_animation_frame_def viz_draw_def platform_simps Let_def
           split: list.splits option.splits if_splits prod.splits)

lemma all_closed_ctxs_eq: "ctxs b' = ctxs b \<Longrightarrow> all_closed b' = all_closed b"
  by (simp add: all_closed_def)

lemma mi_animation_frame:
  assumes "mounted_inv r" and "viz_animation_frame (viz r) (br r) = (vo, b)"
  shows "mounted_inv (r\<lparr>viz := vo, br := b\<rparr>)"
proof -
  note v = viz_animation_frame_view [OF assms(2)]
  have "mounted_inv (r\<lparr>viz := vo, br := b\<rparr>) = mounted_inv r"
    by (rule mounted_inv_view) (simp_all add: v all_closed_ctxs_eq [OF v(4)])
  with assms(1) show ?thesis by simp
qed

lemma mi_audio_input:
  assumes "mounted_inv r"
  shows "mounted_inv (r\<lparr>br := audio_input bins (br r)\<rparr>)"
proof -
  have "mounted_inv (r\<lparr>br := audio_input bins (br r)\<rparr>) = mounted_inv r"
    by (rule mounted_inv_view) simp_all
  with assms show ?thesis by simp
qed

lemma mi_grant:
  assumes "mounted r" "mounted_inv r" "perm_pending r"
  shows "mounted_inv (commit (permission_granted r))"
proof -
  have st: "status r = Permission" "quiet r" "rec_finished r" "reader r = None"
    "cleanup_stream r = stream r" "all_closed (br r)" "pred_option (\<lambda>s. s < next_obj (br r)) (stream r)"
    using assms(2,3) by (cases "status r"; simp add: mounted_inv_def)+
  show ?thesis
  proof (cases "stream r")
    case None
    then show ?thesis using st assms(1) by (simp add: recorder_unfold all_closed_def)
  next
    case (Some s0)
    then have n: "s0 \<noteq> next_obj (br r)" "s0 \<noteq> Suc (next_obj (br r))" "s0 \<noteq> Suc (Suc (next_obj (br r)))"
      using st(7) by simp_all
    show ?thesis using st Some n assms(1) by (simp add: recorder_unfold all_closed_def)
  qed
qed

lemma mi_track_ended:
  assumes "mounted_inv r" "t \<in> live_tracks (br r)"
  shows "mounted_inv (r\<lparr>br := stop_tracks t (br r)\<rparr>)"
proof -
  obtain m i where st: "status r = Recording" "stream r = Some t" "media_recorder_ref r = Some i"
    "recs (br r) i = Some m" "mr_stream m = t" "mr_state m = MrRecording" "\<not> mr_stop_queued m"
    "live_tracks (br r) = {t}"
    using assms by (cases "status r"; cases "stream r") (auto simp: mounted_inv_def quiet_def ref_rec_Some)
  then show ?thesis using assms(1)
    by (auto simp: mounted_inv_def ref_rec_Some stop_tracks_def end_recording_def)
qed

lemma recording_live_facts:
  assumes "mounted_inv r" "frames_inv r" "status r = Recording" "stream r = Some s"
  obtains m v i c y f where "media_recorder_ref r = Some i" "recs (br r) i = Some m" "mr_stream m = s"
    "mr_state m = MrRecording \<and> \<not> mr_stop_queued m \<and> live_tracks (br r) = {s} \<or>
     mr_state m = MrInactive \<and> mr_stop_queued m \<and> live_tracks (br r) = {}"
    "analyser_node r = Some c" "audio_context_ref r = Some c" "ctxs (br r) c = Some y" "viz r = Some v"
    "viz_analyser v = c" "cleanup_stream r = Some s" "all_closed (br r)" "\<not> perm_pending r" "reader r = None"
    "viz_frame v = Some f" "f \<noteq> 0" "raf_queue (br r) = [f]" "s < next_obj (br r)"
proof -
  have inv: "\<exists>m. ref_rec r = Some m \<and> mr_stream m = s \<and>
      (mr_state m = MrRecording \<and> \<not> mr_stop_queued m \<and> live_tracks (br r) = {s} \<or>
       mr_state m = MrInactive \<and> mr_stop_queued m \<and> live_tracks (br r) = {})"
    "analyser_node r = audio_context_ref r" "map_option viz_analyser (viz r) = analyser_node r"
    "\<exists>c. audio_context_ref r = Some c \<and> c \<in> dom (ctxs (br r))"
    "cleanup_stream r = Some s" "all_closed (br r)" "\<not> perm_pending r" "reader r = None" "s < next_obj (br r)"
    using assms(1,3,4) by (simp_all add: mounted_inv_def)
  obtain m i where mi: "media_recorder_ref r = Some i" "recs (br r) i = Some m" "mr_stream m = s"
    "mr_state m = MrRecording \<and> \<not> mr_stop_queued m \<and> live_tracks (br r) = {s} \<or>
     mr_state m = MrInactive \<and> mr_stop_queued m \<and> live_tracks (br r) = {}"
    using inv(1) unfolding ref_rec_Some by blast
  obtain c y where c: "audio_context_ref r = Some c" "ctxs (br r) c = Some y" using inv(4) by blast
  obtain v where v: "viz r = Some v" "viz_analyser v = c" using inv(2,3) c(1) by (cases "viz r") auto
  obtain f where f: "viz_frame v = Some f" "f \<noteq> 0" "raf_queue (br r) = [f]"
    using assms(2) v by (auto simp: frames_inv_def armed_frames_def)
  show ?thesis using that [OF mi c(1)[folded inv(2)] c v inv(5-8) f inv(9)] .
qed

lemma mi_click_rec_some:
  assumes "mounted r" "mounted_inv r" "frames_inv r" "status r = Recording" "stream r = Some s"
  shows "mounted_inv (commit (handle_button_click r))"
proof -
  obtain m v i c y f where st: "media_recorder_ref r = Some i" "recs (br r) i = Some m" "mr_stream m = s"
    "mr_state m = MrRecording \<and> \<not> mr_stop_queued m \<and> live_tracks (br r) = {s} \<or>
     mr_state m = MrInactive \<and> mr_stop_queued m \<and> live_tracks (br r) = {}"
    "analyser_node r = Some c" "audio_context_ref r = Some c" "ctxs (br r) c = Some y" "viz r = Some v"
    "viz_analyser v = c" "cleanup_stream r = Some s" "all_closed (br r)" "\<not> perm_pending r" "reader r = None"
    "viz_frame v = Some f" "f \<noteq> 0" "raf_queue (br r) = [f]" "s < next_obj (br r)"
    by (rule recording_live_facts [OF assms(2-5)])
  from st(4) show ?thesis
  proof
    assume "mr_state m = MrRecording \<and> \<not> mr_stop_queued m \<and> live_tracks (br r) = {s}"
    then show ?thesis using st assms(1,4,5) by (simp add: recorder_unfold)
  next
    assume "mr_state m = MrInactive \<and> mr_stop_queued m \<and> live_tracks (br r) = {}"
    then show ?thesis using st assms(1,4,5) by (simp add: recorder_unfold)
  qed
qed

lemma mi_click_rec_none:
  assumes "mounted r" "mounted_inv r" "status r = Recording" "stream r = None"
  shows "mounted_inv (commit (handle_button_click r))"
proof -
  obtain m i c y where st: "media_recorder_ref r = Some i" "recs (br r) i = Some m" "mr_state m = MrInactive"
    "mr_stop_queued m" "live_tracks (br r) = {}" "analyser_node r = None"
    "viz r = None" "cleanup_stream r = None" "all_closed (br r)" "audio_context_ref r = Some c"
    "ctxs (br r) c = Some y" "\<not> perm_pending r" "reader r = None"
    using assms by (auto simp: mounted_inv_def ref_rec_Some quiet_def split: option.splits)
  then show ?thesis using assms(1,3,4) by (simp add: recorder_unfold)
qed

lemma mi_click:
  assumes "mounted r" "mounted_inv r" "frames_inv r" "\<not> button_disabled r"
  shows "mounted_inv (commit (handle_button_click r))"
proof (cases "status r")
  case Recording
  then show ?thesis using assms mi_click_rec_some mi_click_rec_none by (cases "stream r") auto
qed (use assms mi_click_idle in \<open>auto simp: button_disabled_def\<close>)

lemma mounted_commit [simp]: "mounted (commit r) = mounted r"
  by (auto simp: commit_def mounted_commit_phases commit_viz_mount_def split: option.splits prod.splits)

lemma mounted_handlers [simp]:
  "mounted (permission_granted r) = mounted r" "mounted (permission_denied r) = mounted r"
  "mounted (on_data_available d r) = mounted r" "mounted (on_stop r) = mounted r"
  "mounted (on_load_end r) = mounted r"
  by (simp_all add: handler_defs Let_def split: prod.splits option.splits)

lemma mounted_step: "recorder_step r e = Some r' \<Longrightarrow> mounted r' \<Longrightarrow> mounted r"
  by (cases e) (auto simp: commit_def unmount_def Let_def split: if_splits option.splits prod.splits)

lemma mi_step:
  assumes "mounted_inv r" "frames_inv r" "recorder_step r e = Some r'" "mounted r'"
  shows "mounted_inv r'"
proof -
  have m: "mounted r" using mounted_step [OF assms(3,4)] .
  show ?thesis
  proof (cases e)
    case Click
    then show ?thesis using assms m mi_click by (auto split: if_splits)
  next
    case PermissionGranted
    then show ?thesis using assms m mi_grant by (auto split: if_splits)
  next
    case PermissionDenied
    then show ?thesis using assms m mi_denied by (auto split: if_splits)
  next
    case (DataAvailable d)
    then show ?thesis using assms m mi_data by (auto split: if_splits option.splits)
  next
    case RecorderStopped
    then show ?thesis using assms m mi_stopped by (auto split: if_splits option.splits)
  next
    case ReaderLoadEnd
    then show ?thesis using assms m mi_load_end by (auto split: if_splits)
  next
    case AnimationFrame
    then show ?thesis using assms mi_animation_frame by (auto split: if_splits prod.splits)
  next
    case (AudioInput bins)
    then show ?thesis using assms mi_audio_input by auto
  next
    case Unmount
    then show ?thesis using assms by (auto simp: unmount_def Let_def split: if_splits)
  next
    case (TrackEnded t)
    then show ?thesis using assms mi_track_ended by (auto split: if_splits)
  qed
qed

lemma mounted_inv_init: "mounted_inv (init_recorder supported)"
  by (simp add: mounted_inv_def init_recorder_def init_browser_def quiet_def rec_finished_def all_closed_def)

lemma mounted_inv_reachable: "reachable r \<Longrightarrow> mounted r \<longrightarrow> mounted_inv r"
proof (induction rule: reachable.induct)
  case (init supported)
  then show ?case by (simp add: mounted_inv_init)
next
  case (step r e r')
  then show ?case using mi_step frames_inv_reachable mounted_step by blast
qed

lemma all_closed_state: "all_closed b \<Longrightarrow> ctxs b c = Some x \<Longrightarrow> ctx_state x = CtxClosed"
  by (simp add: all_closed_def) (metis option.pred_inject(2))

lemma commit_stream_effect_keeps [simp]:
  "status (commit_stream_effect r) = status r"
  "perm_pending (commit_stream_effect r) = perm_pending r"
  "reader (commit_stream_effect r) = reader r"
  "media_recorder_ref (commit_stream_effect r) = media_recorder_ref r"
  "media_supported (commit_stream_effect r) = media_supported r"
  "toasts (commit_stream_effect r) = toasts r"
  "completed (commit_stream_effect r) = completed r"
  "audio_chunks_ref (commit_stream_effect r) = audio_chunks_ref r"
  "stream (commit_stream_effect r) = stream r"
  by (simp_all add: commit_stream_effect_def stream_cleanup_def Let_def)

lemma commit_viz_cleanup_keeps [simp]:
  "status (commit_viz_cleanup r) = status r"
  "perm_pending (commit_viz_cleanup r) = perm_pending r"
  "reader (commit_viz_cleanup r) = reader r"
  "media_recorder_ref (commit_viz_cleanup r) = media_recorder_ref r"
  "media_supported (commit_viz_cleanup r) = media_supported r"
  "toasts (commit_viz_cleanup r) = toasts r"
  "completed (commit_viz_cleanup r) = completed r"
  "audio_chunks_ref (commit_viz_cleanup r) = audio_chunks_ref r"
  "stream (commit_viz_cleanup r) = stream r"
  by (simp_all add: commit_viz_cleanup_def split: option.splits)

lemma commit_viz_mount_keeps [simp]:
  "status (commit_viz_mount r) = status r"
  "perm_pending (commit_viz_mount r) = perm_pending r"
  "reader (commit_viz_mount r) = reader r"
  "media_recorder_ref (commit_viz_mount r) = media_recorder_ref r"
  "media_supported (commit_viz_mount r) = media_supported r"
  "toasts (commit_viz_mount r) = toasts r"
  "completed (commit_viz_mount r) = completed r"
  "audio_chunks_ref (commit_viz_mount r) = audio_chunks_ref r"
  "stream (commit_viz_mount r) = stream r"
  by (simp_all add: commit_viz_mount_def split: option.splits prod.splits)

lemma commit_keeps [simp]:
  "status (commit r) = status r"
  "perm_pending (commit r) = perm_pending r"
  "reader (commit r) = reader r"
  "media_recorder_ref (commit r) = media_recorder_ref r"
  "media_supported (commit r) = media_supported r"
  "toasts (commit r) = toasts r"
  "completed (commit r) = completed r"
  "audio_chunks_ref (commit r) = audio_chunks_ref r"
  "stream (commit r) = stream r"
  by (simp_all add: commit_def)

lemma unmount_keeps [simp]:
  "status (unmount r) = status r" "perm_pending (unmount r) = perm_pending r" "reader (unmount r) = reader r"
  "media_recorder_ref (unmount r) = media_recorder_ref r" "media_supported (unmount r) = media_supported r"
  "toasts (unmount r) = toasts r" "completed (unmount r) = completed r"
  "audio_chunks_ref (unmount r) = audio_chunks_ref r" "mounted (unmount r) = False" "stream (unmount r) = stream r"
  by (simp_all add: unmount_def stream_cleanup_def Let_def)

lemma handlers_keep_supported [simp]:
  "media_supported (handle_button_click r) = media_supported r"
  "media_supported (permission_granted r) = media_supported r"
  "media_supported (permission_denied r) = media_supported r"
  "media_supported (on_data_available d r) = media_supported r"
  "media_supported (on_stop r) = media_supported r" "media_supported (on_load_end r) = media_supported r"
  by (simp_all add: handler_defs Let_def split: prod.splits option.splits)

lemma unmounted_handlers_status:
  "\<not> mounted r \<Longrightarrow> status (handle_button_click r) = status r"
  "\<not> mounted r \<Longrightarrow> status (permission_granted r) = status r"
  "\<not> mounted r \<Longrightarrow> status (permission_denied r) = status r"
  "\<not> mounted r \<Longrightarrow> status (on_data_available d r) = status r"
  "\<not> mounted r \<Longrightarrow> status (on_stop r) = status r"
  "\<not> mounted r \<Longrightarrow> status (on_load_end r) = status r"
  by (simp_all add: handler_defs Let_def split: prod.splits option.splits)

lemma unmounted_status:
  assumes "\<not> mounted r" "recorder_step r e = Some r'"
  shows "status r' = status r"
  using assms
  by (cases e) (auto simp: unmounted_handlers_status split: if_splits option.splits prod.splits)

lemma media_supported_step: "recorder_step r e = Some r' \<Longrightarrow> media_supported r' = media_supported r"
  by (cases e) (auto split: if_splits option.splits prod.splits)

lemma unsupported_click:
  "\<not> media_supported r \<Longrightarrow> status r = Idle \<Longrightarrow> handle_button_click r = show_toast ToastMediaUnsupported r"
  by (simp add: handle_button_click_def get_mic_permission_def)

lemma unsupported_inv_step:
  assumes "unsupported_inv r" "recorder_step r e = Some r'"
  shows "unsupported_inv r'"
proof (cases "media_supported r")
  case True
  then show ?thesis using media_supported_step [OF assms(2)] by (simp add: unsupported_inv_def)
next
  case False
  then have st: "status r = Idle" "\<not> perm_pending r" "reader r = None" "media_recorder_ref r = None"
    using assms(1) by (simp_all add: unsupported_inv_def)
  show ?thesis
  proof (cases e)
    case Click
    then show ?thesis using assms(2) st False
      by (auto simp: unsupported_inv_def unsupported_click show_toast_def split: if_splits)
  next
    case AnimationFrame
    then show ?thesis using assms(2) st False by (auto simp: unsupported_inv_def split: if_splits prod.splits)
  qed (use assms(2) st False in \<open>auto simp: unsupported_inv_def split: if_splits\<close>)
qed

lemma unsupported_inv_reachable: "reachable r \<Longrightarrow> unsupported_inv r"
proof (induction rule: reachable.induct)
  case (init supported)
  then show ?case by (simp add: unsupported_inv_def init_recorder_def)
next
  case (step r e r')
  then show ?case using unsupported_inv_step by blast
qed

lemma mounted_inv_of: "reachable r \<Longrightarrow> mounted r \<Longrightarrow> mounted_inv r"
  using mounted_inv_reachable by blast

lemma status_mounted_handlers:
  "mounted r \<Longrightarrow> status (permission_granted r) = Recording"
  "mounted r \<Longrightarrow> status (permission_denied r) = Idle"
  "mounted r \<Longrightarrow> status (on_stop r) = Processing"
  "mounted r \<Longrightarrow> reader r \<noteq> None \<Longrightarrow> status (on_load_end r) = Finished"
  "status (on_data_available d r) = status r"
  "status r = Recording \<Longrightarrow> status (handle_button_click r) = Recording"
  "mounted r \<Longrightarrow> media_supported r \<Longrightarrow> status r = Idle \<or> status r = Finished \<Longrightarrow>
     status (handle_button_click r) = Permission"
  "\<not> media_supported r \<Longrightarrow> status (handle_button_click r) = status r"
  by (auto simp: handler_defs Let_def split: prod.splits option.splits)

lemma run_start:
  "recorder_run (init_recorder True) [Click, PermissionGranted] = Some r \<Longrightarrow>
   mounted r \<and> status r = Recording \<and> stream r = Some 0 \<and> analyser_node r = Some 1 \<and>
   (\<exists>x. ctxs (br r) 1 = Some x)"
  by (simp add: run_unfold) (auto simp: platform_simps)

lemma run_stop:
  "recorder_run (init_recorder True) [Click, PermissionGranted, Click] = Some r \<Longrightarrow>
   mounted r \<and> status r = Recording \<and> stream r = None"
  by (simp add: run_unfold) (auto simp: platform_simps)

section \<open>Resources, the audio context and the state machine\<close>

lemma run_track_ended:
  "recorder_run (init_recorder True) [Click, PermissionGranted, TrackEnded 0, RecorderStopped] = Some r \<Longrightarrow>
   mounted r \<and> status r = Processing \<and> stream r = Some 0"
  by (simp add: run_unfold stop_tracks_def rec_stop_queued_def recorder_stop_fired_def end_recording_def)
     (auto simp: on_stop_def set_status_def Let_def)

text \<open>
  C4: while mounted, the recorder holds a live microphone track only while it
  records, and only the tracks of its own stream: outside \<open>Recording\<close>, and in
  \<open>Recording\<close> after Stop, no track is live, no visualizer is mounted and no
  animation frame is queued. The stream itself may outlive its tracks: when a
  track ends on its own (the device is removed), the recorder finalises and
  keeps the ended stream in its state.
\<close>

theorem resources_released:
  assumes "reachable r" and "mounted r"
  shows "(status r \<noteq> Recording \<longrightarrow> live_tracks (br r) = {} \<and> viz r = None \<and> raf_queue (br r) = []) \<and>
         (stream r = None \<longrightarrow> live_tracks (br r) = {} \<and> viz r = None \<and> raf_queue (br r) = []) \<and>
         (\<forall>s. stream r = Some s \<longrightarrow> live_tracks (br r) \<subseteq> {s})"
proof -
  have mi: "mounted_inv r" using mounted_inv_of [OF assms] .
  have fr: "frames_inv r" using frames_inv_reachable [OF assms(1)] .
  show ?thesis using mi fr
    by (cases "status r"; cases "stream r")
       (auto simp: mounted_inv_def quiet_def frames_inv_def armed_frames_def)
qed

theorem resources_released_witness:
  "case recorder_run (init_recorder True) [Click, PermissionGranted, TrackEnded 0, RecorderStopped] of
     None \<Rightarrow> False
   | Some r \<Rightarrow> status r = Processing \<and> stream r = Some 0 \<and> live_tracks (br r) = {} \<and> viz r = None \<and>
               raf_queue (br r) = []"
proof -
  obtain r where run: "recorder_run (init_recorder True) [Click, PermissionGranted, TrackEnded 0, RecorderStopped] = Some r"
    by (simp add: run_unfold stop_tracks_def rec_stop_queued_def on_stop_def recorder_stop_fired_def)
       (auto simp: platform_simps end_recording_def)
  note st = run_track_ended [OF run]
  from resources_released [OF reachable_run [OF reachable.init run]] st run show ?thesis by simp
qed

text \<open>
  C9: the \<open>[stream]\<close> effect's cleanup closes the recorder's own audio context:
  in every mounted state every audio context the recorder created is closed,
  also while it records. When recording starts, the cleanup registered for the
  previous value of \<open>stream\<close> (\<open>null\<close>) runs after the render and reads
  \<open>audioContextRef.current\<close>, which already holds the new context. So the
  analyser the visualizer samples never receives microphone input.
\<close>

theorem audio_contexts_closed:
  assumes "reachable r" and "mounted r" and "ctxs (br r) c = Some x"
  shows "ctx_state x = CtxClosed"
  using mounted_inv_of [OF assms(1,2)] assms(3) by (auto simp: mounted_inv_def intro: all_closed_state)

theorem audio_contexts_closed_witness:
  "case recorder_run (init_recorder True) [Click, PermissionGranted] of
     None \<Rightarrow> False
   | Some r \<Rightarrow> status r = Recording \<and> analyser_node r = Some 1 \<and>
               (\<exists>x. ctxs (br r) 1 = Some x \<and> ctx_state x = CtxClosed)"
proof -
  obtain r where run: "recorder_run (init_recorder True) [Click, PermissionGranted] = Some r"
    by (simp add: run_unfold)
  note st = run_start [OF run]
  then obtain x where x: "ctxs (br r) 1 = Some x" by blast
  from audio_contexts_closed [OF reachable_run [OF reachable.init run] _ x] st x run show ?thesis by simp
qed

lemma stop_click_step:
  assumes "reachable r" and "mounted r" and "status r = Recording" and "stream r = Some s"
  shows "recorder_step r Click = Some (commit (handle_button_click r)) \<and>
         rejections (br (commit (handle_button_click r))) = Suc (rejections (br r)) \<and>
         status (commit (handle_button_click r)) = Recording \<and> stream (commit (handle_button_click r)) = None \<and>
         live_tracks (br (commit (handle_button_click r))) = {} \<and> mounted (commit (handle_button_click r)) \<and>
         audio_chunks_ref (commit (handle_button_click r)) = audio_chunks_ref r \<and>
         completed (commit (handle_button_click r)) = completed r"
proof -
  have mi: "mounted_inv r" using mounted_inv_of [OF assms(1,2)] .
  obtain m v i c y f where st: "media_recorder_ref r = Some i" "recs (br r) i = Some m" "mr_stream m = s"
    "mr_state m = MrRecording \<and> \<not> mr_stop_queued m \<and> live_tracks (br r) = {s} \<or>
     mr_state m = MrInactive \<and> mr_stop_queued m \<and> live_tracks (br r) = {}"
    "analyser_node r = Some c" "audio_context_ref r = Some c" "ctxs (br r) c = Some y" "viz r = Some v"
    "viz_analyser v = c" "cleanup_stream r = Some s" "all_closed (br r)" "\<not> perm_pending r" "reader r = None"
    "viz_frame v = Some f" "f \<noteq> 0" "raf_queue (br r) = [f]" "s < next_obj (br r)"
    by (rule recording_live_facts [OF mi frames_inv_reachable [OF assms(1)] assms(3,4)])
  have closed: "ctx_state y = CtxClosed" using all_closed_state [OF st(11,7)] .
  have "rejections (br (commit (handle_button_click r))) = Suc (rejections (br r)) \<and>
        stream (commit (handle_button_click r)) = None \<and> live_tracks (br (commit (handle_button_click r))) = {}"
    using st(4)
  proof
    assume "mr_state m = MrRecording \<and> \<not> mr_stop_queued m \<and> live_tracks (br r) = {s}"
    then show ?thesis using st closed assms(2-4) by (simp add: recorder_unfold close_ctx_rejections ctx_closed_def)
  next
    assume "mr_state m = MrInactive \<and> mr_stop_queued m \<and> live_tracks (br r) = {}"
    then show ?thesis using st closed assms(2-4) by (simp add: recorder_unfold close_ctx_rejections ctx_closed_def)
  qed
  moreover have "audio_chunks_ref (handle_button_click r) = audio_chunks_ref r"
    "completed (handle_button_click r) = completed r"
    using assms(3) by (simp_all add: handle_button_click_def stop_recording_def handler_defs Let_def)
  ultimately show ?thesis using assms(2,3) by (simp add: button_disabled_def status_mounted_handlers)
qed

text \<open>
  C10: a click on Stop while recording rejects a promise nobody handles:
  \<open>stopRecording\<close> calls \<open>close()\<close> on the audio context in the ref, which the
  \<open>[stream]\<close> effect's cleanup already closed when recording started. The stop
  itself succeeds: the status stays \<open>Recording\<close> until the recorder's \<open>stop\<close>
  event, the stream is released and no track stays live.
\<close>

theorem stop_click_rejects:
  assumes "reachable r" and "mounted r" and "status r = Recording" and "stream r = Some s"
  shows "\<exists>r'. recorder_step r Click = Some r' \<and> rejections (br r') = Suc (rejections (br r)) \<and>
              status r' = Recording \<and> stream r' = None \<and> live_tracks (br r') = {}"
  using stop_click_step [OF assms] by blast

theorem stop_click_rejects_witness:
  "case recorder_run (init_recorder True) [Click, PermissionGranted] of
     None \<Rightarrow> False
   | Some r \<Rightarrow> (\<exists>r'. recorder_step r Click = Some r' \<and> rejections (br r') = Suc (rejections (br r)) \<and>
                     status r' = Recording \<and> stream r' = None \<and> live_tracks (br r') = {})"
proof -
  obtain r where run: "recorder_run (init_recorder True) [Click, PermissionGranted] = Some r"
    by (simp add: run_unfold)
  note st = run_start [OF run]
  from stop_click_rejects [OF reachable_run [OF reachable.init run]] st run show ?thesis by simp
qed

lemma mounted_inv_pending_status:
  "mounted_inv r \<Longrightarrow> perm_pending r \<Longrightarrow> status r = Permission"
  "mounted_inv r \<Longrightarrow> reader r \<noteq> None \<Longrightarrow> status r = Processing"
  by (cases "status r"; simp add: mounted_inv_def)+

lemma status_of_step_mounted:
  assumes "mounted r" "mounted_inv r" "unsupported_inv r" "recorder_step r e = Some r'"
  shows "spec_step (status r) (abs_event r e) (status r')"
proof (cases e)
  case Click
  then have en: "\<not> button_disabled r" and r': "r' = commit (handle_button_click r)"
    using assms(4) by (simp_all split: if_splits)
  show ?thesis
  proof (cases "status r = Recording")
    case True
    then show ?thesis using r' Click by (simp add: status_mounted_handlers spec_step.stop)
  next
    case False
    then have "status r = Idle \<or> status r = Finished" using en by (cases "status r") (simp_all add: button_disabled_def)
    moreover have "\<not> media_supported r \<longrightarrow> status r = Idle" using assms(3) by (simp add: unsupported_inv_def)
    ultimately show ?thesis using r' Click False assms(1)
      by (auto simp: status_mounted_handlers intro: spec_step.start spec_step.unsupported)
  qed
next
  case PermissionGranted
  then show ?thesis using assms mounted_inv_pending_status(1) [OF assms(2)]
    by (auto simp: status_mounted_handlers intro: spec_step.granted split: if_splits)
next
  case PermissionDenied
  then show ?thesis using assms mounted_inv_pending_status(1) [OF assms(2)]
    by (auto simp: status_mounted_handlers intro: spec_step.denied split: if_splits)
next
  case RecorderStopped
  then obtain i where i: "media_recorder_ref r = Some i" "rec_stop_queued (br r) i"
    and r': "r' = commit (on_stop (r\<lparr>br := recorder_stop_fired i (br r)\<rparr>))"
    using assms(4) by (auto split: option.splits if_splits)
  have "status r = Recording" using mi_phase_stop_queued [OF assms(2) i] by blast
  then show ?thesis using r' RecorderStopped assms(1) by (simp add: status_mounted_handlers spec_step.finalize)
next
  case ReaderLoadEnd
  then show ?thesis using assms mounted_inv_pending_status(2) [OF assms(2)]
    by (auto simp: status_mounted_handlers intro: spec_step.encoded split: if_splits)
next
  case AnimationFrame
  then show ?thesis using assms(4) by (auto intro: spec_step.tick split: if_splits prod.splits)
qed (use assms(4) in \<open>auto simp: status_mounted_handlers intro: spec_step.tick spec_step.teardown
                          split: if_splits option.splits\<close>)

text \<open>
  C2: the recorder refines the design's state machine (spec, section 4.4): in
  every reachable mounted state each step of the recorder is a transition of
  \<open>spec_step\<close> on its status, under the abstract event \<open>abs_event\<close> the step
  performs; after unmounting no step changes the status.
\<close>

theorem status_refinement:
  assumes "reachable r" and "recorder_step r e = Some r'"
  shows "if mounted r then spec_step (status r) (abs_event r e) (status r') else status r' = status r"
proof (cases "mounted r")
  case True
  then show ?thesis
    using status_of_step_mounted [OF True mounted_inv_of [OF assms(1) True] unsupported_inv_reachable [OF assms(1)] assms(2)]
    by simp
next
  case False
  then show ?thesis using unmounted_status [OF False assms(2)] by simp
qed

theorem status_refinement_witness:
  "\<exists>r'. recorder_step (init_recorder True) Click = Some r' \<and>
        spec_step (status (init_recorder True)) (abs_event (init_recorder True) Click) (status r') \<and>
        status r' = Permission"
proof -
  obtain r' where step: "recorder_step (init_recorder True) Click = Some r'"
    by (simp add: init_recorder_def button_disabled_def)
  have "status r' = Permission" using step
    by (simp add: init_recorder_def button_disabled_def) (auto simp: recorder_unfold)
  with status_refinement [OF reachable.init step] step show ?thesis by (simp add: init_recorder_def)
qed

text \<open>
  C13: a denied microphone permission is recoverable: the recorder returns to
  \<open>Idle\<close> with the "Microphone access denied" toast, holds no stream and no live
  track, and its button is enabled again.
\<close>

theorem permission_denied_restartable:
  assumes "reachable r" and "mounted r" and "recorder_step r PermissionDenied = Some r'"
  shows "status r' = Idle \<and> stream r' = stream r \<and> live_tracks (br r') = {} \<and>
         toasts r' = toasts r @ [ToastMicDenied] \<and> \<not> button_disabled r'"
proof -
  have mi: "mounted_inv r" using mounted_inv_of [OF assms(1,2)] .
  have p: "perm_pending r" and r': "r' = commit (permission_denied r)" using assms(3) by (simp_all split: if_splits)
  have "mounted_inv r'" using mi_denied [OF assms(2) mi p] r' by simp
  moreover have "status r' = Idle" "toasts r' = toasts r @ [ToastMicDenied]" "stream r' = stream r"
    using r' assms(2) by (simp_all add: status_mounted_handlers permission_denied_def show_toast_def set_status_def)
  ultimately show ?thesis by (simp add: mounted_inv_def quiet_def button_disabled_def)
qed

theorem permission_denied_restartable_witness:
  "\<exists>r1 r2. recorder_run (init_recorder True) [Click] = Some r1 \<and> recorder_step r1 PermissionDenied = Some r2 \<and>
           status r2 = Idle \<and> stream r2 = None \<and> live_tracks (br r2) = {} \<and>
           toasts r2 = [ToastMicDenied] \<and> \<not> button_disabled r2"
proof -
  obtain r1 where run: "recorder_run (init_recorder True) [Click] = Some r1" by (simp add: run_unfold)
  have r1: "mounted r1" "perm_pending r1" "toasts r1 = []" "stream r1 = None" using run by (auto simp: run_unfold)
  then obtain r2 where step: "recorder_step r1 PermissionDenied = Some r2" by simp
  from permission_denied_restartable [OF reachable_run [OF reachable.init run] r1(1) step] run step r1(3,4)
  show ?thesis by auto
qed

end
