(* ===== verification/RecorderRuns.thy ===== *)
theory RecorderRuns
  imports RecorderPhases
begin

text \<open>
  Runs of the recorder: that a recording started can always be finished, and
  what the recorder does when the host unmounts it while a request or a
  recording is under way.
\<close>

section \<open>Finishing a recording\<close>

lemma finish_stopped:
  assumes "reachable r" "mounted r" "status r = Recording" "stream r = None"
  shows "\<exists>r'. recorder_run r [RecorderStopped, ReaderLoadEnd] = Some r' \<and> mounted r' \<and> status r' = Finished \<and>
              completed r' = completed r @ [read_as_data_url (make_blob (audio_chunks_ref r) ''audio/wav'')]"
proof -
  have mi: "mounted_inv r" using mounted_inv_of [OF assms(1,2)] .
  obtain m i where st: "media_recorder_ref r = Some i" "recs (br r) i = Some m" "mr_stop_queued m"
    using mi assms(3,4) by (auto simp: mounted_inv_def ref_rec_Some)
  define r1 where "r1 = commit (on_stop (r\<lparr>br := recorder_stop_fired i (br r)\<rparr>))"
  have s1: "recorder_step r RecorderStopped = Some r1"
    using st by (simp add: r1_def rec_stop_queued_def)
  have r1: "mounted r1" "reader r1 = Some (make_blob (audio_chunks_ref r) ''audio/wav'')" "completed r1 = completed r"
    using assms(2) by (simp_all add: r1_def on_stop_def set_status_def Let_def)
  have "recorder_step r1 ReaderLoadEnd = Some (commit (on_load_end r1))" using r1 by simp
  moreover have "status (commit (on_load_end r1)) = Finished" "mounted (commit (on_load_end r1))"
    "completed (commit (on_load_end r1)) = completed r @ [read_as_data_url (make_blob (audio_chunks_ref r) ''audio/wav'')]"
    using r1 by (simp_all add: status_mounted_handlers on_load_end_def set_status_def)
  ultimately show ?thesis using s1 by simp
qed

lemma finish_recording:
  assumes "reachable r" and "mounted r" and "status r = Recording"
  shows "\<exists>es r'. recorder_run r es = Some r' \<and> mounted r' \<and> status r' = Finished \<and>
                 completed r' = completed r @ [read_as_data_url (make_blob (audio_chunks_ref r) ''audio/wav'')]"
proof (cases "stream r")
  case None
  then show ?thesis using finish_stopped [OF assms None] by blast
next
  case (Some s)
  define r1 where "r1 = commit (handle_button_click r)"
  note c = stop_click_step [OF assms Some, folded r1_def]
  have "reachable r1" using reachable.step [OF assms(1)] c by blast
  then obtain r' where "recorder_run r1 [RecorderStopped, ReaderLoadEnd] = Some r'" "mounted r'" "status r' = Finished"
    "completed r' = completed r @ [read_as_data_url (make_blob (audio_chunks_ref r) ''audio/wav'')]"
    using finish_stopped [of r1] c by auto
  then have "recorder_run r [Click, RecorderStopped, ReaderLoadEnd] = Some r' \<and> mounted r' \<and> status r' = Finished \<and>
      completed r' = completed r @ [read_as_data_url (make_blob (audio_chunks_ref r) ''audio/wav'')]"
    using c by simp
  then show ?thesis by blast
qed

text \<open>
  C5: a recording that has started can always be finished: from every reachable
  mounted state in \<open>Recording\<close> a run of the recorder (a click on Stop if the
  stream is still held, then the recorder's \<open>stop\<close> event and the reader's
  \<open>loadend\<close>) reaches \<open>Finished\<close> and hands \<open>onRecordingComplete\<close> the data URL
  of the chunks recorded so far.
\<close>

theorem recording_completes:
  assumes "reachable r" and "mounted r" and "status r = Recording"
  shows "\<exists>es r'. recorder_run r es = Some r' \<and> mounted r' \<and> status r' = Finished \<and>
                 completed r' = completed r @ [read_as_data_url (make_blob (audio_chunks_ref r) ''audio/wav'')]"
  using finish_recording [OF assms] .

theorem recording_completes_witness:
  "case recorder_run (init_recorder True) [Click, PermissionGranted] of
     None \<Rightarrow> False
   | Some r \<Rightarrow> (\<exists>es r'. recorder_run r es = Some r' \<and> mounted r' \<and> status r' = Finished \<and>
                 completed r' = [read_as_data_url (make_blob [] ''audio/wav'')])"
proof -
  obtain r where run: "recorder_run (init_recorder True) [Click, PermissionGranted] = Some r"
    by (simp add: run_unfold)
  have st: "mounted r" "status r = Recording" "completed r = []" "audio_chunks_ref r = []"
    using run by (auto simp: run_unfold)
  from recording_completes [OF reachable_run [OF reachable.init run] st(1,2)] st run show ?thesis by simp
qed

section \<open>Unmounting\<close>




lemma unmount_queues_stop:
  assumes "media_recorder_ref r = Some i" "recs (br r) i = Some m" "mr_stream m = s" "cleanup_stream r = Some s"
    "mr_state m = MrRecording \<or> mr_stop_queued m"
  shows "media_recorder_ref (unmount r) = Some i \<and> rec_stop_queued (br (unmount r)) i"
  using assms
  by (cases "viz r") (auto simp: unmount_def stream_cleanup_def Let_def rec_stop_queued_def stop_tracks_def
                                 end_recording_def platform_simps split: option.splits)

text \<open>
  C12: \<open>onRecordingComplete\<close> is called after unmount: from every reachable state
  in which the mounted recorder records, unmounting stops the stream's tracks,
  which ends the \<open>MediaRecorder\<close>; its \<open>stop\<close> handler and the \<open>FileReader\<close> it
  starts still run, and the reader's \<open>loadend\<close> hands the parent the data URL of
  the chunks although the component is gone.
\<close>

theorem completion_after_unmount:
  assumes "reachable r" and "mounted r" and "status r = Recording" and "stream r = Some s"
  shows "\<exists>r'. recorder_run r [Unmount, RecorderStopped, ReaderLoadEnd] = Some r' \<and> \<not> mounted r' \<and>
              completed r' = completed r @ [read_as_data_url (make_blob (audio_chunks_ref r) ''audio/wav'')]"
proof -
  obtain m v i c y f where st: "media_recorder_ref r = Some i" "recs (br r) i = Some m" "mr_stream m = s"
    "mr_state m = MrRecording \<and> \<not> mr_stop_queued m \<and> live_tracks (br r) = {s} \<or>
     mr_state m = MrInactive \<and> mr_stop_queued m \<and> live_tracks (br r) = {}"
    "analyser_node r = Some c" "audio_context_ref r = Some c" "ctxs (br r) c = Some y" "viz r = Some v"
    "viz_analyser v = c" "cleanup_stream r = Some s" "all_closed (br r)" "\<not> perm_pending r" "reader r = None"
    "viz_frame v = Some f" "f \<noteq> 0" "raf_queue (br r) = [f]" "s < next_obj (br r)"
    by (rule recording_live_facts [OF mounted_inv_of [OF assms(1,2)] frames_inv_reachable [OF assms(1)] assms(3,4)])
  have q: "media_recorder_ref (unmount r) = Some i \<and> rec_stop_queued (br (unmount r)) i"
    using st(4) by (intro unmount_queues_stop [OF st(1-3,10)]) blast
  define r2 where "r2 = on_stop ((unmount r)\<lparr>br := recorder_stop_fired i (br (unmount r))\<rparr>)"
  have r2: "\<not> mounted r2" "reader r2 = Some (make_blob (audio_chunks_ref r) ''audio/wav'')" "completed r2 = completed r"
    by (simp_all add: r2_def on_stop_def set_status_def Let_def)
  have "recorder_run r [Unmount, RecorderStopped, ReaderLoadEnd] = Some (on_load_end r2)"
    using assms(2) q r2 by (simp add: r2_def commit_def)
  moreover have "\<not> mounted (on_load_end r2)"
    "completed (on_load_end r2) = completed r @ [read_as_data_url (make_blob (audio_chunks_ref r) ''audio/wav'')]"
    using r2 by (simp_all add: on_load_end_def set_status_def)
  ultimately show ?thesis by blast
qed

theorem completion_after_unmount_witness:
  "case recorder_run (init_recorder True) [Click, PermissionGranted] of
     None \<Rightarrow> False
   | Some r \<Rightarrow> (\<exists>r'. recorder_run r [Unmount, RecorderStopped, ReaderLoadEnd] = Some r' \<and> \<not> mounted r' \<and>
                   completed r' = [read_as_data_url (make_blob [] ''audio/wav'')])"
proof -
  obtain r where run: "recorder_run (init_recorder True) [Click, PermissionGranted] = Some r"
    by (simp add: run_unfold)
  have st: "mounted r" "status r = Recording" "stream r = Some 0" "completed r = []" "audio_chunks_ref r = []"
    using run by (auto simp: run_unfold)
  from completion_after_unmount [OF reachable_run [OF reachable.init run] st(1-3)] st run show ?thesis by simp
qed

end
