(* ===== verification/Json.thy ===== *)
theory Json
  imports Prelude
begin

text \<open>
  \<open>JSON.stringify\<close> and \<open>JSON.parse\<close> (ECMA-262, browser code), as far as the auth
  context uses them: it writes a user object of two strings and the booleans, and
  reads back whatever text the storage holds. Values are \<open>null\<close>, booleans, strings
  and objects; a text that is not one of them (numbers, arrays) is a parse failure
  here, where the browser would accept it. Object members are kept in order,
  duplicates included; a property read takes the last one, as \<open>JSON.parse\<close> does.
  Strings are \<open>char\<close> lists (8-bit): \<open>\u\<close> escapes above 255 are failures.
\<close>

datatype json = JNull | JBool bool | JStr string | JObj "(string \<times> json) list"

section \<open>Serialisation\<close>

definition dquote :: char where "dquote = CHR 0x22"
definition bslash :: char where "bslash = CHR 0x5C"

definition hex_digits :: string where
  "hex_digits = ''0123456789abcdef''"

text \<open>
  QuoteJSONString: the quote and the backslash are escaped, the five control
  characters with a short form get it, the other control characters become
  \<open>\u00XX\<close> with lowercase hexadecimal digits; every other character is copied.
\<close>

definition json_escape_char :: "char \<Rightarrow> string" where
  "json_escape_char c =
     (if c = dquote then [bslash, dquote]
      else if c = bslash then [bslash, bslash]
      else if c = CHR 0x08 then [bslash, CHR ''b'']
      else if c = CHR 0x09 then [bslash, CHR ''t'']
      else if c = CHR 0x0A then [bslash, CHR ''n'']
      else if c = CHR 0x0C then [bslash, CHR ''f'']
      else if c = CHR 0x0D then [bslash, CHR ''r'']
      else if of_char c < (32 :: nat)
      then [bslash, CHR ''u'', CHR ''0'', CHR ''0'', hex_digits ! (of_char c div 16), hex_digits ! (of_char c mod 16)]
      else [c])"

definition json_quote :: "string \<Rightarrow> string" where
  "json_quote s = dquote # concat (map json_escape_char s) @ [dquote]"

fun json_stringify :: "json \<Rightarrow> string"
and json_members :: "(string \<times> json) list \<Rightarrow> string" where
  "json_stringify JNull = ''null''"
| "json_stringify (JBool b) = (if b then ''true'' else ''false'')"
| "json_stringify (JStr s) = json_quote s"
| "json_stringify (JObj ms) = CHR ''{'' # json_members ms @ ''}''"
| "json_members [] = []"
| "json_members [(k, v)] = json_quote k @ CHR '':'' # json_stringify v"
| "json_members ((k, v) # m # ms) = json_quote k @ CHR '':'' # json_stringify v @ CHR '','' # json_members (m # ms)"

section \<open>Parsing\<close>

definition is_ws :: "char \<Rightarrow> bool" where
  "is_ws c = (c = CHR '' '' \<or> c = CHR 0x09 \<or> c = CHR 0x0A \<or> c = CHR 0x0D)"

definition skip_ws :: "string \<Rightarrow> string" where
  "skip_ws s = dropWhile is_ws s"

definition hex_val :: "char \<Rightarrow> nat option" where
  "hex_val c =
     (case position hex_digits c of
        Some n \<Rightarrow> Some n
      | None \<Rightarrow> map_option (\<lambda>n. n + 10) (position ''ABCDEF'' c))"

fun parse_hex4 :: "string \<Rightarrow> nat option" where
  "parse_hex4 (a # b # c # d # _) =
     (case (hex_val a, hex_val b, hex_val c, hex_val d) of
        (Some w, Some x, Some y, Some z) \<Rightarrow> Some (((w * 16 + x) * 16 + y) * 16 + z)
      | _ \<Rightarrow> None)"
| "parse_hex4 _ = None"

definition unescape :: "char \<Rightarrow> char option" where
  "unescape e =
     (if e = dquote then Some dquote
      else if e = bslash then Some bslash
      else if e = CHR ''/'' then Some (CHR ''/'')
      else if e = CHR ''b'' then Some (CHR 0x08)
      else if e = CHR ''t'' then Some (CHR 0x09)
      else if e = CHR ''n'' then Some (CHR 0x0A)
      else if e = CHR ''f'' then Some (CHR 0x0C)
      else if e = CHR ''r'' then Some (CHR 0x0D)
      else None)"

text \<open>The characters of a string literal after its opening quote, and the rest.\<close>

fun parse_chars :: "string \<Rightarrow> (string \<times> string) option" where
  "parse_chars [] = None"
| "parse_chars [c] = (if c = dquote then Some ([], []) else None)"
| "parse_chars (c # e # s) =
     (if c = dquote then Some ([], e # s)
      else if c = bslash then
        (if e = CHR ''u'' then
           (case parse_hex4 s of
              Some n \<Rightarrow> if n < 256 then map_option (apfst ((#) (char_of n))) (parse_chars (drop 4 s)) else None
            | None \<Rightarrow> None)
         else case unescape e of
           Some d \<Rightarrow> map_option (apfst ((#) d)) (parse_chars s)
         | None \<Rightarrow> None)
      else if of_char c < (32 :: nat) then None
      else map_option (apfst ((#) c)) (parse_chars (e # s)))"

text \<open>
  A value, and the members of an object after its opening brace. Each call spends
  one unit of fuel and consumes at least one character, so fuel one more than the
  length of the text never runs out (\<open>json_parse_fuel\<close> below).
\<close>

fun parse_value :: "nat \<Rightarrow> string \<Rightarrow> (json \<times> string) option"
and parse_members :: "nat \<Rightarrow> string \<Rightarrow> ((string \<times> json) list \<times> string) option" where
  "parse_value 0 s = None"
| "parse_value (Suc n) s =
     (let t = skip_ws s in
      if take 4 t = ''null'' then Some (JNull, drop 4 t)
      else if take 4 t = ''true'' then Some (JBool True, drop 4 t)
      else if take 5 t = ''false'' then Some (JBool False, drop 5 t)
      else case t of
        [] \<Rightarrow> None
      | c # r \<Rightarrow>
          if c = dquote then map_option (apfst JStr) (parse_chars r)
          else if c = CHR ''{'' then
            (case skip_ws r of
               [] \<Rightarrow> None
             | d # r' \<Rightarrow> if d = CHR ''}'' then Some (JObj [], r') else map_option (apfst JObj) (parse_members n r))
          else None)"
| "parse_members 0 s = None"
| "parse_members (Suc n) s =
     (case skip_ws s of
        [] \<Rightarrow> None
      | c # r \<Rightarrow>
          if c \<noteq> dquote then None else
          (case parse_chars r of
             None \<Rightarrow> None
           | Some (k, r1) \<Rightarrow>
               (case skip_ws r1 of
                  [] \<Rightarrow> None
                | d # r2 \<Rightarrow>
                    if d \<noteq> CHR '':'' then None else
                    (case parse_value n r2 of
                       None \<Rightarrow> None
                     | Some (v, r3) \<Rightarrow>
                         (case skip_ws r3 of
                            [] \<Rightarrow> None
                          | e # r4 \<Rightarrow>
                              if e = CHR '','' then map_option (apfst ((#) (k, v))) (parse_members n r4)
                              else if e = CHR ''}'' then Some ([(k, v)], r4)
                              else None)))))"

definition json_parse :: "string \<Rightarrow> json option" where
  "json_parse s =
     (case parse_value (Suc (length s)) s of
        Some (v, r) \<Rightarrow> if skip_ws r = [] then Some v else None
      | None \<Rightarrow> None)"

text \<open>A property read \<open>o.k\<close>: the last member named \<open>k\<close>; \<open>undefined\<close> is \<open>None\<close>.\<close>

definition json_get :: "string \<Rightarrow> json \<Rightarrow> json option" where
  "json_get k v = (case v of JObj ms \<Rightarrow> map_of (rev ms) k | _ \<Rightarrow> None)"

text \<open>JavaScript truthiness of a parsed value.\<close>

fun json_truthy :: "json \<Rightarrow> bool" where
  "json_truthy JNull = False"
| "json_truthy (JBool b) = b"
| "json_truthy (JStr s) = (s \<noteq> [])"
| "json_truthy (JObj _) = True"

text \<open>The fuel a value needs: one unit per value and per member.\<close>

fun json_weight :: "json \<Rightarrow> nat"
and members_weight :: "(string \<times> json) list \<Rightarrow> nat" where
  "json_weight (JObj ms) = Suc (members_weight ms)"
| "json_weight _ = 0"
| "members_weight [] = 0"
| "members_weight ((k, v) # ms) = Suc (json_weight v + members_weight ms)"

section \<open>Lemmas\<close>

lemma hex_digits_distinct: "distinct hex_digits"
  by (simp add: hex_digits_def)

lemma hex_val_digit: "i < 16 \<Longrightarrow> hex_val (hex_digits ! i) = Some i"
  using position_nth [OF hex_digits_distinct, of i] by (simp add: hex_val_def hex_digits_def)

lemma skip_ws_non_ws [simp]: "\<not> is_ws c \<Longrightarrow> skip_ws (c # s) = c # s"
  by (simp add: skip_ws_def)

lemma non_ws_chars [simp]:
  "\<not> is_ws dquote" "\<not> is_ws CHR ''{''" "\<not> is_ws CHR ''}''" "\<not> is_ws CHR '':''" "\<not> is_ws CHR '',''"
  "\<not> is_ws CHR ''n''" "\<not> is_ws CHR ''t''" "\<not> is_ws CHR ''f''"
  by (simp_all add: is_ws_def dquote_def)

lemma skip_ws_Nil [simp]: "skip_ws [] = []"
  by (simp add: skip_ws_def)

lemma special_chars_distinct [simp]:
  "dquote \<noteq> bslash" "bslash \<noteq> dquote" "dquote \<noteq> CHR ''{''" "dquote \<noteq> CHR ''}''"
  "dquote \<noteq> CHR ''n''" "dquote \<noteq> CHR ''t''" "dquote \<noteq> CHR ''f''"
  "CHR ''{'' \<noteq> dquote"
  by (simp_all add: dquote_def bslash_def)

text \<open>Reading back one escaped character.\<close>

lemma parse_chars_escape_char:
  "parse_chars (json_escape_char c @ t) = map_option (apfst ((#) c)) (parse_chars t)"
proof -
  consider "c = dquote" | "c = bslash" | "c = CHR 0x08" | "c = CHR 0x09" | "c = CHR 0x0A"
    | "c = CHR 0x0C" | "c = CHR 0x0D"
    | "of_char c < (32 :: nat)" "c \<notin> {dquote, bslash, CHR 0x08, CHR 0x09, CHR 0x0A, CHR 0x0C, CHR 0x0D}"
    | "\<not> of_char c < (32 :: nat)" "c \<notin> {dquote, bslash}"
    by (cases "of_char c < (32 :: nat)") (auto simp: dquote_def bslash_def)
  then show ?thesis
  proof cases
    case 8
    have lt: "of_char c div 16 < (16 :: nat)" "of_char c mod 16 < (16 :: nat)" using 8(1) by simp_all
    have hex: "parse_hex4 (CHR ''0'' # CHR ''0'' # hex_digits ! (of_char c div 16) # hex_digits ! (of_char c mod 16) # t)
               = Some (of_char c)"
      using hex_val_digit [OF lt(1)] hex_val_digit [OF lt(2)]
      by (simp add: hex_val_def hex_digits_def)
    show ?thesis using 8 hex
      by (simp add: json_escape_char_def dquote_def bslash_def)
  next
    case 9
    then have e: "json_escape_char c = [c]" by (auto simp: json_escape_char_def)
    show ?thesis using 9 unfolding e
      by (cases t) (simp_all add: dquote_def bslash_def)
  qed (simp_all add: json_escape_char_def unescape_def dquote_def bslash_def)
qed

lemma parse_chars_quote:
  "parse_chars (concat (map json_escape_char s) @ dquote # rest) = Some (s, rest)"
proof (induction s)
  case Nil
  then show ?case by (cases rest) simp_all
next
  case (Cons c s)
  then show ?case by (simp add: parse_chars_escape_char)
qed

lemma json_members_hd: "ms \<noteq> [] \<Longrightarrow> \<exists>t. json_members ms = dquote # t"
proof -
  assume "ms \<noteq> []"
  then obtain k v ms' where "ms = (k, v) # ms'" by (cases ms) auto
  then show ?thesis by (cases ms') (simp_all add: json_quote_def)
qed

lemma parse_stringify:
  "json_weight v < n \<Longrightarrow> parse_value n (json_stringify v @ rest) = Some (v, rest)"
  "ms \<noteq> [] \<Longrightarrow> members_weight ms < n \<Longrightarrow>
     parse_members n (json_members ms @ CHR ''}'' # rest) = Some (ms, rest)"
proof (induction v and ms arbitrary: n rest and n rest rule: json_stringify_json_members.induct)
  case 1
  then show ?case by (cases n) simp_all
next
  case (2 b)
  then show ?case by (cases n) simp_all
next
  case (3 s)
  then show ?case by (cases n) (simp_all add: json_quote_def parse_chars_quote)
next
  case (4 ms)
  then obtain n' where n: "n = Suc n'" and w: "members_weight ms < n'" by (cases n) auto
  show ?case
  proof (cases "ms = []")
    case True
    then show ?thesis using n by simp
  next
    case False
    obtain t where t: "json_members ms = dquote # t" using json_members_hd [OF False] ..
    have "parse_members n' (json_members ms @ CHR ''}'' # rest) = Some (ms, rest)"
      using 4(1) [OF False w] .
    then show ?thesis using n t by simp
  qed
next
  case 5
  then show ?case by simp
next
  case (6 k v)
  then obtain n' where n: "n = Suc n'" and w: "json_weight v < n'" by (cases n) auto
  show ?case using 6(1) [OF w, of "CHR ''}'' # rest"] n
    by (simp add: json_quote_def parse_chars_quote)
next
  case (7 k v m ms)
  then obtain n' where n: "n = Suc n'" and w: "json_weight v < n'" "members_weight (m # ms) < n'"
    by (cases n) auto
  show ?case using 7(1) [OF w(1)] 7(2) [OF _ w(2)] n
    by (simp add: json_quote_def parse_chars_quote)
qed

lemma weight_le_length:
  "json_weight v \<le> length (json_stringify v)"
  "members_weight ms \<le> length (json_members ms)"
  by (induction v and ms rule: json_stringify_json_members.induct) (simp_all add: json_quote_def)

lemma json_parse_stringify: "json_parse (json_stringify v) = Some v"
proof -
  have "json_weight v < Suc (length (json_stringify v))" using weight_le_length(1) [of v] by simp
  from parse_stringify(1) [OF this, of "[]"] show ?thesis by (simp add: json_parse_def)
qed

lemma json_parse_literals [simp]:
  "json_parse ''true'' = Some (JBool True)" "json_parse ''false'' = Some (JBool False)"
  "json_parse ''null'' = Some JNull"
  using json_parse_stringify [of "JBool True"] json_parse_stringify [of "JBool False"]
    json_parse_stringify [of JNull]
  by simp_all

lemma skip_ws_length: "length (skip_ws s) \<le> length s"
  by (simp add: skip_ws_def length_dropWhile_le)

lemma skip_ws_Cons_length: "skip_ws s = c # r \<Longrightarrow> length r < length s"
  using skip_ws_length [of s] by simp

lemma take_literal_drop: "take k t = xs \<Longrightarrow> xs \<noteq> [] \<Longrightarrow> length t - k < length t"
  by (cases t; cases k) auto

lemma parse_chars_length: "parse_chars s = Some p \<Longrightarrow> length (snd p) < length s"
proof (induction s arbitrary: p rule: parse_chars.induct)
  case (3 c e s)
  then show ?case by (fastforce split: if_splits option.splits)
qed (auto split: if_splits)

lemma parse_value_length:
  "parse_value n s = Some (v, r) \<Longrightarrow> length r < length s"
  "parse_members n s = Some (ms, r) \<Longrightarrow> length r < length s"
proof (induction n s and n s arbitrary: v r and ms r rule: parse_value_parse_members.induct)
  case (2 n s)
  have t: "length (skip_ws s) \<le> length s" by (rule skip_ws_length)
  show ?case using 2 t
    by (auto simp: Let_def dest!: parse_chars_length skip_ws_Cons_length take_literal_drop
             split: if_splits list.splits option.splits)
       (blast intro: less_trans)
next
  case (4 n s)
  show ?case using 4 skip_ws_length [of s]
    by (auto dest: parse_chars_length skip_ws_Cons_length split: if_splits list.splits option.splits prod.splits)
       (fastforce dest: parse_chars_length skip_ws_Cons_length)+
qed simp_all

lemma parse_fuel_down:
  "parse_value m s = Some x \<Longrightarrow> length s < n \<Longrightarrow> parse_value n s = Some x"
  "parse_members m s = Some y \<Longrightarrow> length s < n \<Longrightarrow> parse_members n s = Some y"
proof (induction m s and m s arbitrary: x n and y n rule: parse_value_parse_members.induct)
  case (2 m s)
  obtain n' where n: "n = Suc n'" using 2(3) by (cases n) auto
  show ?case using 2(2,3) n skip_ws_length [of s]
    by (auto simp: Let_def dest: skip_ws_Cons_length split: if_splits list.splits option.splits)
       (rule 2(1) [where n = n'], auto)
next
  case (4 m s)
  obtain n' where n: "n = Suc n'" using 4(4) by (cases n) auto
  obtain r k r1 r2 v r3 e r4 where a: "skip_ws s = dquote # r" "parse_chars r = Some (k, r1)"
    "skip_ws r1 = CHR '':'' # r2" "parse_value m r2 = Some (v, r3)" "skip_ws r3 = e # r4"
    and b: "(e = CHR '','' \<and> map_option (apfst ((#) (k, v))) (parse_members m r4) = Some y) \<or>
            (e \<noteq> CHR '','' \<and> e = CHR ''}'' \<and> y = ([(k, v)], r4))"
    using 4(3) by (auto split: list.splits option.splits if_splits prod.splits)
  have l: "length r < length s" "length r1 < length r" "length r2 < length r1" "length r3 < length r2"
    "length r4 < length r3"
    using skip_ws_Cons_length [OF a(1)] parse_chars_length [OF a(2)] skip_ws_Cons_length [OF a(3)]
      parse_value_length(1) [OF a(4)] skip_ws_Cons_length [OF a(5)] by simp_all
  have v: "parse_value n' r2 = Some (v, r3)"
    by (rule 4(1) [where n = n']) (use a l n 4(4) in auto)
  show ?case
  proof (cases "e = CHR '',''")
    case True
    then obtain ms' where ms': "parse_members m r4 = Some ms'" "y = apfst ((#) (k, v)) ms'" using b by auto
    have "parse_members n' r4 = Some ms'"
      by (rule 4(2) [where n = n']) (use a l n 4(4) v True ms' in auto)
    then show ?thesis using a v n True ms' by simp
  next
    case False
    then show ?thesis using a v n b by simp
  qed
qed simp_all

lemma parse_value_fuel_eq:
  assumes "length s < n" and "length s < m"
  shows "parse_value n s = parse_value m s"
proof (cases "parse_value m s")
  case None
  then show ?thesis using parse_fuel_down(1) [of n s _ m] assms(2) by (cases "parse_value n s") auto
next
  case (Some x)
  then show ?thesis using parse_fuel_down(1) [OF Some assms(1)] by simp
qed

section \<open>Termination of the parser\<close>

text \<open>
  The fuel of \<open>json_parse\<close> never cuts the parse short: every call of the
  parser consumes input, so any fuel beyond the length of the text gives the
  same result.
\<close>

lemma json_parse_fuel:
  assumes "length s < n"
  shows "json_parse s = (case parse_value n s of Some (v, r) \<Rightarrow> if skip_ws r = [] then Some v else None | None \<Rightarrow> None)"
  using parse_value_fuel_eq [OF _ assms, of "Suc (length s)"] by (simp add: json_parse_def)

end
