(* ===== verification/Auth.thy ===== *)
theory Auth
  imports Json
begin

text \<open>
  The mock user store, src/src/context/auth-context.tsx. \<open>AuthProvider\<close> keeps
  the parsed user and authentication flag as React state and persists them in
  \<open>localStorage\<close> under two keys, as JSON text. The state of the provider is the
  record \<open>auth_ctx\<close>; \<open>localStorage\<close> is a map from keys to strings. The state
  holds what \<open>JSON.parse\<close> returned, which is a \<open>User\<close> only when the storage
  holds one: a \<open>json\<close> value.
\<close>

section \<open>State\<close>

record auth_ctx =
  user :: json
  is_authenticated :: json
  is_loading :: bool
  storage :: "string \<rightharpoonup> string"

definition user_storage_key :: string where
  "user_storage_key = ''voicekey_user''"

definition auth_storage_key :: string where
  "auth_storage_key = user_storage_key @ ''_auth''"

definition init_auth :: "(string \<rightharpoonup> string) \<Rightarrow> auth_ctx" where
  "init_auth st = \<lparr>user = JNull, is_authenticated = JBool False, is_loading = True, storage = st\<rparr>"

text \<open>The object \<open>{ id, voicePrint }\<close> of \<open>register\<close>.\<close>

definition user_json :: "string \<Rightarrow> string \<Rightarrow> json" where
  "user_json uid voice_print = JObj [(''id'', JStr uid), (''voicePrint'', JStr voice_print)]"

text \<open>\<open>getItem\<close> returns \<open>null\<close> or a string; only a non-empty string is truthy.\<close>

definition stored_text :: "auth_ctx \<Rightarrow> string \<Rightarrow> string option" where
  "stored_text a k = (case storage a k of Some s \<Rightarrow> if s \<noteq> [] then Some s else None | None \<Rightarrow> None)"

section \<open>Operations\<close>

text \<open>
  The mount effect: when both keys hold text, parse the user and then the flag; a
  parse that throws ends the \<open>try\<close> (an update already made stays), and
  \<open>finally\<close> clears \<open>isLoading\<close>.
\<close>

definition auth_load :: "auth_ctx \<Rightarrow> auth_ctx" where
  "auth_load a =
     (case (stored_text a user_storage_key, stored_text a auth_storage_key) of
        (Some su, Some sa) \<Rightarrow>
          (case json_parse su of
             None \<Rightarrow> a
           | Some u \<Rightarrow>
               (case json_parse sa of
                  None \<Rightarrow> a\<lparr>user := u\<rparr>
                | Some b \<Rightarrow> a\<lparr>user := u, is_authenticated := b\<rparr>))
      | _ \<Rightarrow> a)\<lparr>is_loading := False\<rparr>"

text \<open>\<open>register\<close> overwrites both keys and always returns \<open>true\<close>.\<close>

definition register :: "string \<Rightarrow> string \<Rightarrow> auth_ctx \<Rightarrow> bool \<times> auth_ctx" where
  "register uid voice_print a =
     (True, a\<lparr>storage := (storage a)(user_storage_key \<mapsto> json_stringify (user_json uid voice_print),
                                     auth_storage_key \<mapsto> json_stringify (JBool False))\<rparr>)"

text \<open>\<open>login\<close> ignores the voice print: any stored user that parses logs in.\<close>

definition login :: "string \<Rightarrow> auth_ctx \<Rightarrow> bool \<times> auth_ctx" where
  "login voice_print a =
     (case stored_text a user_storage_key of
        None \<Rightarrow> (False, a)
      | Some su \<Rightarrow>
          (case json_parse su of
             None \<Rightarrow> (False, a)
           | Some u \<Rightarrow>
               (True, a\<lparr>user := u, is_authenticated := JBool True,
                        storage := (storage a)(auth_storage_key \<mapsto> json_stringify (JBool True))\<rparr>)))"

definition logout :: "auth_ctx \<Rightarrow> auth_ctx" where
  "logout a =
     a\<lparr>user := JNull, is_authenticated := JBool False,
       storage := (storage a)(auth_storage_key \<mapsto> json_stringify (JBool False))\<rparr>"

section \<open>Types\<close>

text \<open>
  The TypeScript types the context declares: \<open>User\<close> is an object of two
  strings \<open>id\<close> and \<open>voicePrint\<close>, \<open>isAuthenticated\<close> a boolean. The state holds
  whatever \<open>JSON.parse\<close> returned, so these are predicates on \<open>json\<close> values,
  with the storage typed when its texts parse to them, and \<open>auth_reachable\<close> the
  states the provider reaches through its operations and reloads.
\<close>

fun is_user :: "json \<Rightarrow> bool" where
  "is_user (JObj [(k1, JStr _), (k2, JStr _)]) = (k1 = ''id'' \<and> k2 = ''voicePrint'')"
| "is_user _ = False"

definition is_bool :: "json \<Rightarrow> bool" where
  "is_bool v = (v = JBool True \<or> v = JBool False)"

definition stored_as :: "(json \<Rightarrow> bool) \<Rightarrow> string option \<Rightarrow> bool" where
  "stored_as P so = pred_option (\<lambda>s. case json_parse s of Some v \<Rightarrow> P v | None \<Rightarrow> False) so"

definition storage_typed :: "(string \<rightharpoonup> string) \<Rightarrow> bool" where
  "storage_typed st = (stored_as is_user (st user_storage_key) \<and> stored_as is_bool (st auth_storage_key))"

definition auth_typed :: "auth_ctx \<Rightarrow> bool" where
  "auth_typed a = ((user a = JNull \<or> is_user (user a)) \<and> is_bool (is_authenticated a) \<and> storage_typed (storage a))"

inductive auth_reachable :: "auth_ctx \<Rightarrow> bool" where
  init: "storage_typed st \<Longrightarrow> auth_reachable (init_auth st)"
| load: "auth_reachable a \<Longrightarrow> auth_reachable (auth_load a)"
| register: "auth_reachable a \<Longrightarrow> auth_reachable (snd (register uid vp a))"
| login: "auth_reachable a \<Longrightarrow> auth_reachable (snd (login vp a))"
| logout: "auth_reachable a \<Longrightarrow> auth_reachable (logout a)"

section \<open>Lemmas\<close>

lemma storage_keys_distinct [simp]:
  "user_storage_key \<noteq> auth_storage_key" "auth_storage_key \<noteq> user_storage_key"
  by (simp_all add: user_storage_key_def auth_storage_key_def)

lemma stringify_non_empty [simp]: "json_stringify v \<noteq> []"
  by (cases v) (simp_all add: json_quote_def)

lemma stored_text_update [simp]:
  "stored_text (a\<lparr>storage := (storage a)(k \<mapsto> json_stringify v)\<rparr>) k' =
   (if k' = k then Some (json_stringify v) else stored_text a k')"
  by (simp add: stored_text_def)

lemmas auth_defs = register_def login_def logout_def auth_load_def init_auth_def

lemma stored_user_register [simp]:
  "stored_text (snd (register uid vp a)) user_storage_key = Some (json_stringify (user_json uid vp))"
  by (simp add: register_def stored_text_def)

lemma storage_register_login:
  "storage (snd (login vp2 (snd (register uid vp1 a)))) =
     (storage a)(user_storage_key \<mapsto> json_stringify (user_json uid vp1), auth_storage_key \<mapsto> ''true'')"
  by (simp add: register_def login_def json_parse_stringify stored_text_def fun_upd_twist)

lemma login_after_register:
  "login vp2 (snd (register uid vp1 a)) =
     (True, (snd (register uid vp1 a))\<lparr>user := user_json uid vp1, is_authenticated := JBool True,
        storage := (storage (snd (register uid vp1 a)))(auth_storage_key \<mapsto> ''true'')\<rparr>)"
  by (simp add: login_def json_parse_stringify)

section \<open>Properties of the store\<close>

text \<open>
  C6: the documented mock: after \<open>register(id, P1)\<close>, \<open>login(P2)\<close> succeeds for
  every payload \<open>P2\<close>; the user state becomes the registered \<open>{id, voicePrint: P1}\<close>
  and the flag \<open>true\<close>.
\<close>

theorem register_then_login:
  "fst (login vp2 (snd (register uid vp1 a))) \<and>
   user (snd (login vp2 (snd (register uid vp1 a)))) = user_json uid vp1 \<and>
   is_authenticated (snd (login vp2 (snd (register uid vp1 a)))) = JBool True"
  by (simp add: login_def json_parse_stringify)

text \<open>
  C14: \<open>login\<close> succeeds exactly when the user key holds a non-empty text that
  parses; the payload plays no part, and a failed login changes nothing.
\<close>

theorem login_iff:
  "(fst (login vp a) \<longleftrightarrow> (\<exists>s. stored_text a user_storage_key = Some s \<and> json_parse s \<noteq> None)) \<and>
   (\<not> fst (login vp a) \<longrightarrow> snd (login vp a) = a)"
  by (auto simp: login_def split: option.splits)

theorem login_iff_witness:
  "fst (login ''P'' (snd (register ''alice'' ''V'' (init_auth Map.empty)))) \<and>
   \<not> fst (login ''P'' (init_auth Map.empty))"
proof -
  have "\<exists>s. stored_text (snd (register ''alice'' ''V'' (init_auth Map.empty))) user_storage_key = Some s \<and>
      json_parse s \<noteq> None"
    by (simp add: json_parse_stringify)
  moreover have "\<not> (\<exists>s. stored_text (init_auth Map.empty) user_storage_key = Some s \<and> json_parse s \<noteq> None)"
    by (simp add: stored_text_def init_auth_def)
  ultimately show ?thesis
    using login_iff [of "''P''" "snd (register ''alice'' ''V'' (init_auth Map.empty))"]
      login_iff [of "''P''" "init_auth Map.empty"] by blast
qed

text \<open>
  C16: \<open>logout\<close> clears the session but keeps the registration: the user key is
  untouched, so a later \<open>login\<close> succeeds exactly when it would have before.
\<close>

theorem logout_keeps_registration:
  "storage (logout a) user_storage_key = storage a user_storage_key \<and>
   user (logout a) = JNull \<and> is_authenticated (logout a) = JBool False \<and>
   fst (login vp (logout a)) = fst (login vp a)"
  by (simp add: logout_def login_def stored_text_def split: option.splits)

text \<open>
  C15: the session persists across a reload: a fresh provider over the storage
  left by \<open>register\<close> and \<open>login\<close> loads the registered user, authenticated.
\<close>

theorem reload_after_login:
  "auth_load (init_auth (storage (snd (login vp2 (snd (register uid vp1 a)))))) =
     \<lparr>user = user_json uid vp1, is_authenticated = JBool True, is_loading = False,
      storage = storage (snd (login vp2 (snd (register uid vp1 a))))\<rparr>"
  unfolding storage_register_login
  by (simp add: auth_load_def init_auth_def json_parse_stringify stored_text_def)

text \<open>
  C17: there is no duplicate-user check: registering a taken username succeeds and
  replaces the stored voice print, so the \<open>DuplicateUser\<close> error of the design and
  the register page's "already exists" message can never occur.
\<close>

theorem register_overwrites:
  "fst (register uid vp2 (snd (register uid vp1 a))) \<and>
   user (snd (login vp (snd (register uid vp2 (snd (register uid vp1 a)))))) = user_json uid vp2"
  by (simp add: register_def login_def json_parse_stringify stored_text_def)

section \<open>The typed state\<close>

lemma is_user_json [simp]: "is_user (user_json uid vp)"
  by (simp add: user_json_def)

lemma stored_text_typed:
  "stored_as P (storage a k) \<Longrightarrow> stored_text a k = Some s \<Longrightarrow> \<exists>v. json_parse s = Some v \<and> P v"
  by (auto simp: stored_as_def stored_text_def split: option.splits if_splits)

lemma stored_as_stringify [simp]: "stored_as P (Some (json_stringify v)) = P v"
  by (simp add: stored_as_def json_parse_stringify)

lemma stored_as_literals [simp]:
  "stored_as P (Some ''true'') = P (JBool True)" "stored_as P (Some ''false'') = P (JBool False)"
  by (simp_all add: stored_as_def)

lemma auth_typed_register: "auth_typed a \<Longrightarrow> auth_typed (snd (register uid vp a))"
  by (simp add: auth_typed_def register_def storage_typed_def is_bool_def)

lemma auth_typed_logout: "auth_typed a \<Longrightarrow> auth_typed (logout a)"
  by (simp add: auth_typed_def logout_def storage_typed_def is_bool_def)

lemma auth_typed_login: "auth_typed a \<Longrightarrow> auth_typed (snd (login vp a))"
  by (auto simp: auth_typed_def login_def storage_typed_def is_bool_def
           dest: stored_text_typed split: option.splits)

lemma auth_typed_load: "auth_typed a \<Longrightarrow> auth_typed (auth_load a)"
  by (auto simp: auth_typed_def auth_load_def storage_typed_def
           dest: stored_text_typed split: option.splits)

lemma auth_typed_init: "storage_typed st \<Longrightarrow> auth_typed (init_auth st)"
  by (simp add: auth_typed_def init_auth_def is_bool_def)

lemma is_user_shape: "is_user v \<Longrightarrow> \<exists>uid vp. v = user_json uid vp"
  by (induction v rule: is_user.induct) (auto simp: user_json_def)

lemma auth_typed_state: "auth_reachable a \<Longrightarrow> auth_typed a"
  by (induction rule: auth_reachable.induct)
     (auto intro: auth_typed_init auth_typed_load auth_typed_register auth_typed_login auth_typed_logout)

text \<open>
  C29: the auth state is typed: in every state the provider reaches from a
  storage that holds only what the application writes, the stored texts parse
  to a \<open>User\<close> and a boolean, \<open>isAuthenticated\<close> is a boolean and \<open>user\<close> is
  \<open>null\<close> or an object \<open>{id, voicePrint}\<close> of two strings, whatever
  \<open>register\<close>, \<open>login\<close>, \<open>logout\<close> and reloads do.
\<close>

theorem auth_typed_reachable:
  assumes "auth_reachable a"
  shows "auth_typed a \<and> (user a = JNull \<or> (\<exists>uid vp. user a = user_json uid vp))"
proof -
  have t: "auth_typed a" using assms by (rule auth_typed_state)
  then show ?thesis by (auto simp: auth_typed_def dest: is_user_shape)
qed

theorem auth_typed_reachable_witness:
  "auth_typed (auth_load (init_auth (storage (snd (login ''P'' (snd (register ''alice'' ''V'' (init_auth Map.empty)))))))) \<and>
   user (auth_load (init_auth (storage (snd (login ''P'' (snd (register ''alice'' ''V'' (init_auth Map.empty))))))))
     = user_json ''alice'' ''V''"
proof -
  have st: "storage_typed Map.empty" by (simp add: storage_typed_def stored_as_def)
  have r: "auth_reachable (snd (login ''P'' (snd (register ''alice'' ''V'' (init_auth Map.empty)))))"
    by (intro auth_reachable.login auth_reachable.register auth_reachable.init st)
  have "auth_typed (snd (login ''P'' (snd (register ''alice'' ''V'' (init_auth Map.empty)))))"
    using auth_typed_reachable [OF r] by blast
  then have "storage_typed (storage (snd (login ''P'' (snd (register ''alice'' ''V'' (init_auth Map.empty))))))"
    by (simp add: auth_typed_def)
  then have r2: "auth_reachable (auth_load (init_auth (storage (snd (login ''P'' (snd (register ''alice'' ''V'' (init_auth Map.empty))))))))"
    by (intro auth_reachable.load auth_reachable.init)
  have "user (auth_load (init_auth (storage (snd (login ''P'' (snd (register ''alice'' ''V'' (init_auth Map.empty))))))))
     = user_json ''alice'' ''V''"
    by (simp add: storage_register_login auth_load_def init_auth_def json_parse_stringify stored_text_def)
  with auth_typed_reachable [OF r2] show ?thesis by blast
qed

end
