(* ===== verification/Pages.thy ===== *)
theory Pages
  imports Auth
begin

text \<open>
  The pages that use the store: the login page (src/src/app/page.tsx), the
  register page (src/src/app/register/page.tsx) and the header's logout button
  (src/src/components/header.tsx). Each page is a record of its React state; a
  handler with an \<open>await\<close> is split into the click and the resumption, and the
  values its closure captured at the click travel with the pending resumption.
  Navigation is the list of paths passed to \<open>router.push\<close>.
\<close>

datatype page_toast =
    ToastRecordFirst | ToastAuthSuccess | ToastAuthFailed
  | ToastMissingFields | ToastRegistered | ToastUserExists

section \<open>Login page\<close>

record login_page =
  lp_audio :: "string option"
  lp_authenticating :: bool
  lp_toasts :: "page_toast list"
  lp_pending :: "string option"

definition init_login_page :: login_page where
  "init_login_page = \<lparr>lp_audio = None, lp_authenticating = False, lp_toasts = [], lp_pending = None\<rparr>"

definition str_truthy :: "string option \<Rightarrow> bool" where
  "str_truthy s = (case s of None \<Rightarrow> False | Some x \<Rightarrow> x \<noteq> [])"

text \<open>\<open>onRecordingComplete={setAudioData}\<close>.\<close>

definition lp_set_audio :: "string \<Rightarrow> login_page \<Rightarrow> login_page" where
  "lp_set_audio d p = p\<lparr>lp_audio := Some d\<rparr>"

text \<open>\<open>handleLogin\<close> up to the one-and-a-half-second \<open>await\<close>.\<close>

definition handle_login :: "login_page \<Rightarrow> login_page" where
  "handle_login p =
     (case lp_audio p of
        Some d \<Rightarrow> if d \<noteq> [] then p\<lparr>lp_authenticating := True, lp_pending := Some d\<rparr>
                  else p\<lparr>lp_toasts := lp_toasts p @ [ToastRecordFirst]\<rparr>
      | None \<Rightarrow> p\<lparr>lp_toasts := lp_toasts p @ [ToastRecordFirst]\<rparr>)"

text \<open>\<open>handleLogin\<close> after the \<open>await\<close>, with the audio its closure captured.\<close>

definition login_resume :: "string \<Rightarrow> login_page \<Rightarrow> auth_ctx \<Rightarrow> login_page \<times> auth_ctx \<times> string list" where
  "login_resume d p a =
     (let (ok, a') = login d a;
          p1 = p\<lparr>lp_pending := None\<rparr>
      in if ok then (p1\<lparr>lp_toasts := lp_toasts p1 @ [ToastAuthSuccess]\<rparr>, a', [''/dashboard''])
         else (p1\<lparr>lp_toasts := lp_toasts p1 @ [ToastAuthFailed], lp_authenticating := False, lp_audio := None\<rparr>,
               a', []))"

text \<open>The effect on \<open>isAuthenticated\<close>: an authenticated visitor is sent on.\<close>

definition login_effect :: "auth_ctx \<Rightarrow> string list" where
  "login_effect a = (if json_truthy (is_authenticated a) then [''/dashboard''] else [])"

definition login_disabled :: "login_page \<Rightarrow> bool" where
  "login_disabled p = (lp_authenticating p \<or> \<not> str_truthy (lp_audio p))"

section \<open>Register page\<close>

record register_page =
  rp_audio :: "string option"
  rp_username :: string
  rp_registering :: bool
  rp_toasts :: "page_toast list"
  rp_pending :: "(string \<times> string) option"

definition init_register_page :: register_page where
  "init_register_page =
     \<lparr>rp_audio = None, rp_username = [], rp_registering = False, rp_toasts = [], rp_pending = None\<rparr>"

definition rp_set_audio :: "string \<Rightarrow> register_page \<Rightarrow> register_page" where
  "rp_set_audio d p = p\<lparr>rp_audio := Some d\<rparr>"

definition rp_set_username :: "string \<Rightarrow> register_page \<Rightarrow> register_page" where
  "rp_set_username u p = p\<lparr>rp_username := u\<rparr>"

definition handle_register :: "register_page \<Rightarrow> register_page" where
  "handle_register p =
     (if \<not> str_truthy (rp_audio p) \<or> rp_username p = []
      then p\<lparr>rp_toasts := rp_toasts p @ [ToastMissingFields]\<rparr>
      else p\<lparr>rp_registering := True,
             rp_pending := Some (rp_username p, case rp_audio p of Some d \<Rightarrow> d | None \<Rightarrow> [])\<rparr>)"

definition register_resume ::
  "string \<times> string \<Rightarrow> register_page \<Rightarrow> auth_ctx \<Rightarrow> register_page \<times> auth_ctx \<times> string list" where
  "register_resume ud p a =
     (let (ok, a') = register (fst ud) (snd ud) a;
          p1 = p\<lparr>rp_pending := None\<rparr>
      in if ok then (p1\<lparr>rp_toasts := rp_toasts p1 @ [ToastRegistered]\<rparr>, a', [''/''])
         else (p1\<lparr>rp_toasts := rp_toasts p1 @ [ToastUserExists], rp_registering := False\<rparr>, a', []))"

definition register_disabled :: "register_page \<Rightarrow> bool" where
  "register_disabled p = (rp_registering p \<or> \<not> str_truthy (rp_audio p) \<or> rp_username p = [])"

section \<open>Header\<close>

definition handle_logout :: "auth_ctx \<Rightarrow> auth_ctx \<times> string list" where
  "handle_logout a = (logout a, [''/''])"

text \<open>
  A value as a JSX child: a string is its text; \<open>undefined\<close>, \<open>null\<close> and the
  booleans render nothing; React throws on an object.
\<close>

definition jsx_text :: "json option \<Rightarrow> string option" where
  "jsx_text v = (case v of Some (JStr s) \<Rightarrow> Some s | Some (JObj _) \<Rightarrow> None | _ \<Rightarrow> Some [])"

datatype header_view = NoGreeting | Greeting string | RenderError

text \<open>\<open>{user && <span>Welcome, {user.id}</span>}\<close>.\<close>

definition header_view :: "auth_ctx \<Rightarrow> header_view" where
  "header_view a =
     (if json_truthy (user a)
      then (case jsx_text (json_get ''id'' (user a)) of Some t \<Rightarrow> Greeting (''Welcome, '' @ t) | None \<Rightarrow> RenderError)
      else NoGreeting)"

section \<open>Properties of the pages\<close>

lemma handle_register_pending:
  "u \<noteq> [] \<Longrightarrow> d \<noteq> [] \<Longrightarrow>
   handle_register (rp_set_audio d (rp_set_username u init_register_page)) =
     (rp_set_audio d (rp_set_username u init_register_page))\<lparr>rp_registering := True, rp_pending := Some (u, d)\<rparr>"
  by (simp add: handle_register_def rp_set_audio_def rp_set_username_def init_register_page_def str_truthy_def)

lemma handle_login_pending:
  "d \<noteq> [] \<Longrightarrow> handle_login (lp_set_audio d init_login_page) =
     (lp_set_audio d init_login_page)\<lparr>lp_authenticating := True, lp_pending := Some d\<rparr>"
  by (simp add: handle_login_def lp_set_audio_def init_login_page_def)

lemma register_resume_ok:
  "register_resume ud p a =
     (p\<lparr>rp_pending := None, rp_toasts := rp_toasts p @ [ToastRegistered]\<rparr>, snd (register (fst ud) (snd ud) a), [''/''])"
  by (simp add: register_resume_def register_def)

text \<open>
  C7: the documented mock end to end: a visitor who registers as \<open>u\<close> with the
  recording \<open>P1\<close> is sent to the login page, and a login there with any recording
  \<open>P2\<close> succeeds, sends the visitor to the dashboard and makes \<open>{u, P1}\<close> the user.
\<close>

theorem register_then_login_pages:
  assumes "u \<noteq> []" and "p1 \<noteq> []" and "p2 \<noteq> []"
  shows "let rp = handle_register (rp_set_audio p1 (rp_set_username u init_register_page));
             lp = handle_login (lp_set_audio p2 init_login_page);
             (rp', a1, r1) = register_resume (u, p1) rp a;
             (lp', a2, r2) = login_resume p2 lp a1
         in rp_pending rp = Some (u, p1) \<and> lp_pending lp = Some p2 \<and> r1 = [''/''] \<and>
            r2 = [''/dashboard''] \<and> user a2 = user_json u p1 \<and> lp_toasts lp' = [ToastAuthSuccess]"
  using assms
  by (simp add: handle_register_pending handle_login_pending register_resume_ok login_resume_def
                login_after_register Let_def) (simp add: lp_set_audio_def init_login_page_def)

theorem register_then_login_pages_witness:
  "let rp = handle_register (rp_set_audio ''data:audio/wav;base64,AQID'' (rp_set_username ''alice'' init_register_page));
       lp = handle_login (lp_set_audio ''data:audio/wav;base64,'' init_login_page);
       (rp', a1, r1) = register_resume (''alice'', ''data:audio/wav;base64,AQID'') rp (init_auth Map.empty);
       (lp', a2, r2) = login_resume ''data:audio/wav;base64,'' lp a1
   in rp_pending rp = Some (''alice'', ''data:audio/wav;base64,AQID'') \<and> lp_pending lp = Some ''data:audio/wav;base64,'' \<and>
      r1 = [''/''] \<and> r2 = [''/dashboard''] \<and> user a2 = user_json ''alice'' ''data:audio/wav;base64,AQID'' \<and>
      lp_toasts lp' = [ToastAuthSuccess]"
  by (rule register_then_login_pages) simp_all

text \<open>
  C18: the register page's failure branch is dead: every resumption of
  \<open>handleRegister\<close> shows the success toast and navigates to the login page, so
  the "A user with this username already exists" toast is never shown.
\<close>

theorem register_page_never_duplicate:
  assumes "register_resume ud p a = (p', a', r)" and "ToastUserExists \<notin> set (rp_toasts p)"
  shows "ToastUserExists \<notin> set (rp_toasts p') \<and> r = [''/'']"
  using assms by (auto simp: register_resume_ok)

theorem register_page_never_duplicate_witness:
  "ToastUserExists \<notin> set (rp_toasts (fst (register_resume (''alice'', ''v'') init_register_page (init_auth Map.empty)))) \<and>
   snd (snd (register_resume (''alice'', ''v'') init_register_page (init_auth Map.empty))) = [''/'']"
proof -
  obtain p' a' r where eq: "register_resume (''alice'', ''v'') init_register_page (init_auth Map.empty) = (p', a', r)"
    by (cases "register_resume (''alice'', ''v'') init_register_page (init_auth Map.empty)") auto
  have "ToastUserExists \<notin> set (rp_toasts init_register_page)" by (simp add: init_register_page_def)
  from register_page_never_duplicate [OF eq this] eq show ?thesis by simp
qed

text \<open>
  C19: a login with nothing registered fails without touching the store: the page
  shows the failure toast, clears the recorded audio and re-enables itself, and
  there is no navigation.
\<close>

theorem login_page_failure:
  assumes "stored_text a user_storage_key = None"
  shows "login_resume d p a =
           (p\<lparr>lp_pending := None, lp_toasts := lp_toasts p @ [ToastAuthFailed], lp_authenticating := False,
              lp_audio := None\<rparr>, a, [])"
  using assms by (simp add: login_resume_def login_def)

theorem login_page_failure_witness:
  "login_resume ''d'' (handle_login (lp_set_audio ''d'' init_login_page)) (init_auth Map.empty) =
     (init_login_page\<lparr>lp_toasts := [ToastAuthFailed]\<rparr>, init_auth Map.empty, [])"
proof -
  have "stored_text (init_auth Map.empty) user_storage_key = None" by (simp add: stored_text_def init_auth_def)
  from login_page_failure [OF this, of "''d''" "handle_login (lp_set_audio ''d'' init_login_page)"] show ?thesis
    by (simp add: handle_login_def lp_set_audio_def init_login_page_def)
qed

text \<open>
  C31: the header renders in every typed state: in every state the provider
  reaches, it greets a registered user by the id stored with the voice print and
  shows no greeting without a user; it never reaches a child React rejects.
\<close>

theorem header_view_reachable:
  assumes "auth_reachable a"
  shows "header_view a \<noteq> RenderError \<and>
         (user a = JNull \<longrightarrow> header_view a = NoGreeting) \<and>
         (\<forall>uid vp. user a = user_json uid vp \<longrightarrow> header_view a = Greeting (''Welcome, '' @ uid))"
proof -
  have "auth_typed a" using assms by (rule auth_typed_state)
  then have "user a = JNull \<or> (\<exists>uid vp. user a = user_json uid vp)"
    by (auto simp: auth_typed_def dest: is_user_shape)
  then show ?thesis by (auto simp: header_view_def jsx_text_def json_get_def user_json_def)
qed

theorem header_view_reachable_witness:
  "header_view (snd (login ''P'' (snd (register ''alice'' ''V'' (init_auth Map.empty))))) = Greeting ''Welcome, alice'' \<and>
   header_view (logout (snd (login ''P'' (snd (register ''alice'' ''V'' (init_auth Map.empty)))))) = NoGreeting"
proof -
  have st: "storage_typed Map.empty" by (simp add: storage_typed_def stored_as_def)
  have r: "auth_reachable (snd (login ''P'' (snd (register ''alice'' ''V'' (init_auth Map.empty)))))"
    by (intro auth_reachable.login auth_reachable.register auth_reachable.init st)
  have u: "user (snd (login ''P'' (snd (register ''alice'' ''V'' (init_auth Map.empty))))) = user_json ''alice'' ''V''"
    by (simp add: login_after_register)
  have "user (logout (snd (login ''P'' (snd (register ''alice'' ''V'' (init_auth Map.empty)))))) = JNull"
    by (simp add: logout_def)
  moreover have "header_view (snd (login ''P'' (snd (register ''alice'' ''V'' (init_auth Map.empty))))) =
      Greeting (''Welcome, '' @ ''alice'')"
    using header_view_reachable [OF r] u by blast
  ultimately show ?thesis using header_view_reachable [OF auth_reachable.logout [OF r]] by simp
qed

lemma json_get_obj: "json_get k u = Some v \<Longrightarrow> \<exists>ms. u = JObj ms"
  by (cases u) (simp_all add: json_get_def)

text \<open>
  C32: the header trusts the storage: whenever both keys hold text and the user
  text parses to a value whose \<open>id\<close> is an object (written to \<open>localStorage\<close> by
  anything but the application), the mount effect loads it unchecked and the
  header throws when it renders the greeting.
\<close>

theorem header_tampered_storage:
  assumes "stored_text (init_auth st) user_storage_key = Some su"
    and "stored_text (init_auth st) auth_storage_key = Some sf"
    and "json_parse su = Some u" and "json_get ''id'' u = Some (JObj ms)"
  shows "header_view (auth_load (init_auth st)) = RenderError"
proof -
  have "user (auth_load (init_auth st)) = u" using assms(1-3)
    by (simp add: auth_load_def split: option.splits)
  moreover obtain ns where "u = JObj ns" using json_get_obj [OF assms(4)] by blast
  ultimately show ?thesis using assms(4) by (simp add: header_view_def jsx_text_def)
qed

theorem header_tampered_storage_witness:
  "header_view (auth_load (init_auth [user_storage_key \<mapsto> ''{\"id\":{}}'', auth_storage_key \<mapsto> ''true''])) =
     RenderError"
proof -
  have p: "json_parse ''{\"id\":{}}'' = Some (JObj [(''id'', JObj [])])"
    by (simp add: json_parse_def numeral_eq_Suc skip_ws_def is_ws_def dquote_def bslash_def)
  have "stored_text (init_auth [user_storage_key \<mapsto> ''{\"id\":{}}'', auth_storage_key \<mapsto> ''true'']) user_storage_key =
      Some ''{\"id\":{}}''"
    "stored_text (init_auth [user_storage_key \<mapsto> ''{\"id\":{}}'', auth_storage_key \<mapsto> ''true'']) auth_storage_key =
      Some ''true''"
    by (simp_all add: stored_text_def init_auth_def)
  moreover have "json_get ''id'' (JObj [(''id'', JObj [])]) = Some (JObj [])" by (simp add: json_get_def)
  ultimately show ?thesis using header_tampered_storage p by blast
qed

end
