(* ===== verification/Composition.thy ===== *)
theory Composition
  imports RecorderRuns Pages
begin

text \<open>
  The login page with the recorder it renders (src/src/app/page.tsx). The
  screen's state is the recorder, the page, the auth context and the paths
  passed to \<open>router.push\<close>. A recorder event steps the recorder, and every
  string the step passes to \<open>onRecordingComplete\<close> reaches the page through
  \<open>onRecordingComplete={setAudioData}\<close>, in order; the Authenticate button runs
  \<open>handleLogin\<close> up to its \<open>await\<close> when it is enabled; the settlement of that
  \<open>await\<close> runs the rest, and when it changes \<open>isAuthenticated\<close> the page's effect
  on \<open>isAuthenticated\<close> runs after the commit.
\<close>

record login_screen =
  ls_rec :: recorder
  ls_page :: login_page
  ls_auth :: auth_ctx
  ls_nav :: "string list"

datatype screen_event = RecorderEvent event | AuthenticateClick | LoginSettled

text \<open>The calls of \<open>onRecordingComplete\<close> a recorder step made, each a \<open>setAudioData\<close>.\<close>

definition deliver :: "recorder \<Rightarrow> recorder \<Rightarrow> login_page \<Rightarrow> login_page" where
  "deliver r r' p = fold lp_set_audio (drop (length (completed r)) (completed r')) p"

fun screen_step :: "login_screen \<Rightarrow> screen_event \<Rightarrow> login_screen option" where
  "screen_step s (RecorderEvent e) =
     (case recorder_step (ls_rec s) e of
        None \<Rightarrow> None
      | Some r' \<Rightarrow> Some (s\<lparr>ls_rec := r', ls_page := deliver (ls_rec s) r' (ls_page s)\<rparr>))"
| "screen_step s AuthenticateClick =
     (if login_disabled (ls_page s) then None else Some (s\<lparr>ls_page := handle_login (ls_page s)\<rparr>))"
| "screen_step s LoginSettled =
     (case lp_pending (ls_page s) of
        None \<Rightarrow> None
      | Some d \<Rightarrow>
          (let (p', a', nav) = login_resume d (ls_page s) (ls_auth s)
           in Some (s\<lparr>ls_page := p', ls_auth := a',
                      ls_nav := ls_nav s @ nav @
                        (if is_authenticated a' \<noteq> is_authenticated (ls_auth s) then login_effect a' else [])\<rparr>)))"

fun screen_run :: "login_screen \<Rightarrow> screen_event list \<Rightarrow> login_screen option" where
  "screen_run s [] = Some s"
| "screen_run s (e # es) = (case screen_step s e of None \<Rightarrow> None | Some s' \<Rightarrow> screen_run s' es)"

section \<open>Lemmas\<close>

lemma screen_run_append:
  "screen_run s (xs @ ys) = Option.bind (screen_run s xs) (\<lambda>s'. screen_run s' ys)"
  by (induction xs arbitrary: s) (auto split: option.splits)

lemma completed_step: "recorder_step r e = Some r' \<Longrightarrow> \<exists>xs. completed r' = completed r @ xs"
  by (cases e) (auto simp: commit_def handler_defs Let_def unmount_def stream_cleanup_def on_load_end_def
                     split: if_splits option.splits prod.splits)

lemma completed_run: "recorder_run r es = Some r' \<Longrightarrow> \<exists>xs. completed r' = completed r @ xs"
proof (induction es arbitrary: r)
  case (Cons e es)
  then obtain r1 where "recorder_step r e = Some r1" "recorder_run r1 es = Some r'" by (auto split: option.splits)
  then show ?case using Cons.IH completed_step by fastforce
qed simp

lemma screen_run_recorder:
  "recorder_run (ls_rec s) es = Some r' \<Longrightarrow>
   screen_run s (map RecorderEvent es) = Some (s\<lparr>ls_rec := r', ls_page := deliver (ls_rec s) r' (ls_page s)\<rparr>)"
proof (induction es arbitrary: s)
  case Nil
  then show ?case by (simp add: deliver_def)
next
  case (Cons e es)
  then obtain r1 where r1: "recorder_step (ls_rec s) e = Some r1" "recorder_run r1 es = Some r'"
    by (auto split: option.splits)
  obtain xs where xs: "completed r1 = completed (ls_rec s) @ xs" using completed_step [OF r1(1)] by blast
  obtain ys where ys: "completed r' = completed r1 @ ys" using completed_run [OF r1(2)] by blast
  have "deliver r1 r' (deliver (ls_rec s) r1 (ls_page s)) = deliver (ls_rec s) r' (ls_page s)"
    using xs ys by (simp add: deliver_def)
  then show ?case using r1 Cons.IH [of "s\<lparr>ls_rec := r1, ls_page := deliver (ls_rec s) r1 (ls_page s)\<rparr>"] by simp
qed

lemma data_url_non_empty [simp]: "read_as_data_url b \<noteq> []"
  by (simp add: read_as_data_url_def)

section \<open>Recording and logging in\<close>

text \<open>
  C30: recording and logging in, end to end: from every reachable state in which
  the login page's recorder records, a run of the screen finishes the recording,
  after which the page holds the data URL of the recorded chunks, which the
  recorder delivered through \<open>onRecordingComplete\<close>; Authenticate sends it to
  \<open>login\<close>, and with a registered user the login succeeds, sets the registered
  user, and the router receives \<open>/dashboard\<close> twice, from \<open>handleLogin\<close> and
  from the page's effect on \<open>isAuthenticated\<close>.
\<close>

theorem record_then_login:
  assumes "reachable (ls_rec s)" and "mounted (ls_rec s)" and "status (ls_rec s) = Recording"
    and "\<not> lp_authenticating (ls_page s)"
    and "ls_auth s = snd (register uid vp a)" and "is_authenticated a = JBool False"
  shows "\<exists>es s'. screen_run s es = Some s' \<and>
           lp_audio (ls_page s') = Some (read_as_data_url (make_blob (audio_chunks_ref (ls_rec s)) ''audio/wav'')) \<and>
           ls_nav s' = ls_nav s @ [''/dashboard'', ''/dashboard''] \<and>
           user (ls_auth s') = user_json uid vp \<and> is_authenticated (ls_auth s') = JBool True"
proof -
  define d where "d = read_as_data_url (make_blob (audio_chunks_ref (ls_rec s)) ''audio/wav'')"
  obtain es r' where run: "recorder_run (ls_rec s) es = Some r'"
    and c: "completed r' = completed (ls_rec s) @ [d]"
    using finish_recording [OF assms(1-3)] unfolding d_def by blast
  define s1 where "s1 = s\<lparr>ls_rec := r', ls_page := deliver (ls_rec s) r' (ls_page s)\<rparr>"
  have r1: "screen_run s (map RecorderEvent es) = Some s1" using screen_run_recorder [OF run] by (simp add: s1_def)
  have p1: "ls_page s1 = lp_set_audio d (ls_page s)" using c by (simp add: s1_def deliver_def)
  have r2: "screen_run s1 [AuthenticateClick, LoginSettled] =
      Some (s1\<lparr>ls_page := (handle_login (ls_page s1))\<lparr>lp_pending := None,
                 lp_toasts := lp_toasts (handle_login (ls_page s1)) @ [ToastAuthSuccess]\<rparr>,
               ls_auth := snd (login d (ls_auth s)), ls_nav := ls_nav s @ [''/dashboard'', ''/dashboard'']\<rparr>)"
  proof -
    have d: "d \<noteq> []" by (simp add: d_def)
    have f: "is_authenticated (snd (register uid vp a)) = JBool False" using assms(6) by (simp add: register_def)
    show ?thesis using p1 assms(4,5) d f
      by (simp add: login_disabled_def str_truthy_def lp_set_audio_def handle_login_def login_resume_def
                    login_after_register login_effect_def s1_def)
  qed
  show ?thesis
    using screen_run_append [of s "map RecorderEvent es" "[AuthenticateClick, LoginSettled]"] r1 r2 p1 assms(5)
    by (intro exI [of _ "map RecorderEvent es @ [AuthenticateClick, LoginSettled]"])
       (simp add: d_def handle_login_def lp_set_audio_def login_after_register)
qed

theorem record_then_login_witness:
  "case recorder_run (init_recorder True) [Click, PermissionGranted] of
     None \<Rightarrow> False
   | Some r \<Rightarrow>
       (\<exists>es s'. screen_run \<lparr>ls_rec = r, ls_page = init_login_page,
                              ls_auth = snd (register ''alice'' ''V'' (init_auth Map.empty)), ls_nav = []\<rparr> es = Some s' \<and>
          lp_audio (ls_page s') = Some (read_as_data_url (make_blob [] ''audio/wav'')) \<and>
          ls_nav s' = [''/dashboard'', ''/dashboard''] \<and>
          user (ls_auth s') = user_json ''alice'' ''V'' \<and> is_authenticated (ls_auth s') = JBool True)"
proof -
  obtain r where run: "recorder_run (init_recorder True) [Click, PermissionGranted] = Some r"
    by (simp add: run_unfold)
  have st: "mounted r" "status r = Recording" "audio_chunks_ref r = []"
    using run by (auto simp: run_unfold)
  have a: "is_authenticated (init_auth Map.empty) = JBool False" by (simp add: init_auth_def)
  have p: "\<not> lp_authenticating init_login_page" by (simp add: init_login_page_def)
  from record_then_login [of "\<lparr>ls_rec = r, ls_page = init_login_page,
        ls_auth = snd (register ''alice'' ''V'' (init_auth Map.empty)), ls_nav = []\<rparr>"
      "''alice''" "''V''" "init_auth Map.empty"] reachable_run [OF reachable.init run] st a p run
  show ?thesis by simp
qed

end
