(* ===== verification/Analysis.thy ===== *)
theory Analysis
  imports Auth
begin

text \<open>
  The security analysis: the server action \<open>analyzeSecurity\<close>
  (src/src/lib/actions.ts) and the panel that calls it
  (src/src/components/security-analysis.tsx). The AI flow
  \<open>enhanceVoicePrintSecurity\<close> is an external model behind a prompt; it is a
  parameter \<open>flow\<close> here, a function from the request to its outcome: an
  assessment, or a thrown value that is an \<open>Error\<close> instance or not. Every
  lemma holds for every flow.
\<close>

section \<open>The server action\<close>

record assessment =
  is_secure :: bool
  threat_level :: string
  anomalies_detected :: "string list"
  recommended_actions :: "string list"

record analysis_req =
  req_voice_print :: "json option"
  req_user_id :: "json option"

datatype thrown = ThrownError string | ThrownOther

datatype 'a outcome = Returned 'a | Threw thrown

record action_result =
  success :: bool
  result_data :: "assessment option"
  result_error :: "string option"

definition msg_unavailable :: string where
  "msg_unavailable = ''AI service is currently unavailable. Please try again later.''"

definition msg_unexpected :: string where
  "msg_unexpected = ''An unexpected error occurred during security analysis.''"

definition analyze_security :: "(analysis_req \<Rightarrow> assessment outcome) \<Rightarrow> analysis_req \<Rightarrow> action_result" where
  "analyze_security flow input =
     (case flow input of
        Returned r \<Rightarrow> \<lparr>success = True, result_data = Some r, result_error = None\<rparr>
      | Threw (ThrownError _) \<Rightarrow> \<lparr>success = False, result_data = None, result_error = Some msg_unavailable\<rparr>
      | Threw ThrownOther \<Rightarrow> \<lparr>success = False, result_data = None, result_error = Some msg_unexpected\<rparr>)"

section \<open>The panel\<close>

datatype panel_toast = ToastNoVoicePrint | ToastAnalysisComplete | ToastAnalysisFailed string

text \<open>
  \<open>isLoading\<close>, \<open>analysisResult\<close>, the toasts shown, and the request in flight
  (the \<open>await\<close> of \<open>handleAnalysis\<close>).
\<close>

record panel =
  panel_loading :: bool
  analysis_result :: "assessment option"
  panel_toasts :: "panel_toast list"
  in_flight :: "analysis_req option"

definition init_panel :: panel where
  "init_panel = \<lparr>panel_loading = False, analysis_result = None, panel_toasts = [], in_flight = None\<rparr>"

definition json_opt_truthy :: "json option \<Rightarrow> bool" where
  "json_opt_truthy v = (case v of None \<Rightarrow> False | Some x \<Rightarrow> json_truthy x)"

text \<open>\<open>handleAnalysis\<close> up to the \<open>await\<close>; \<open>user\<close> is the auth context's user.\<close>

definition handle_analysis :: "json \<Rightarrow> panel \<Rightarrow> panel" where
  "handle_analysis u p =
     (if \<not> json_opt_truthy (json_get ''voicePrint'' u)
      then p\<lparr>panel_toasts := panel_toasts p @ [ToastNoVoicePrint]\<rparr>
      else p\<lparr>panel_loading := True, analysis_result := None,
             in_flight := Some \<lparr>req_voice_print = json_get ''voicePrint'' u, req_user_id = json_get ''id'' u\<rparr>\<rparr>)"

text \<open>\<open>handleAnalysis\<close> after the \<open>await\<close>.\<close>

definition analysis_done :: "action_result \<Rightarrow> panel \<Rightarrow> panel" where
  "analysis_done res p =
     (let p1 = p\<lparr>panel_loading := False, in_flight := None\<rparr>
      in if success res \<and> result_data res \<noteq> None
         then p1\<lparr>analysis_result := result_data res, panel_toasts := panel_toasts p1 @ [ToastAnalysisComplete]\<rparr>
         else p1\<lparr>panel_toasts := panel_toasts p1 @
                   [ToastAnalysisFailed (case result_error res of
                                           Some e \<Rightarrow> if e \<noteq> [] then e else ''An unknown error occurred.''
                                         | None \<Rightarrow> ''An unknown error occurred.'')]\<rparr>)"

datatype panel_event = RunAnalysis | AnalysisSettled

text \<open>
  The panel as a step function: the button is disabled while loading, and the
  action settles only when a request is in flight.
\<close>

fun panel_step ::
  "(analysis_req \<Rightarrow> assessment outcome) \<Rightarrow> json \<Rightarrow> panel \<Rightarrow> panel_event \<Rightarrow> panel option" where
  "panel_step flow u p RunAnalysis = (if panel_loading p then None else Some (handle_analysis u p))"
| "panel_step flow u p AnalysisSettled =
     (case in_flight p of
        None \<Rightarrow> None
      | Some req \<Rightarrow> Some (analysis_done (analyze_security flow req) p))"

section \<open>The AI flow\<close>

text \<open>
  \<open>enhanceVoicePrintSecurity\<close> (src/src/ai/flows/enhance-voice-print-security.ts)
  runs a Genkit flow with input and output schemas. The flow checks its input
  against \<open>EnhanceVoicePrintSecurityInputSchema\<close> (both fields strings) and
  throws an \<open>Error\<close> otherwise; it then asks the model through the prompt, whose
  answer is the parameter \<open>model\<close>: the output parsed by the output schema,
  \<open>None\<close> when the answer does not conform, or a thrown value. \<open>output!\<close> passes a
  missing output on as \<open>null\<close>, which the flow's output schema rejects with an
  \<open>Error\<close>.
\<close>

definition enhance_flow ::
  "(string \<Rightarrow> string \<Rightarrow> assessment option outcome) \<Rightarrow> analysis_req \<Rightarrow> assessment outcome" where
  "enhance_flow model req =
     (case (req_voice_print req, req_user_id req) of
        (Some (JStr vp), Some (JStr uid)) \<Rightarrow>
          (case model vp uid of
             Returned (Some a) \<Rightarrow> Returned a
           | Returned None \<Rightarrow> Threw (ThrownError ''output schema'')
           | Threw t \<Rightarrow> Threw t)
      | _ \<Rightarrow> Threw (ThrownError ''input schema''))"

section \<open>What the panel shows\<close>

text \<open>
  \<open>String.prototype.toLowerCase\<close> on the 8-bit characters of the model: the
  ASCII capitals and the Latin-1 capitals (U+00C0 to U+00DE but U+00D7) move up
  by 32, every other character is left alone.
\<close>

definition js_to_lower_char :: "char \<Rightarrow> char" where
  "js_to_lower_char c =
     (let n = (of_char c :: nat)
      in if (65 \<le> n \<and> n \<le> 90) \<or> (192 \<le> n \<and> n \<le> 222 \<and> n \<noteq> 215) then char_of (n + 32) else c)"

text \<open>\<open>ThreatLevelBadge\<close>: the three known levels, whatever their case, or the level as given.\<close>

datatype badge = BadgeLow | BadgeMedium | BadgeHigh | BadgeLevel string

definition threat_level_badge :: "string \<Rightarrow> badge" where
  "threat_level_badge level =
     (let l = map js_to_lower_char level
      in if l = ''low'' then BadgeLow
         else if l = ''medium'' then BadgeMedium
         else if l = ''high'' then BadgeHigh
         else BadgeLevel level)"

text \<open>A list of the assessment, or its placeholder sentence when it is empty.\<close>

datatype list_view = ListItems "string list" | ListNone string

definition list_view :: "string list \<Rightarrow> string \<Rightarrow> list_view" where
  "list_view xs note = (if 0 < length xs then ListItems xs else ListNone note)"

text \<open>
  The card's content: the spinner while loading, the assessment when there is
  one (verdict, badge, anomalies, recommended actions), the invitation to run a
  scan otherwise. The \<open>voiceWordCloud\<close> paragraph is not a part: the output
  schema has no such field, so it is never present.
\<close>

datatype panel_view = ViewLoading | ViewAssessment string badge list_view list_view | ViewReady

definition render_panel :: "panel \<Rightarrow> panel_view" where
  "render_panel p =
     (if panel_loading p then ViewLoading
      else case analysis_result p of
        Some r \<Rightarrow> ViewAssessment (if is_secure r then ''Secure'' else ''Insecure'')
                    (threat_level_badge (threat_level r))
                    (list_view (anomalies_detected r) ''No anomalies detected.'')
                    (list_view (recommended_actions r) ''No specific actions recommended at this time.'')
      | None \<Rightarrow> ViewReady)"

definition button_label :: "panel \<Rightarrow> string" where
  "button_label p = (if panel_loading p then ''Analyzing...'' else ''Run Security Analysis'')"

section \<open>Lemmas\<close>

lemma json_get_user [simp]:
  "json_get ''voicePrint'' (user_json uid vp) = Some (JStr vp)"
  "json_get ''id'' (user_json uid vp) = Some (JStr uid)"
  by (simp_all add: json_get_def user_json_def)

lemma analysis_round:
  assumes "\<not> panel_loading p" and "json_opt_truthy (json_get ''voicePrint'' u)"
  shows "Option.bind (panel_step flow u p RunAnalysis) (\<lambda>p1. panel_step flow u p1 AnalysisSettled) =
         Some (analysis_done (analyze_security flow
                 \<lparr>req_voice_print = json_get ''voicePrint'' u, req_user_id = json_get ''id'' u\<rparr>)
               (handle_analysis u p))"
  using assms by (simp add: handle_analysis_def)

section \<open>Properties of the analysis\<close>

text \<open>
  C8: when the AI flow throws, a run of the analysis (click, then settlement of
  the action) ends with no assessment shown, the panel no longer loading, and a
  failure toast carrying the action's message: "AI service is currently
  unavailable" for an \<open>Error\<close>, the generic "unexpected error" for any other thrown
  value.
\<close>

theorem analysis_failure:
  assumes "\<not> panel_loading p" and "json_opt_truthy (json_get ''voicePrint'' u)"
    and "flow \<lparr>req_voice_print = json_get ''voicePrint'' u, req_user_id = json_get ''id'' u\<rparr> = Threw t"
  shows "\<exists>p'. Option.bind (panel_step flow u p RunAnalysis) (\<lambda>p1. panel_step flow u p1 AnalysisSettled) = Some p' \<and>
           analysis_result p' = None \<and> \<not> panel_loading p' \<and> in_flight p' = None \<and>
           panel_toasts p' = panel_toasts p @
             [ToastAnalysisFailed (case t of ThrownError _ \<Rightarrow> msg_unavailable | ThrownOther \<Rightarrow> msg_unexpected)]"
  using assms unfolding analysis_round [OF assms(1,2)]
  by (cases t) (simp_all add: analyze_security_def analysis_done_def handle_analysis_def Let_def
                              msg_unavailable_def msg_unexpected_def)

theorem analysis_failure_witness:
  "\<exists>p'. Option.bind (panel_step (\<lambda>_. Threw (ThrownError ''timeout'')) (user_json ''alice'' ''data:audio/wav;base64,'')
                        init_panel RunAnalysis)
          (\<lambda>p1. panel_step (\<lambda>_. Threw (ThrownError ''timeout'')) (user_json ''alice'' ''data:audio/wav;base64,'')
                   p1 AnalysisSettled) = Some p' \<and>
        analysis_result p' = None \<and> \<not> panel_loading p' \<and> in_flight p' = None \<and>
        panel_toasts p' = [ToastAnalysisFailed msg_unavailable]"
proof -
  have "\<not> panel_loading init_panel" by (simp add: init_panel_def)
  moreover have "json_opt_truthy (json_get ''voicePrint'' (user_json ''alice'' ''data:audio/wav;base64,''))"
    by (simp add: json_opt_truthy_def)
  moreover have "(\<lambda>_. Threw (ThrownError ''timeout''))
      \<lparr>req_voice_print = json_get ''voicePrint'' (user_json ''alice'' ''data:audio/wav;base64,''),
       req_user_id = json_get ''id'' (user_json ''alice'' ''data:audio/wav;base64,'')\<rparr> = Threw (ThrownError ''timeout'')"
    by simp
  ultimately show ?thesis using analysis_failure by (fastforce simp: init_panel_def)
qed

text \<open>
  C20: when the AI flow returns an assessment, the run shows exactly that
  assessment and a completion toast.
\<close>

theorem analysis_success:
  assumes "\<not> panel_loading p" and "json_opt_truthy (json_get ''voicePrint'' u)"
    and "flow \<lparr>req_voice_print = json_get ''voicePrint'' u, req_user_id = json_get ''id'' u\<rparr> = Returned r"
  shows "\<exists>p'. Option.bind (panel_step flow u p RunAnalysis) (\<lambda>p1. panel_step flow u p1 AnalysisSettled) = Some p' \<and>
           analysis_result p' = Some r \<and> \<not> panel_loading p' \<and>
           panel_toasts p' = panel_toasts p @ [ToastAnalysisComplete]"
  using assms unfolding analysis_round [OF assms(1,2)]
  by (simp add: analyze_security_def analysis_done_def handle_analysis_def Let_def)

theorem analysis_success_witness:
  "\<exists>p'. Option.bind (panel_step (\<lambda>_. Returned \<lparr>is_secure = True, threat_level = ''low'', anomalies_detected = [], recommended_actions = []\<rparr>)
                        (user_json ''alice'' ''data:audio/wav;base64,'') init_panel RunAnalysis)
          (\<lambda>p1. panel_step (\<lambda>_. Returned \<lparr>is_secure = True, threat_level = ''low'', anomalies_detected = [], recommended_actions = []\<rparr>)
                   (user_json ''alice'' ''data:audio/wav;base64,'') p1 AnalysisSettled) = Some p' \<and>
        analysis_result p' = Some \<lparr>is_secure = True, threat_level = ''low'', anomalies_detected = [], recommended_actions = []\<rparr> \<and>
        \<not> panel_loading p' \<and> panel_toasts p' = [ToastAnalysisComplete]"
proof -
  have "\<not> panel_loading init_panel" by (simp add: init_panel_def)
  moreover have "json_opt_truthy (json_get ''voicePrint'' (user_json ''alice'' ''data:audio/wav;base64,''))"
    by (simp add: json_opt_truthy_def)
  ultimately show ?thesis
    using analysis_success [where flow = "\<lambda>_. Returned \<lparr>is_secure = True, threat_level = ''low'', anomalies_detected = [], recommended_actions = []\<rparr>"]
    by (fastforce simp: init_panel_def)
qed

text \<open>
  C21: without a truthy \<open>voicePrint\<close> on the user (no user, a user object
  without it, or an empty one), a click only shows the "no voice print" toast: no
  request is sent and the panel is otherwise unchanged.
\<close>

theorem analysis_needs_voice_print:
  assumes "\<not> panel_loading p" and "\<not> json_opt_truthy (json_get ''voicePrint'' u)"
  shows "panel_step flow u p RunAnalysis = Some (p\<lparr>panel_toasts := panel_toasts p @ [ToastNoVoicePrint]\<rparr>)"
  using assms by (simp add: handle_analysis_def)

theorem analysis_needs_voice_print_witness:
  "panel_step (\<lambda>_. Threw ThrownOther) JNull init_panel RunAnalysis =
     Some (init_panel\<lparr>panel_toasts := [ToastNoVoicePrint]\<rparr>)"
proof -
  have "\<not> panel_loading init_panel" "\<not> json_opt_truthy (json_get ''voicePrint'' JNull)"
    by (simp_all add: init_panel_def json_opt_truthy_def json_get_def)
  from analysis_needs_voice_print [OF this, of "\<lambda>_. Threw ThrownOther"] show ?thesis
    by (simp add: init_panel_def)
qed

lemma analysis_run_panel:
  assumes "\<not> panel_loading p" and "json_opt_truthy (json_get ''voicePrint'' u)"
    and "flow \<lparr>req_voice_print = json_get ''voicePrint'' u, req_user_id = json_get ''id'' u\<rparr> = out"
  shows "\<exists>p'. Option.bind (panel_step flow u p RunAnalysis) (\<lambda>p1. panel_step flow u p1 AnalysisSettled) = Some p' \<and>
           \<not> panel_loading p' \<and>
           analysis_result p' = (case out of Returned r \<Rightarrow> Some r | Threw _ \<Rightarrow> None)"
  using assms unfolding analysis_round [OF assms(1,2)]
  by (cases out) (simp_all add: analyze_security_def analysis_done_def handle_analysis_def Let_def split: thrown.splits)

text \<open>
  C26: a failing analysis renders no assessment (spec, section 8): when the AI
  flow throws, the card shows the invitation to run a scan again, whatever it
  showed before, and the button is enabled with its label back.
\<close>

theorem analysis_failure_renders_ready:
  assumes "\<not> panel_loading p" and "json_opt_truthy (json_get ''voicePrint'' u)"
    and "flow \<lparr>req_voice_print = json_get ''voicePrint'' u, req_user_id = json_get ''id'' u\<rparr> = Threw t"
  shows "\<exists>p'. Option.bind (panel_step flow u p RunAnalysis) (\<lambda>p1. panel_step flow u p1 AnalysisSettled) = Some p' \<and>
           render_panel p' = ViewReady \<and> button_label p' = ''Run Security Analysis''"
proof -
  obtain p' where run: "Option.bind (panel_step flow u p RunAnalysis) (\<lambda>p1. panel_step flow u p1 AnalysisSettled) = Some p'"
    and p': "\<not> panel_loading p'" "analysis_result p' = (case Threw t of Returned r \<Rightarrow> Some r | Threw _ \<Rightarrow> None)"
    using analysis_run_panel [where flow = flow and u = u and p = p and out = "Threw t", OF assms] by blast
  have "render_panel p' = ViewReady \<and> button_label p' = ''Run Security Analysis''"
    using p' by (simp add: render_panel_def button_label_def)
  with run show ?thesis by blast
qed

theorem analysis_failure_renders_ready_witness:
  "\<exists>p'. Option.bind (panel_step (\<lambda>_. Threw ThrownOther) (user_json ''alice'' ''data:audio/wav;base64,'')
                        (init_panel\<lparr>analysis_result := Some \<lparr>is_secure = True, threat_level = ''low'',
                           anomalies_detected = [], recommended_actions = []\<rparr>\<rparr>) RunAnalysis)
          (\<lambda>p1. panel_step (\<lambda>_. Threw ThrownOther) (user_json ''alice'' ''data:audio/wav;base64,'') p1 AnalysisSettled) = Some p' \<and>
        render_panel p' = ViewReady \<and> button_label p' = ''Run Security Analysis''"
proof -
  have l: "\<not> panel_loading (init_panel\<lparr>analysis_result := Some \<lparr>is_secure = True, threat_level = ''low'',
                           anomalies_detected = [], recommended_actions = []\<rparr>\<rparr>)"
    by (simp add: init_panel_def)
  have v: "json_opt_truthy (json_get ''voicePrint'' (user_json ''alice'' ''data:audio/wav;base64,''))"
    by (simp add: json_opt_truthy_def)
  show ?thesis using analysis_failure_renders_ready [where flow = "\<lambda>_. Threw ThrownOther" and t = ThrownOther, OF l v]
    by simp
qed

text \<open>
  C27: \<open>ThreatLevelBadge\<close> is case-insensitive: two threat levels that agree after
  \<open>toLowerCase\<close> get the same badge when it is one of low, medium and high, and
  otherwise each is shown as given, in its own case.
\<close>

theorem threat_level_badge_case_insensitive:
  assumes "map js_to_lower_char l = map js_to_lower_char l'"
  shows "threat_level_badge l = (case threat_level_badge l' of BadgeLevel _ \<Rightarrow> BadgeLevel l | b \<Rightarrow> b)"
  using assms by (simp add: threat_level_badge_def Let_def)

theorem threat_level_badge_case_insensitive_witness:
  "threat_level_badge ''HIGH'' = BadgeHigh \<and> threat_level_badge ''Severe'' = BadgeLevel ''Severe''"
proof -
  have h: "map js_to_lower_char ''HIGH'' = map js_to_lower_char ''high''"
    by (simp add: js_to_lower_char_def char_of_def bit_0)
  have s: "map js_to_lower_char ''Severe'' = map js_to_lower_char ''severe''"
    by (simp add: js_to_lower_char_def char_of_def bit_0)
  have "threat_level_badge ''high'' = BadgeHigh" "threat_level_badge ''severe'' = BadgeLevel ''severe''"
    by (simp_all add: threat_level_badge_def js_to_lower_char_def char_of_def bit_0)
  with threat_level_badge_case_insensitive [OF h] threat_level_badge_case_insensitive [OF s] show ?thesis by simp
qed

text \<open>
  C28: the panel, the server action and the Genkit flow together: for a
  registered user \<open>{id, voicePrint}\<close> with a non-empty voice print, a run of the
  analysis asks the model about exactly that voice print and id; the panel then
  shows the model's assessment, and when the model's answer does not conform to
  the output schema it shows "AI service is currently unavailable" and no
  assessment.
\<close>

theorem analysis_with_flow:
  assumes "\<not> panel_loading p" and "vp \<noteq> []"
  shows "\<exists>p'. Option.bind (panel_step (enhance_flow model) (user_json uid vp) p RunAnalysis)
                 (\<lambda>p1. panel_step (enhance_flow model) (user_json uid vp) p1 AnalysisSettled) = Some p' \<and>
           \<not> panel_loading p' \<and>
           (case model vp uid of
              Returned (Some a) \<Rightarrow> analysis_result p' = Some a \<and> panel_toasts p' = panel_toasts p @ [ToastAnalysisComplete]
            | Returned None \<Rightarrow> analysis_result p' = None \<and>
                panel_toasts p' = panel_toasts p @ [ToastAnalysisFailed msg_unavailable]
            | Threw _ \<Rightarrow> analysis_result p' = None)"
proof -
  have v: "json_opt_truthy (json_get ''voicePrint'' (user_json uid vp))" using assms(2) by (simp add: json_opt_truthy_def)
  have r: "Option.bind (panel_step (enhance_flow model) (user_json uid vp) p RunAnalysis)
                 (\<lambda>p1. panel_step (enhance_flow model) (user_json uid vp) p1 AnalysisSettled) =
      Some (analysis_done (analyze_security (enhance_flow model)
              \<lparr>req_voice_print = Some (JStr vp), req_user_id = Some (JStr uid)\<rparr>) (handle_analysis (user_json uid vp) p))"
    using analysis_round [OF assms(1) v, of "enhance_flow model"] by simp
  show ?thesis unfolding r using assms(2)
    by (simp add: enhance_flow_def analyze_security_def analysis_done_def handle_analysis_def Let_def
                  json_opt_truthy_def msg_unavailable_def split: outcome.splits option.splits thrown.splits)
qed

theorem analysis_with_flow_witness:
  "\<exists>p'. Option.bind (panel_step (enhance_flow (\<lambda>_ _. Returned None)) (user_json ''alice'' ''data:audio/wav;base64,'')
                        init_panel RunAnalysis)
          (\<lambda>p1. panel_step (enhance_flow (\<lambda>_ _. Returned None)) (user_json ''alice'' ''data:audio/wav;base64,'')
                   p1 AnalysisSettled) = Some p' \<and>
        \<not> panel_loading p' \<and> analysis_result p' = None \<and> panel_toasts p' = [ToastAnalysisFailed msg_unavailable]"
proof -
  have l: "\<not> panel_loading init_panel" by (simp add: init_panel_def)
  have v: "''data:audio/wav;base64,'' \<noteq> []" by simp
  from analysis_with_flow [OF l v, of "\<lambda>_ _. Returned None" "''alice''"] show ?thesis by (simp add: init_panel_def)
qed

end
