(* ===== verification/Spec2Isabelle.thy ===== *)
theory Spec2Isabelle
  imports Composition Analysis
begin

text \<open>
  \<^bold>\<open>VoiceKey: a verification development.\<close>

  VoiceKey is a Next.js application that registers and logs in a user by a recorded
  voice passphrase. The parts that compute are the voice recorder
  (src/src/components/voice-recorder.tsx), which drives the microphone, the Web
  Audio analyser and a \<open>MediaRecorder\<close> and hands the recording to its parent as
  a Base64 data URL; the waveform visualizer it mounts while recording
  (src/src/components/waveform-visualizer.tsx); the auth context that keeps the
  registered user in \<open>localStorage\<close> (src/src/context/auth-context.tsx); and the
  security-analysis panel with its server action (src/src/components/security-analysis.tsx,
  src/src/lib/actions.ts), which sends the stored voice print to an AI flow.

  \<^bold>\<open>Theories.\<close>
  \<^item> Prelude: the byte and blob types, the theorem collections \<open>handler_simps\<close> and
    \<open>platform_simps\<close>, list and word lemmas shared by the components.
  \<^item> Platform: the browser objects the components hold, as an explicit store
    (record \<open>browser\<close>) with fresh identifiers: live microphone tracks, audio
    contexts with their analyser, \<open>MediaRecorder\<close>s with their pending final
    events, the animation-frame queue, and a count of unhandled promise
    rejections. Modelled from the platform standards; none of it is code of the
    repository.
  \<^item> DataUri: \<open>new Blob\<close>, Base64 and \<open>FileReader.readAsDataURL\<close> (browser code,
    modelled from RFC 4648 and the File API), with the decoder and the data-URI
    parser that state what the payload means, and their round-trip lemmas
    (Base64 over \<open>8 word\<close> and \<open>6 word\<close>, proved bit by bit).
  \<^item> Waveform: \<open>WaveformVisualizer\<close>: the path computed by \<open>draw\<close>
    (\<open>draw_segments\<close>, \<open>draw_path\<close>, exact over the rationals) and the effect that
    arms, re-arms and cancels animation frames (\<open>viz_mount\<close>, \<open>viz_draw\<close>,
    \<open>viz_cleanup\<close>, \<open>viz_animation_frame\<close>). Its lemmas give the closed form of the
    accumulating loop, the length of the path and the bounds of its points.
  \<^item> Recorder: \<open>VoiceRecorder\<close>. The record \<open>recorder\<close> holds the React state, the
    refs, the cleanup registered by the \<open>[stream]\<close> effect, the mounted visualizer,
    the pending promise and reader, the outputs (toasts, calls of
    \<open>onRecordingComplete\<close>) and the browser. One definition per handler
    (\<open>get_mic_permission\<close>, \<open>permission_granted\<close>, \<open>permission_denied\<close>,
    \<open>start_recording\<close>, \<open>on_data_available\<close>, \<open>on_stop\<close>, \<open>on_load_end\<close>,
    \<open>stop_recording\<close>, \<open>handle_button_click\<close>, \<open>stream_cleanup\<close>); \<open>commit\<close> is
    React's commit after a handler (effect cleanups, then effects, state updates
    batched); \<open>recorder_step\<close> is the step function over the events that can occur
    (clicks, promise settlement, recorder and reader events, animation frames,
    microphone input, unmount, and a microphone track ending on its own, which the
    component does not handle but which stops its \<open>MediaRecorder\<close>),
    \<open>reachable\<close> its reachable states.
  \<^item> RecorderInv: the animation-frame invariant \<open>frames_inv\<close> over all reachable
    states, by rule induction on \<open>reachable\<close> with one preservation lemma per handler
    and commit phase.
  \<^item> RecorderPhases: the phase invariant \<open>mounted_inv\<close> of a mounted recorder (what
    each status implies of the stream, the tracks, the audio contexts, the
    \<open>MediaRecorder\<close> in the ref, the pending request and reader), proved for every
    reachable state; the design's state machine (spec, section 4.4) as the
    inductive \<open>spec_step\<close> over \<open>spec_event\<close>, with \<open>abs_event\<close> naming the abstract
    event a recorder step performs, and the refinement theorem that every step of
    a reachable mounted recorder is a \<open>spec_step\<close> on its status. The consequences:
    no track is live outside \<open>Recording\<close> or after Stop (a stream whose track
    ended on its own may stay in the state), every audio context is closed (also
    while recording), a Stop click closes a closed context, a denied permission is
    recoverable.
  \<^item> RecorderRuns: runs of several steps: a recording started can always be
    finished (the completion handler gets the data URL of the chunks so far), and
    what happens when the host unmounts the recorder with a request or a
    recording under way: the tracks acquired later stay live, and a recording
    under way is still delivered.
  \<^item> Json: \<open>JSON.stringify\<close> and \<open>JSON.parse\<close> on the values the auth context
    stores (null, booleans, strings, objects), the parser with fuel and the
    round trip \<open>json_parse (json_stringify v) = Some v\<close>.
  \<^item> Auth: \<open>AuthProvider\<close> (src/src/context/auth-context.tsx): the record
    \<open>auth_ctx\<close> of React state and \<open>localStorage\<close>, and \<open>auth_load\<close> (the mount
    effect), \<open>register\<close>, \<open>login\<close>, \<open>logout\<close>; the documented mock behaviour,
    persistence across a reload, the missing duplicate check, and the typed state: the declared types
    \<open>User\<close> and \<open>AuthContextType\<close> as predicates on the parsed values
    (\<open>is_user\<close>, \<open>auth_typed\<close>), preserved over the states \<open>auth_reachable\<close>
    reaches by rule induction.
  \<^item> Analysis: \<open>analyzeSecurity\<close> (src/src/lib/actions.ts) for an arbitrary AI
    flow, given as the parameter \<open>flow\<close>, and \<open>handleAnalysis\<close> of the panel
    (src/src/components/security-analysis.tsx) split at its \<open>await\<close>, with
    \<open>panel_step\<close> over the click and the settlement; the Genkit flow
    \<open>enhanceVoicePrintSecurity\<close> (src/src/ai/flows/enhance-voice-print-security.ts)
    as \<open>enhance_flow\<close>, with its input and output checks around the model's
    answer; and what the card shows (\<open>render_panel\<close>, \<open>threat_level_badge\<close>,
    \<open>list_view\<close>, \<open>button_label\<close>), with the badge case-insensitive.
  \<^item> Pages: the login page (src/src/app/page.tsx), the register page
    (src/src/app/register/page.tsx) and the header's logout
    (src/src/components/header.tsx), each handler split at its \<open>await\<close>, and the
    register-then-login scenario end to end; the header's greeting
    (\<open>header_view\<close>), which renders in every typed auth state and throws on a
    tampered stored user.
  \<^item> Composition: the login screen (record \<open>login_screen\<close>): the recorder, the
    login page, the auth context and the router, with \<open>screen_step\<close> over the
    recorder's events (whose calls of \<open>onRecordingComplete\<close> reach the page as
    \<open>setAudioData\<close>, \<open>deliver\<close>), the Authenticate click and the settlement of
    \<open>handleLogin\<close> with the page's effect on \<open>isAuthenticated\<close>; recording and logging
    in end to end.

  \<^bold>\<open>Choices.\<close> Asynchrony is modelled by events: each \<open>await\<close> or callback
  splits a handler into the part before and an event for the part after, and an
  event is enabled only when its source is pending (\<open>recorder_step\<close> returns
  \<open>None\<close> otherwise). A stopped \<open>MediaRecorder\<close> may in the model fire its \<open>stop\<close>
  event before a pending \<open>dataavailable\<close>, which is then never delivered: the
  model's runs include every run the standard allows, so the lemmas over all
  runs hold for the standard's order too. Path coordinates are rationals; for the 1024-bin analyser
  the recorder creates every coordinate is a multiple of 1/256 below 2^20, which
  IEEE doubles represent exactly, so the rational results are the JavaScript ones.
  The recorder needs no fuel: every handler is a finite composition of steps, and
  the loops (the Base64 groups, the path loop) are structural recursions. The
  JSON parser takes fuel (its recursion descends into nested values); every call
  consumes input, so \<open>json_parse\<close> gives it one more than the length of the text,
  and any fuel beyond that length gives the same result (\<open>json_parse_fuel\<close>):
  no text is rejected for lack of fuel.

  \<^bold>\<open>Not modelled.\<close> JSX markup beyond the conditions that decide which effects
  run and what the analysis card shows; the dashboard page and the icons, which
  are markup with no state or handlers; the answer of the external AI model,
  which is a parameter of the analysis lemmas (\<open>flow\<close> for the action, \<open>model\<close>
  for the Genkit flow); the internals of
  React, Next.js routing, Genkit and zod beyond what the components observe
  (batched updates and effect order, \<open>router.push\<close> as a list of paths, the
  schema checks of the flow); Unicode beyond the 8-bit characters of HOL strings
  (\<open>toLowerCase\<close> is exact on Latin-1).
\<close>

end
